(* ===== verification/NW_Prelude.thy ===== *)
theory NW_Prelude imports Main "HOL-Library.Word" "HOL-Library.Code_Target_Numeral" begin

text \<open>
  What the components share: the result type of code that may throw, the C++ string
  operations the sources use (\<^verbatim>\<open>find\<close>, \<^verbatim>\<open>substr\<close>, the \<^verbatim>\<open>getline\<close> splitting loop, the
  \<^verbatim>\<open>trim\<close> helper), the C character classes, decimal printing and reading, and the generic
  lemmas about them. Strings are byte strings: one \<^typ>\<open>char\<close> per C++ \<^verbatim>\<open>char\<close>.
\<close>

named_theorems char_simps \<open>evaluation of the C character classes\<close>
named_theorems str_simps \<open>splitting and trimming of concatenated strings\<close>
named_theorems res_simps \<open>unfolding of the exception combinators\<close>

section \<open>Results of code that may throw\<close>

text \<open>
  Every handler in the sources catches \<^verbatim>\<open>std::exception\<close> (or everything) and at most reads
  \<^verbatim>\<open>what()\<close>, so an exception is its message.
\<close>

type_synonym 'a result = "string + 'a"

abbreviation throw :: "string \<Rightarrow> 'a result" where
  "throw msg \<equiv> Inl msg"

abbreviation ok :: "'a \<Rightarrow> 'a result" where
  "ok x \<equiv> Inr x"

definition then_res :: "'a result \<Rightarrow> ('a \<Rightarrow> 'b result) \<Rightarrow> 'b result" where
  "then_res r f = (case r of Inl e \<Rightarrow> Inl e | Inr x \<Rightarrow> f x)"

lemma then_res_simps [simp]:
  "then_res (Inl e) f = Inl e"
  "then_res (Inr x) f = f x"
  by (simp_all add: then_res_def)

lemma then_res_Inr_iff [res_simps]:
  "then_res r f = Inr y \<longleftrightarrow> (\<exists>x. r = Inr x \<and> f x = Inr y)"
  by (cases r) auto

lemma then_res_Inl_iff [res_simps]:
  "then_res r f = Inl e \<longleftrightarrow> r = Inl e \<or> (\<exists>x. r = Inr x \<and> f x = Inl e)"
  by (cases r) auto

definition is_ok :: "'a result \<Rightarrow> bool" where
  "is_ok r = (case r of Inl _ \<Rightarrow> False | Inr _ \<Rightarrow> True)"

lemma is_ok_simps [simp]: "\<not> is_ok (Inl e)" "is_ok (Inr x)"
  by (simp_all add: is_ok_def)

lemma is_ok_iff: "is_ok r \<longleftrightarrow> (\<exists>x. r = Inr x)"
  by (cases r) auto

text \<open>A text between single quotes, as the error messages show one.\<close>

definition quoted :: "string \<Rightarrow> string" where
  "quoted s = CHR 0x27 # s @ [CHR 0x27]"

section \<open>C character classes ("C" locale)\<close>

abbreviation code_of :: "char \<Rightarrow> nat" where
  "code_of c \<equiv> of_char c"

definition isspace :: "char \<Rightarrow> bool" where
  "isspace c \<longleftrightarrow> c = CHR 0x20 \<or> (9 \<le> code_of c \<and> code_of c \<le> 13)"

definition isdigit :: "char \<Rightarrow> bool" where
  "isdigit c \<longleftrightarrow> 48 \<le> code_of c \<and> code_of c \<le> 57"

definition isupper :: "char \<Rightarrow> bool" where
  "isupper c \<longleftrightarrow> 65 \<le> code_of c \<and> code_of c \<le> 90"

definition islower :: "char \<Rightarrow> bool" where
  "islower c \<longleftrightarrow> 97 \<le> code_of c \<and> code_of c \<le> 122"

definition isalpha :: "char \<Rightarrow> bool" where
  "isalpha c \<longleftrightarrow> isupper c \<or> islower c"

definition isalnum :: "char \<Rightarrow> bool" where
  "isalnum c \<longleftrightarrow> isalpha c \<or> isdigit c"

definition tolower :: "char \<Rightarrow> char" where
  "tolower c = (if isupper c then char_of (code_of c + 32) else c)"

lemmas char_class_defs [char_simps] =
  isspace_def isdigit_def isupper_def islower_def isalpha_def isalnum_def

lemma digit_not_space: "isdigit c \<Longrightarrow> \<not> isspace c"
  by (auto simp: isdigit_def isspace_def)

lemma digit_not_alpha: "isdigit c \<Longrightarrow> \<not> isalpha c"
  by (auto simp: char_class_defs)

lemma alpha_not_space: "isalpha c \<Longrightarrow> \<not> isspace c"
  by (auto simp: char_class_defs)

section \<open>String operations\<close>

text \<open>\<^verbatim>\<open>s.find(c, from)\<close> as an offset into the string, \<^verbatim>\<open>npos\<close> as \<^const>\<open>None\<close>.\<close>

fun find_chr :: "char \<Rightarrow> string \<Rightarrow> nat option" where
  "find_chr c [] = None"
| "find_chr c (x # xs) = (if x = c then Some 0 else map_option Suc (find_chr c xs))"

definition find_chr_from :: "char \<Rightarrow> string \<Rightarrow> nat \<Rightarrow> nat option" where
  "find_chr_from c s i = map_option (\<lambda>k. i + k) (find_chr c (drop i s))"

definition rfind_chr :: "char \<Rightarrow> string \<Rightarrow> nat option" where
  "rfind_chr c s = map_option (\<lambda>k. length s - 1 - k) (find_chr c (rev s))"

definition starts_with :: "string \<Rightarrow> string \<Rightarrow> bool" where
  "starts_with p s \<longleftrightarrow> take (length p) s = p"

text \<open>\<^verbatim>\<open>s.find(needle)\<close> for a string needle.\<close>

fun find_str :: "string \<Rightarrow> string \<Rightarrow> nat option" where
  "find_str n [] = (if n = [] then Some 0 else None)"
| "find_str n (x # xs) =
     (if starts_with n (x # xs) then Some 0 else map_option Suc (find_str n xs))"

text \<open>\<^verbatim>\<open>s.substr(pos)\<close> and \<^verbatim>\<open>s.substr(pos, n)\<close>, used in range only.\<close>

definition substr :: "string \<Rightarrow> nat \<Rightarrow> string" where
  "substr s i = drop i s"

definition substr_n :: "string \<Rightarrow> nat \<Rightarrow> nat \<Rightarrow> string" where
  "substr_n s i n = take n (drop i s)"

text \<open>The \<^verbatim>\<open>pop_back\<close> loops: drop characters from the end while a predicate holds.\<close>

definition rstrip :: "(char \<Rightarrow> bool) \<Rightarrow> string \<Rightarrow> string" where
  "rstrip p s = rev (dropWhile p (rev s))"

definition trim :: "string \<Rightarrow> string" where
  "trim s = rstrip isspace (dropWhile isspace s)"

text \<open>
  \<^verbatim>\<open>while (std::getline(ss, item, delim)) out.push_back(item)\<close>: an empty stream gives no item
  and a trailing delimiter opens none.
\<close>

fun getline_split_acc :: "char \<Rightarrow> string \<Rightarrow> string \<Rightarrow> string list" where
  "getline_split_acc d acc [] = (if acc = [] then [] else [acc])"
| "getline_split_acc d acc (c # cs) =
     (if c = d then acc # getline_split_acc d [] cs
      else getline_split_acc d (acc @ [c]) cs)"

definition getline_split :: "string \<Rightarrow> char \<Rightarrow> string list" where
  "getline_split s d = getline_split_acc d [] s"

subsection \<open>Lemmas on searching\<close>

lemma find_chr_None_iff: "find_chr c s = None \<longleftrightarrow> c \<notin> set s"
  by (induction s) auto

lemma find_chr_Some_iff:
  "find_chr c s = Some k \<longleftrightarrow> k < length s \<and> s ! k = c \<and> c \<notin> set (take k s)"
proof (induction s arbitrary: k)
  case Nil
  then show ?case by simp
next
  case (Cons x xs)
  then show ?case by (cases k) auto
qed

lemma find_chr_append [str_simps]:
  "c \<notin> set xs \<Longrightarrow> find_chr c (xs @ c # ys) = Some (length xs)"
  by (induction xs) auto

lemma rfind_chr_append:
  "c \<notin> set t \<Longrightarrow> rfind_chr c (s @ c # t) = Some (length s)"
  using find_chr_append [of c "rev t" "rev s"] by (simp add: rfind_chr_def)

lemma rfind_chr_None: "c \<notin> set s \<Longrightarrow> rfind_chr c s = None"
  using find_chr_None_iff [of c "rev s"] by (simp add: rfind_chr_def)

lemma starts_with_append [simp]: "starts_with p (p @ s)"
  by (simp add: starts_with_def)

lemma starts_with_iff: "starts_with p s \<longleftrightarrow> (\<exists>t. s = p @ t)"
  unfolding starts_with_def by (metis append_eq_conv_conj append_take_drop_id)

subsection \<open>Lemmas on splitting\<close>

lemma getline_split_acc_step:
  "d \<notin> set xs \<Longrightarrow>
   getline_split_acc d acc (xs @ d # ys) = (acc @ xs) # getline_split_acc d [] ys"
  by (induction xs arbitrary: acc) auto

lemma getline_split_acc_last:
  "d \<notin> set xs \<Longrightarrow>
   getline_split_acc d acc xs = (if acc @ xs = [] then [] else [acc @ xs])"
  by (induction xs arbitrary: acc) auto

lemma getline_split_step [str_simps]:
  "d \<notin> set xs \<Longrightarrow> getline_split (xs @ d # ys) d = xs # getline_split ys d"
  by (simp add: getline_split_def getline_split_acc_step)

lemma getline_split_last [str_simps]:
  "d \<notin> set xs \<Longrightarrow> xs \<noteq> [] \<Longrightarrow> getline_split xs d = [xs]"
  by (simp add: getline_split_def getline_split_acc_last)

lemma getline_split_Nil [simp]: "getline_split [] d = []"
  by (simp add: getline_split_def)

lemma getline_split_acc_no_delim:
  "d \<notin> set acc \<Longrightarrow> x \<in> set (getline_split_acc d acc s) \<Longrightarrow> d \<notin> set x"
  by (induction d acc s rule: getline_split_acc.induct) (auto split: if_splits)

lemma getline_split_no_delim: "x \<in> set (getline_split s d) \<Longrightarrow> d \<notin> set x"
  using getline_split_acc_no_delim [of d "[]" x s] by (simp add: getline_split_def)

subsection \<open>Lemmas on trimming\<close>

lemma rstrip_snoc_keep: "\<not> p c \<Longrightarrow> rstrip p (s @ [c]) = s @ [c]"
  by (simp add: rstrip_def)

lemma rstrip_snoc_drop: "p c \<Longrightarrow> rstrip p (s @ [c]) = rstrip p s"
  by (simp add: rstrip_def)

lemma rstrip_Nil [simp]: "rstrip p [] = []"
  by (simp add: rstrip_def)

lemma rstrip_id: "s \<noteq> [] \<Longrightarrow> \<not> p (last s) \<Longrightarrow> rstrip p s = s"
  by (cases s rule: rev_cases) (auto simp: rstrip_snoc_keep)

lemma rstrip_append_all: "\<forall>c\<in>set t. p c \<Longrightarrow> rstrip p (s @ t) = rstrip p s"
  by (induction t rule: rev_induct) (auto simp: rstrip_snoc_drop simp flip: append_assoc)

lemma rstrip_last: "rstrip p s \<noteq> [] \<Longrightarrow> \<not> p (last (rstrip p s))"
  using hd_dropWhile [of p "rev s"] by (auto simp: rstrip_def last_rev)

lemma rstrip_prefix: "\<exists>t. s = rstrip p s @ t \<and> (\<forall>c\<in>set t. p c)"
proof -
  have "rev s = takeWhile p (rev s) @ dropWhile p (rev s)" by simp
  then have "s = rev (dropWhile p (rev s)) @ rev (takeWhile p (rev s))"
    by (metis rev_append rev_rev_ident)
  moreover have "\<forall>c\<in>set (rev (takeWhile p (rev s))). p c"
    by (auto dest: set_takeWhileD)
  ultimately show ?thesis unfolding rstrip_def by blast
qed

lemma trim_Nil [simp]: "trim [] = []"
  by (simp add: trim_def)

lemma trim_id:
  "s \<noteq> [] \<Longrightarrow> \<not> isspace (hd s) \<Longrightarrow> \<not> isspace (last s) \<Longrightarrow> trim s = s"
  by (cases s) (auto simp: trim_def intro!: rstrip_id)

lemma trim_space_Cons: "isspace c \<Longrightarrow> trim (c # s) = trim s"
  by (simp add: trim_def)

lemma trim_first: "trim s \<noteq> [] \<Longrightarrow> \<not> isspace (hd (trim s))"
proof -
  assume ne: "trim s \<noteq> []"
  obtain t where t: "dropWhile isspace s = trim s @ t"
    using rstrip_prefix [of "dropWhile isspace s" isspace] by (auto simp: trim_def)
  with ne have "hd (trim s) = hd (dropWhile isspace s)" by simp
  moreover from t ne have "dropWhile isspace s \<noteq> []" by auto
  ultimately show ?thesis by (metis hd_dropWhile)
qed

lemma trim_last: "trim s \<noteq> [] \<Longrightarrow> \<not> isspace (last (trim s))"
  by (simp add: trim_def rstrip_last)

lemma trim_idem [simp]: "trim (trim s) = trim s"
  by (cases "trim s = []") (auto intro!: trim_id dest: trim_first trim_last)

section \<open>Decimal digits\<close>

definition digit_chr :: "nat \<Rightarrow> char" where
  "digit_chr n = char_of (48 + n)"

definition digit_val :: "char \<Rightarrow> nat" where
  "digit_val c = code_of c - 48"

lemma code_digit_chr [simp]: "n < 10 \<Longrightarrow> code_of (digit_chr n) = 48 + n"
  by (simp add: digit_chr_def)

lemma isdigit_digit_chr [simp]: "n < 10 \<Longrightarrow> isdigit (digit_chr n)"
  by (simp add: isdigit_def)

lemma digit_val_digit_chr [simp]: "n < 10 \<Longrightarrow> digit_val (digit_chr n) = n"
  by (simp add: digit_val_def)

text \<open>\<^verbatim>\<open>std::to_string\<close> on integers, and the value of a digit string.\<close>

fun show_nat :: "nat \<Rightarrow> string" where
  "show_nat n = (if n < 10 then [digit_chr n] else show_nat (n div 10) @ [digit_chr (n mod 10)])"

declare show_nat.simps [simp del]

definition show_int :: "int \<Rightarrow> string" where
  "show_int i = (if i < 0 then CHR ''-'' # show_nat (nat (- i)) else show_nat (nat i))"

definition digits_val :: "string \<Rightarrow> nat" where
  "digits_val s = foldl (\<lambda>a c. 10 * a + digit_val c) 0 s"

lemma digits_val_Nil [simp]: "digits_val [] = 0"
  by (simp add: digits_val_def)

lemma digits_val_snoc [simp]: "digits_val (s @ [c]) = 10 * digits_val s + digit_val c"
  by (simp add: digits_val_def)

lemma digits_val_append: "digits_val (s @ t) = digits_val s * 10 ^ length t + digits_val t"
  by (induction t rule: rev_induct) (simp_all add: algebra_simps flip: append_assoc)

lemma show_nat_nonempty [simp]: "show_nat n \<noteq> []"
  by (subst show_nat.simps) simp

lemma show_nat_digits: "\<forall>c\<in>set (show_nat n). isdigit c"
proof (induction n rule: show_nat.induct)
  case (1 n)
  show ?case
  proof (cases "n < 10")
    case True
    then show ?thesis by (subst show_nat.simps) simp
  next
    case False
    with 1 show ?thesis by (subst show_nat.simps) auto
  qed
qed

lemma digits_val_show_nat [simp]: "digits_val (show_nat n) = n"
proof (induction n rule: show_nat.induct)
  case (1 n)
  show ?case
  proof (cases "n < 10")
    case True
    then show ?thesis by (subst show_nat.simps) (simp add: digits_val_def)
  next
    case False
    with 1 show ?thesis by (subst show_nat.simps) simp
  qed
qed

lemma show_nat_length: "n < 10 ^ k \<Longrightarrow> 0 < k \<Longrightarrow> length (show_nat n) \<le> k"
proof (induction k arbitrary: n)
  case 0
  then show ?case by simp
next
  case (Suc k)
  show ?case
  proof (cases "n < 10")
    case True
    then show ?thesis by (subst show_nat.simps) simp
  next
    case False
    then have "0 < k" using Suc.prems by (cases k) auto
    moreover have "n div 10 < 10 ^ k" using Suc.prems(1) by (simp add: less_mult_imp_div_less mult.commute)
    ultimately have "length (show_nat (n div 10)) \<le> k" using Suc.IH by blast
    with False show ?thesis by (subst show_nat.simps) simp
  qed
qed

lemma show_nat_first: "0 < n \<Longrightarrow> hd (show_nat n) \<noteq> CHR ''0''"
proof (induction n rule: show_nat.induct)
  case (1 n)
  show ?case
  proof (cases "n < 10")
    case True
    have "digit_chr n \<noteq> CHR ''0''"
    proof
      assume "digit_chr n = CHR ''0''"
      then have "code_of (digit_chr n) = code_of CHR ''0''" by (rule arg_cong)
      then show False using True "1.prems" by simp
    qed
    then show ?thesis using True by (subst show_nat.simps) simp
  next
    case False
    with "1.IH" show ?thesis by (subst show_nat.simps) simp
  qed
qed

text \<open>Zero padding on the left, as \<^verbatim>\<open>%0Nd\<close> does for a non-negative number.\<close>

definition pad0 :: "nat \<Rightarrow> string \<Rightarrow> string" where
  "pad0 w s = replicate (w - length s) CHR ''0'' @ s"

lemma isdigit_zero [simp]: "isdigit CHR ''0''"
  by (simp add: isdigit_def)

lemma digits_val_zeros [simp]: "digits_val (replicate k CHR ''0'') = 0"
  by (induction k) (simp_all add: digits_val_def digit_val_def)

lemma digits_val_pad0 [simp]: "digits_val (pad0 w s) = digits_val s"
  by (simp add: pad0_def digits_val_append)

lemma pad0_digits: "\<forall>c\<in>set s. isdigit c \<Longrightarrow> \<forall>c\<in>set (pad0 w s). isdigit c"
  by (auto simp: pad0_def)

lemma pad0_nonempty [simp]: "s \<noteq> [] \<Longrightarrow> pad0 w s \<noteq> []"
  by (simp add: pad0_def)

lemma pad0_length: "length (pad0 w s) = max w (length s)"
  by (simp add: pad0_def)

section \<open>Machine integers\<close>

definition to_i32 :: "int \<Rightarrow> int" where
  "to_i32 i = sint (word_of_int i :: 32 word)"

definition to_u16 :: "int \<Rightarrow> int" where
  "to_u16 i = uint (word_of_int i :: 16 word)"

definition i64_min :: int where "i64_min = - (2 ^ 63)"
definition i64_max :: int where "i64_max = 2 ^ 63 - 1"
definition i32_min :: int where "i32_min = - (2 ^ 31)"
definition i32_max :: int where "i32_max = 2 ^ 31 - 1"

lemma sint_word_of_int_32: "sint (word_of_int i :: 32 word) = signed_take_bit 31 i"
  by transfer simp

lemma to_i32_id: "i32_min \<le> i \<Longrightarrow> i \<le> i32_max \<Longrightarrow> to_i32 i = i"
  by (simp add: to_i32_def i32_min_def i32_max_def sint_word_of_int_32 signed_take_bit_int_eq_self)

lemma to_i32_range: "i32_min \<le> to_i32 i \<and> to_i32 i \<le> i32_max"
  using sint_ge [of "word_of_int i :: 32 word"] sint_lt [of "word_of_int i :: 32 word"]
  by (simp add: to_i32_def i32_min_def i32_max_def)

end
