(* ===== verification/NW_Num.thy ===== *)
theory NW_Num imports NW_Prelude begin

text \<open>
  The C++ numbers the sources use: \<^verbatim>\<open>double\<close> as IEEE binary64 with round-to-nearest-even
  (sign, integer significand, binary exponent; the sign of a NaN is not kept), the C
  conversions \<^verbatim>\<open>strtod\<close>, \<^verbatim>\<open>strtol\<close> and the functions built on them (\<^verbatim>\<open>stod\<close>, \<^verbatim>\<open>stoll\<close>,
  \<^verbatim>\<open>stoi\<close>, \<^verbatim>\<open>atoi\<close>, \<^verbatim>\<open>atof\<close>), and the output conversions \<^verbatim>\<open>%f\<close> with its flags, \<^verbatim>\<open>%g\<close>
  as \<^verbatim>\<open>ostream\<close> uses it, and \<^verbatim>\<open>std::to_string\<close>. All of it computes on natural numbers.
\<close>

section \<open>binary64\<close>

datatype double = Fin bool nat int | Inf bool | NaN

text \<open>\<open>Fin s m e\<close> is \<open>(-1)^s * m * 2^e\<close>.\<close>

abbreviation dzero :: double where "dzero \<equiv> Fin False 0 0"

definition rdiv_even :: "nat \<Rightarrow> nat \<Rightarrow> nat" where
  "rdiv_even n d =
     (let q = n div d; r = n mod d
      in if 2 * r < d then q else if d < 2 * r then q + 1 else if even q then q else q + 1)"

fun nlog2 :: "nat \<Rightarrow> nat" where
  "nlog2 n = (if n < 2 then 0 else Suc (nlog2 (n div 2)))"

declare nlog2.simps [simp del]

text \<open>\<open>\<lfloor>log2 (n / d)\<rfloor>\<close> for positive \<open>n\<close> and \<open>d\<close>.\<close>

definition flog2 :: "nat \<Rightarrow> nat \<Rightarrow> int" where
  "flog2 n d =
     (if d \<le> n then int (nlog2 (n div d)) else - int (nlog2 ((d - 1) div n) + 1))"

definition scale2 :: "nat \<Rightarrow> nat \<Rightarrow> int \<Rightarrow> nat" where
  "scale2 n d e =
     (if 0 \<le> e then rdiv_even n (d * 2 ^ nat e) else rdiv_even (n * 2 ^ nat (- e)) d)"

text \<open>Rounding \<open>(-1)^s * n / d\<close> to binary64 (53-bit significand, least exponent -1074).\<close>

definition round_double :: "bool \<Rightarrow> nat \<Rightarrow> nat \<Rightarrow> double" where
  "round_double s n d =
     (if n = 0 then Fin s 0 0
      else let e = max (flog2 n d - 52) (- 1074); m = scale2 n d e
           in if 971 < e \<or> (e = 971 \<and> 2 ^ 53 \<le> m) then Inf s else Fin s m e)"

definition num_of :: "nat \<Rightarrow> int \<Rightarrow> nat" where
  "num_of m e = (if 0 \<le> e then m * 2 ^ nat e else m)"

definition den_of :: "int \<Rightarrow> nat" where
  "den_of e = (if 0 \<le> e then 1 else 2 ^ nat (- e))"

lemma den_of_pos [simp]: "0 < den_of e"
  by (simp add: den_of_def)

definition dneg :: "double \<Rightarrow> bool" where
  "dneg x = (case x of Fin s _ _ \<Rightarrow> s | Inf s \<Rightarrow> s | NaN \<Rightarrow> False)"

definition dis_zero :: "double \<Rightarrow> bool" where
  "dis_zero x = (case x of Fin _ m _ \<Rightarrow> m = 0 | _ \<Rightarrow> False)"

text \<open>The comparison \<^verbatim>\<open>x <= 0.0\<close>.\<close>

definition dle0 :: "double \<Rightarrow> bool" where
  "dle0 x = (case x of Fin s m _ \<Rightarrow> s \<or> m = 0 | Inf s \<Rightarrow> s | NaN \<Rightarrow> False)"

definition dmul :: "double \<Rightarrow> double \<Rightarrow> double" where
  "dmul x y =
     (case (x, y) of
        (Fin s m e, Fin t n f) \<Rightarrow> round_double (s \<noteq> t) (num_of (m * n) (e + f)) (den_of (e + f))
      | (NaN, _) \<Rightarrow> NaN
      | (_, NaN) \<Rightarrow> NaN
      | _ \<Rightarrow> if dis_zero x \<or> dis_zero y then NaN else Inf (dneg x \<noteq> dneg y))"

definition ddiv :: "double \<Rightarrow> double \<Rightarrow> double" where
  "ddiv x y =
     (case (x, y) of
        (Fin s m e, Fin t n f) \<Rightarrow>
          if n = 0 then (if m = 0 then NaN else Inf (s \<noteq> t))
          else round_double (s \<noteq> t) (num_of m (e - f)) (n * den_of (e - f))
      | (Inf s, Fin t n f) \<Rightarrow> Inf (s \<noteq> t)
      | (Fin s m e, Inf t) \<Rightarrow> Fin (s \<noteq> t) 0 0
      | _ \<Rightarrow> NaN)"

definition sgn_nat :: "bool \<Rightarrow> nat \<Rightarrow> int" where
  "sgn_nat s n = (if s then - int n else int n)"

definition dsub :: "double \<Rightarrow> double \<Rightarrow> double" where
  "dsub x y =
     (case (x, y) of
        (Fin s m e, Fin t n f) \<Rightarrow>
          let g = min e f;
              v = sgn_nat s (m * 2 ^ nat (e - g)) - sgn_nat t (n * 2 ^ nat (f - g))
          in if v = 0 then Fin (s \<and> \<not> t) 0 0
             else round_double (v < 0) (num_of (nat \<bar>v\<bar>) g) (den_of g)
      | (NaN, _) \<Rightarrow> NaN
      | (_, NaN) \<Rightarrow> NaN
      | (Inf s, Inf t) \<Rightarrow> if s = t then NaN else Inf s
      | (Inf s, Fin _ _ _) \<Rightarrow> Inf s
      | (Fin _ _ _, Inf t) \<Rightarrow> Inf (\<not> t))"

text \<open>
  \<^verbatim>\<open>std::lround\<close>: half away from zero. Out of range and NaN arguments have an unspecified
  result in C; the value is the one the x86-64 C library gives.
\<close>

definition lround :: "double \<Rightarrow> int" where
  "lround x =
     (case x of
        Fin s m e \<Rightarrow>
          let n = (2 * num_of m e + den_of e) div (2 * den_of e); v = sgn_nat s n
          in if i64_min \<le> v \<and> v \<le> i64_max then v else i64_min
      | _ \<Rightarrow> i64_min)"

section \<open>Reading integers\<close>

definition strip_sign :: "string \<Rightarrow> bool \<times> string" where
  "strip_sign s =
     (case s of [] \<Rightarrow> (False, [])
      | c # r \<Rightarrow> if c = CHR ''-'' then (True, r) else if c = CHR ''+'' then (False, r)
                 else (False, s))"

definition strtol10 :: "string \<Rightarrow> int option" where
  "strtol10 s =
     (let (sg, u) = strip_sign (dropWhile isspace s); ds = takeWhile isdigit u
      in if ds = [] then None else Some (sgn_nat sg (digits_val ds)))"

definition stoll :: "string \<Rightarrow> int result" where
  "stoll s =
     (case strtol10 s of None \<Rightarrow> throw ''stoll''
      | Some v \<Rightarrow> if i64_min \<le> v \<and> v \<le> i64_max then ok v else throw ''stoll'')"

definition stoi :: "string \<Rightarrow> int result" where
  "stoi s =
     (case strtol10 s of None \<Rightarrow> throw ''stoi''
      | Some v \<Rightarrow> if i32_min \<le> v \<and> v \<le> i32_max then ok v else throw ''stoi'')"

definition clamp64 :: "int \<Rightarrow> int" where
  "clamp64 v = max i64_min (min i64_max v)"

definition atoll :: "string \<Rightarrow> int" where
  "atoll s = (case strtol10 s of None \<Rightarrow> 0 | Some v \<Rightarrow> clamp64 v)"

definition atoi :: "string \<Rightarrow> int" where
  "atoi s = to_i32 (atoll s)"

definition isxdigit :: "char \<Rightarrow> bool" where
  "isxdigit c \<longleftrightarrow> isdigit c \<or> (97 \<le> code_of c \<and> code_of c \<le> 102) \<or> (65 \<le> code_of c \<and> code_of c \<le> 70)"

definition xdigit_val :: "char \<Rightarrow> nat" where
  "xdigit_val c =
     (if isdigit c then code_of c - 48 else if 97 \<le> code_of c then code_of c - 87 else code_of c - 55)"

definition xdigits_val :: "string \<Rightarrow> nat" where
  "xdigits_val s = foldl (\<lambda>a c. 16 * a + xdigit_val c) 0 s"

definition hex_prefix :: "string \<Rightarrow> bool" where
  "hex_prefix u \<longleftrightarrow>
     (case u of a # b # c # r \<Rightarrow> a = CHR ''0'' \<and> (b = CHR ''x'' \<or> b = CHR ''X'') \<and> isxdigit c | _ \<Rightarrow> False)"

text \<open>\<^verbatim>\<open>std::stoi(s, nullptr, 16)\<close>.\<close>

definition stoi16 :: "string \<Rightarrow> int result" where
  "stoi16 s =
     (let (sg, u) = strip_sign (dropWhile isspace s);
          w = (if hex_prefix u then drop 2 u else u);
          ds = takeWhile isxdigit w; v = sgn_nat sg (xdigits_val ds)
      in if ds = [] then throw ''stoi''
         else if i32_min \<le> v \<and> v \<le> i32_max then ok v else throw ''stoi'')"

section \<open>Reading doubles\<close>

definition starts_ci :: "string \<Rightarrow> string \<Rightarrow> bool" where
  "starts_ci p s \<longleftrightarrow> map tolower (take (length p) s) = p"

definition exponent_of :: "char \<Rightarrow> char \<Rightarrow> string \<Rightarrow> int" where
  "exponent_of lo up r =
     (case r of [] \<Rightarrow> 0
      | c # r' \<Rightarrow>
          if c = lo \<or> c = up
          then let (sg, u) = strip_sign r'; ds = takeWhile isdigit u in sgn_nat sg (digits_val ds)
          else 0)"

text \<open>Integer and fraction digits, and the text after them.\<close>

definition split_frac :: "(char \<Rightarrow> bool) \<Rightarrow> string \<Rightarrow> string \<times> string \<times> string" where
  "split_frac p u =
     (let ip = takeWhile p u; r = dropWhile p u
      in case r of [] \<Rightarrow> (ip, [], [])
         | c # r' \<Rightarrow> if c = CHR ''.'' then (ip, takeWhile p r', dropWhile p r') else (ip, [], r))"

text \<open>
  An exact value \<open>n / d\<close> as \<^verbatim>\<open>strtod\<close> converts it, with its \<^verbatim>\<open>ERANGE\<close> flag: overflow, or a
  result below the normal range that is inexact.
\<close>

definition strtod_value :: "bool \<Rightarrow> nat \<Rightarrow> nat \<Rightarrow> double \<times> bool" where
  "strtod_value s n d =
     (let v = round_double s n d
      in case v of
           Fin _ m e \<Rightarrow> (v, n \<noteq> 0 \<and> flog2 n d < - 1022 \<and> num_of m e * d \<noteq> n * den_of e)
         | Inf _ \<Rightarrow> (v, True)
         | NaN \<Rightarrow> (v, False))"

definition strtod_scaled :: "bool \<Rightarrow> nat \<Rightarrow> nat \<Rightarrow> int \<Rightarrow> double \<times> bool" where
  "strtod_scaled s n b k =
     (if 0 \<le> k then strtod_value s (n * b ^ nat k) 1 else strtod_value s n (b ^ nat (- k)))"

definition strtod :: "string \<Rightarrow> (double \<times> bool) option" where
  "strtod s =
     (let (sg, u) = strip_sign (dropWhile isspace s)
      in if starts_ci ''inf'' u then Some (Inf sg, False)
         else if starts_ci ''nan'' u then Some (NaN, False)
         else if hex_prefix u \<or> (hex_prefix (take 2 u @ drop 3 u) \<and> drop 2 (take 3 u) = ''.'')
         then let (ip, fp, r) = split_frac isxdigit (drop 2 u)
              in Some (strtod_scaled sg (xdigits_val (ip @ fp)) 2
                         (exponent_of CHR ''p'' CHR ''P'' r - 4 * int (length fp)))
         else let (ip, fp, r) = split_frac isdigit u
              in if ip = [] \<and> fp = [] then None
                 else Some (strtod_scaled sg (digits_val (ip @ fp)) 10
                              (exponent_of CHR ''e'' CHR ''E'' r - int (length fp))))"

definition stod :: "string \<Rightarrow> double result" where
  "stod s =
     (case strtod s of None \<Rightarrow> throw ''stod''
      | Some (v, erange) \<Rightarrow> if erange then throw ''stod'' else ok v)"

definition atof :: "string \<Rightarrow> double" where
  "atof s = (case strtod s of None \<Rightarrow> dzero | Some (v, _) \<Rightarrow> v)"

section \<open>Printing doubles\<close>

text \<open>\<open>m * 2^e * 10^p\<close> rounded half-even to an integer, as \<^verbatim>\<open>%.pf\<close> does.\<close>

definition scale10 :: "nat \<Rightarrow> nat \<Rightarrow> int \<Rightarrow> nat" where
  "scale10 p m e = rdiv_even (num_of m e * 10 ^ p) (den_of e)"

text \<open>A count of \<open>10^-p\<close> units with its decimal point.\<close>

definition decimal_body :: "nat \<Rightarrow> nat \<Rightarrow> string" where
  "decimal_body p n =
     show_nat (n div 10 ^ p) @ (if p = 0 then [] else CHR ''.'' # pad0 p (show_nat (n mod 10 ^ p)))"

datatype sign_flag = NoFlag | PlusFlag | SpaceFlag

definition sign_str :: "sign_flag \<Rightarrow> bool \<Rightarrow> string" where
  "sign_str fl s =
     (if s then ''-'' else case fl of NoFlag \<Rightarrow> [] | PlusFlag \<Rightarrow> ''+'' | SpaceFlag \<Rightarrow> '' '')"

definition pad_spaces :: "nat \<Rightarrow> string \<Rightarrow> string" where
  "pad_spaces w s = replicate (w - length s) CHR '' '' @ s"

text \<open>\<^verbatim>\<open>printf("%<flag>0<w>.<p>f", x)\<close>; the zero flag does not apply to inf and nan.\<close>

definition printf_f :: "sign_flag \<Rightarrow> nat \<Rightarrow> nat \<Rightarrow> double \<Rightarrow> string" where
  "printf_f fl w p x =
     (case x of
        Fin s m e \<Rightarrow>
          let sg = sign_str fl s; b = decimal_body p (scale10 p m e)
          in sg @ pad0 (w - length sg) b
      | Inf s \<Rightarrow> pad_spaces w (sign_str fl s @ ''inf'')
      | NaN \<Rightarrow> pad_spaces w (sign_str fl False @ ''nan''))"

definition to_string_double :: "double \<Rightarrow> string" where
  "to_string_double x = printf_f NoFlag 0 6 x"

text \<open>\<^verbatim>\<open>ostream << double\<close>: \<^verbatim>\<open>%g\<close> with six significant digits.\<close>

definition flog10 :: "nat \<Rightarrow> nat \<Rightarrow> int" where
  "flog10 n d =
     (if d \<le> n then int (length (show_nat (n div d))) - 1
      else - int (length (show_nat ((d - 1) div n))))"

definition strip_zeros :: "string \<Rightarrow> string" where
  "strip_zeros s = rstrip (\<lambda>c. c = CHR ''.'') (rstrip (\<lambda>c. c = CHR ''0'') s)"

definition round_sig6 :: "nat \<Rightarrow> nat \<Rightarrow> nat \<times> int" where
  "round_sig6 n d =
     (let x = flog10 n d;
          k = (if x \<le> 5 then rdiv_even (n * 10 ^ nat (5 - x)) d else rdiv_even n (d * 10 ^ nat (x - 5)))
      in if k = 10 ^ 6 then (10 ^ 5, x + 1) else (k, x))"

definition ostream_double :: "double \<Rightarrow> string" where
  "ostream_double v =
     (case v of
        Fin s m e \<Rightarrow>
          (if s then ''-'' else []) @
          (if m = 0 then ''0''
           else let (k, x) = round_sig6 (num_of m e) (den_of e)
                in if x < - 4 \<or> 6 \<le> x
                   then strip_zeros (decimal_body 5 k) @ ''e'' @ (if x < 0 then ''-'' else ''+'') @
                        pad0 2 (show_nat (nat \<bar>x\<bar>))
                   else if x = 5 then show_nat k
                   else strip_zeros (decimal_body (nat (5 - x)) k))
      | Inf s \<Rightarrow> (if s then ''-'' else []) @ ''inf''
      | NaN \<Rightarrow> ''nan'')"

section \<open>Reading back what was printed\<close>

lemma takeWhile_all: "\<forall>x\<in>set xs. P x \<Longrightarrow> takeWhile P xs = xs"
  by (induction xs) auto

lemma dropWhile_all: "\<forall>x\<in>set xs. P x \<Longrightarrow> dropWhile P xs = []"
  by (induction xs) auto

lemma takeWhile_digits_stop:
  "\<forall>x\<in>set ds. P x \<Longrightarrow> \<not> P c \<Longrightarrow> takeWhile P (ds @ c # r) = ds"
  by (induction ds) auto

lemma dropWhile_digits_stop:
  "\<forall>x\<in>set ds. P x \<Longrightarrow> \<not> P c \<Longrightarrow> dropWhile P (ds @ c # r) = c # r"
  by (induction ds) auto

lemma not_isdigit_dot [simp]: "\<not> isdigit CHR ''.''"
  by (simp add: isdigit_def)

lemma digit_not_sign:
  "isdigit c \<Longrightarrow> c \<noteq> CHR ''-'' \<and> c \<noteq> CHR ''+'' \<and> c \<noteq> CHR ''.''"
  by (auto simp: isdigit_def)

lemma strip_sign_digit: "isdigit c \<Longrightarrow> strip_sign (c # r) = (False, c # r)"
  by (auto simp: strip_sign_def dest: digit_not_sign)

text \<open>A text that starts with a digit is read as a decimal number unless it is a hex prefix.\<close>

lemma not_ci_digit: "isdigit c \<Longrightarrow> \<not> starts_ci ''inf'' (c # r) \<and> \<not> starts_ci ''nan'' (c # r)"
  by (auto simp: starts_ci_def tolower_def isupper_def isdigit_def)

definition all_digits :: "string \<Rightarrow> bool" where
  "all_digits s \<longleftrightarrow> s \<noteq> [] \<and> (\<forall>c\<in>set s. isdigit c)"

lemma not_hex_digits:
  assumes "\<forall>c\<in>set (take 2 u). isdigit c \<or> c = CHR ''.''"
  shows "\<not> hex_prefix u"
  using assms
  by (auto simp: hex_prefix_def isdigit_def split: list.splits)

lemma stod_decimal_exact:
  assumes ip: "all_digits ip" and fp: "\<forall>c\<in>set fp. isdigit c" and sg: "sg = '''' \<or> sg = ''-''"
  shows "strtod (sg @ ip @ CHR ''.'' # fp) =
           Some (strtod_value (sg = ''-'') (digits_val (ip @ fp)) (10 ^ length fp))"
proof -
  obtain c r where cr: "ip = c # r" "isdigit c" "\<forall>x\<in>set r. isdigit x"
    using ip by (cases ip) (auto simp: all_digits_def)
  define u where "u = ip @ CHR ''.'' # fp"
  have u0: "u = c # r @ CHR ''.'' # fp" by (simp add: u_def cr)
  have ss: "strip_sign (dropWhile isspace (sg @ u)) = (sg = ''-'', u)"
    using sg cr(2) digit_not_space [of c]
    by (auto simp: u0 strip_sign_digit) (auto simp: isspace_def strip_sign_def)
  have ci: "\<not> starts_ci ''inf'' u" "\<not> starts_ci ''nan'' u"
    using not_ci_digit [OF cr(2)] by (auto simp: u0)
  have digs: "\<forall>x\<in>set u. isdigit x \<or> x = CHR ''.''"
    using ip fp by (auto simp: u_def all_digits_def)
  have hx: "\<not> hex_prefix u" "\<not> hex_prefix (take 2 u @ drop 3 u)"
    using digs by (auto intro!: not_hex_digits dest!: in_set_takeD in_set_dropD)
  have sf: "split_frac isdigit u = (ip, fp, [])"
    using ip fp
    by (simp add: split_frac_def u_def all_digits_def takeWhile_digits_stop dropWhile_digits_stop
        takeWhile_all dropWhile_all Let_def)
  have "strtod (sg @ u) =
      Some (strtod_scaled (sg = ''-'') (digits_val (ip @ fp)) 10 (- int (length fp)))"
    using ip by (simp add: strtod_def ss ci hx sf all_digits_def exponent_of_def)
  then show ?thesis
    by (cases "fp = []") (simp_all add: u_def strtod_scaled_def)
qed

lemma decimal_body_digits:
  "0 < p \<Longrightarrow> \<exists>ip fp. decimal_body p n = ip @ CHR ''.'' # fp \<and> all_digits ip \<and>
     (\<forall>c\<in>set fp. isdigit c) \<and> length fp = p \<and> digits_val (ip @ fp) = n"
proof -
  assume p: "0 < p"
  let ?ip = "show_nat (n div 10 ^ p)" and ?fp = "pad0 p (show_nat (n mod 10 ^ p))"
  have len: "length ?fp = p"
  proof -
    have "length (show_nat k) \<le> p" if "k < 10 ^ p" for k
      using that p
    proof (induction p arbitrary: k)
      case 0
      then show ?case by simp
    next
      case (Suc q)
      show ?case
      proof (cases "k < 10")
        case True
        then show ?thesis by (subst show_nat.simps) simp
      next
        case False
        then have q: "0 < q" using Suc.prems by (cases q) auto
        have "k div 10 < 10 ^ q" using Suc.prems(1) by (simp add: less_mult_imp_div_less mult.commute)
        then have "length (show_nat (k div 10)) \<le> q" using Suc.IH q by blast
        with False show ?thesis by (subst show_nat.simps) simp
      qed
    qed
    then have "length (show_nat (n mod 10 ^ p)) \<le> p" by simp
    then show ?thesis by (simp add: pad0_length)
  qed
  have "digits_val (?ip @ ?fp) = n"
    using div_mult_mod_eq [of n "10 ^ p"] by (simp add: digits_val_append len)
  moreover have "all_digits ?ip" using show_nat_digits by (simp add: all_digits_def)
  moreover have "\<forall>c\<in>set ?fp. isdigit c" by (rule pad0_digits [OF show_nat_digits])
  ultimately show ?thesis using p len by (auto simp: decimal_body_def)
qed

lemma strtod_decimal_body:
  assumes "0 < p" and "sg = '''' \<or> sg = ''-''"
  shows "strtod (sg @ replicate z CHR ''0'' @ decimal_body p n) =
           Some (strtod_value (sg = ''-'') n (10 ^ p))"
proof -
  obtain ip fp where b: "decimal_body p n = ip @ CHR ''.'' # fp" "all_digits ip"
      "\<forall>c\<in>set fp. isdigit c" "length fp = p" "digits_val (ip @ fp) = n"
    using decimal_body_digits [OF assms(1)] by blast
  have "all_digits (replicate z CHR ''0'' @ ip)"
    using b(2) by (auto simp: all_digits_def)
  from stod_decimal_exact [OF this b(3) assms(2)] b show ?thesis
    by (simp add: digits_val_append)
qed

text \<open>Values with at most \<open>p\<close> decimals, away from the extremes, are read without \<^verbatim>\<open>ERANGE\<close>.\<close>

lemma nlog2_bound: "n < 2 ^ k \<Longrightarrow> 0 < k \<Longrightarrow> nlog2 n < k"
proof (induction n arbitrary: k rule: nlog2.induct)
  case (1 n)
  show ?case
  proof (cases "n < 2")
    case True
    then show ?thesis using "1.prems" by (simp add: nlog2.simps [of n])
  next
    case False
    then obtain j where j: "k = Suc j" "0 < j" using "1.prems" by (cases k; cases "k - 1") auto
    then have "n div 2 < 2 ^ j" using "1.prems" by simp
    then have "nlog2 (n div 2) < j" using "1.IH" False j by blast
    with False j show ?thesis by (simp add: nlog2.simps [of n])
  qed
qed

lemma nlog2_lower: "0 < n \<Longrightarrow> 2 ^ nlog2 n \<le> n"
proof (induction n rule: nlog2.induct)
  case (1 n)
  show ?case
  proof (cases "n < 2")
    case True
    with "1.prems" show ?thesis by (simp add: nlog2.simps [of n])
  next
    case False
    then have "2 ^ nlog2 (n div 2) \<le> n div 2" using "1.IH" by simp
    with False show ?thesis by (simp add: nlog2.simps [of n])
  qed
qed

lemma flog2_upper: "n < 2 ^ k \<Longrightarrow> 0 < k \<Longrightarrow> 0 < d \<Longrightarrow> flog2 n d < int k"
proof -
  assume a: "n < 2 ^ k" "0 < k" "0 < d"
  show ?thesis
  proof (cases "d \<le> n")
    case True
    have "n div d < 2 ^ k" using a(1) div_le_dividend le_less_trans by blast
    then show ?thesis using nlog2_bound [OF _ a(2)] True by (simp add: flog2_def)
  next
    case False
    then show ?thesis using a(2) by (simp add: flog2_def)
  qed
qed

lemma flog2_lower: "0 < n \<Longrightarrow> d \<le> 2 ^ k \<Longrightarrow> 0 < k \<Longrightarrow> - int k \<le> flog2 n d"
proof -
  assume a: "0 < n" "d \<le> 2 ^ k" "0 < k"
  show ?thesis
  proof (cases "d \<le> n")
    case True
    then show ?thesis by (simp add: flog2_def)
  next
    case False
    have "(d - 1) div n \<le> d - 1" by simp
    also have "d - 1 < 2 ^ k" using a(2) False by simp
    finally have "nlog2 ((d - 1) div n) < k" using nlog2_bound a(3) by blast
    with False show ?thesis by (simp add: flog2_def)
  qed
qed

text \<open>
  A decimal below \<open>2^900\<close> with at most 200 fraction digits is read without \<^verbatim>\<open>ERANGE\<close>: every
  number the meters and the program print is far inside.
\<close>

lemma strtod_value_in_range:
  assumes "n < 2 ^ 900" and "p \<le> 200"
  shows "strtod_value s n (10 ^ p) = (round_double s n (10 ^ p), False)"
proof (cases "n = 0")
  case True
  then show ?thesis by (simp add: strtod_value_def round_double_def)
next
  case False
  have up: "flog2 n (10 ^ p) < int 900"
    by (rule flog2_upper) (use assms(1) in simp_all)
  have "(10 :: nat) ^ p \<le> 16 ^ p" by (intro power_mono) simp_all
  also have "\<dots> = 2 ^ (4 * p)" by (simp add: power_mult)
  also have "\<dots> \<le> 2 ^ 800" using assms(2) by (intro power_increasing) simp_all
  finally have "(10 :: nat) ^ p \<le> 2 ^ 800" .
  then have lo: "- int 800 \<le> flog2 n (10 ^ p)"
    using False by (intro flog2_lower) simp_all
  then show ?thesis
    using False up by (simp add: strtod_value_def round_double_def Let_def)
qed

end
