(* ===== verification/NW_Protocol.thy ===== *)
theory NW_Protocol imports NW_Num begin

text \<open>
  The Unihedron protocol codec (\<^verbatim>\<open>src/sqm/protocol.hpp\<close>, \<^verbatim>\<open>src/sqm/protocol.cpp\<close>): the
  parsed responses as records and one parser per response, with the errors they throw.
\<close>

section \<open>Parsed responses\<close>

record Reading =
  rd_mag_arcsec2 :: double
  rd_freq_hz :: int
  rd_period_counts :: int
  rd_period_s :: double
  rd_temp_c :: double
  rd_serial :: string
  rd_raw :: string

record Calibration =
  cal_light_cal_offset :: double
  cal_dark_cal_period_s :: double
  cal_temp_light_c :: double
  cal_sensor_offset :: double
  cal_temp_dark_c :: double
  cal_raw :: string

record UnitInfo =
  ui_protocol :: int
  ui_model :: int
  ui_feature :: int
  ui_serial :: string
  ui_raw :: string

record CalStatus =
  cs_mode :: char
  cs_armed :: bool
  cs_locked :: bool
  cs_raw :: string

record CalSetEcho =
  ce_which :: char
  ce_value :: double
  ce_raw :: string

definition kCmdReading :: string where "kCmdReading = ''rx''"
definition kCmdUnaveraged :: string where "kCmdUnaveraged = ''ux''"
definition kCmdCalibration :: string where "kCmdCalibration = ''cx''"
definition kCmdUnitInfo :: string where "kCmdUnitInfo = ''ix''"
definition kCmdArmLight :: string where "kCmdArmLight = ''zcalAx''"
definition kCmdArmDark :: string where "kCmdArmDark = ''zcalBx''"
definition kCmdDisarm :: string where "kCmdDisarm = ''zcalDx''"

section \<open>Field helpers\<close>

definition numeric_part :: "string \<Rightarrow> string" where
  "numeric_part s = trim (rstrip isalpha (trim s))"

definition to_double :: "string \<Rightarrow> double result" where
  "to_double field =
     (let n = numeric_part field
      in if n = [] then throw (''expected number in field: '' @ quoted field) else stod n)"

definition to_ll :: "string \<Rightarrow> int result" where
  "to_ll field =
     (let n = numeric_part field
      in if n = [] then throw (''expected integer in field: '' @ quoted field) else stoll n)"

section \<open>Parsers\<close>

definition parse_reading :: "string \<Rightarrow> Reading result" where
  "parse_reading line_in =
     (let line = trim line_in; f = getline_split line CHR '',''
      in if length f < 6 \<or> (trim (f ! 0) \<noteq> ''r'' \<and> trim (f ! 0) \<noteq> ''u'')
         then throw (''not a reading response: '' @ quoted line)
         else then_res (to_double (f ! 1)) (\<lambda>mag.
              then_res (to_ll (f ! 2)) (\<lambda>freq.
              then_res (to_ll (f ! 3)) (\<lambda>counts.
              then_res (to_double (f ! 4)) (\<lambda>per.
              then_res (to_double (f ! 5)) (\<lambda>temp.
                ok \<lparr>rd_mag_arcsec2 = mag, rd_freq_hz = freq, rd_period_counts = counts,
                    rd_period_s = per, rd_temp_c = temp,
                    rd_serial = (if 7 \<le> length f then trim (f ! 6) else []),
                    rd_raw = line\<rparr>))))))"

definition parse_calibration :: "string \<Rightarrow> Calibration result" where
  "parse_calibration line_in =
     (let line = trim line_in; f = getline_split line CHR '',''
      in if length f < 6 \<or> trim (f ! 0) \<noteq> ''c''
         then throw (''not a calibration response: '' @ quoted line)
         else then_res (to_double (f ! 1)) (\<lambda>light.
              then_res (to_double (f ! 2)) (\<lambda>dark.
              then_res (to_double (f ! 3)) (\<lambda>tlight.
              then_res (to_double (f ! 4)) (\<lambda>sens.
              then_res (to_double (f ! 5)) (\<lambda>tdark.
                ok \<lparr>cal_light_cal_offset = light, cal_dark_cal_period_s = dark,
                    cal_temp_light_c = tlight, cal_sensor_offset = sens,
                    cal_temp_dark_c = tdark, cal_raw = line\<rparr>))))))"

definition parse_unit_info :: "string \<Rightarrow> UnitInfo result" where
  "parse_unit_info line_in =
     (let line = trim line_in; f = getline_split line CHR '',''
      in if length f < 5 \<or> trim (f ! 0) \<noteq> ''i''
         then throw (''not a unit-info response: '' @ quoted line)
         else then_res (to_ll (f ! 1)) (\<lambda>proto.
              then_res (to_ll (f ! 2)) (\<lambda>model.
              then_res (to_ll (f ! 3)) (\<lambda>feat.
                ok \<lparr>ui_protocol = to_i32 proto, ui_model = to_i32 model,
                    ui_feature = to_i32 feat, ui_serial = trim (f ! 4), ui_raw = line\<rparr>))))"

definition parse_cal_status :: "string \<Rightarrow> CalStatus result" where
  "parse_cal_status line_in =
     (let line = trim line_in
      in if length line < 4 \<or> line ! 0 \<noteq> CHR ''z''
         then throw (''not a calibration-status response: '' @ quoted line)
         else ok \<lparr>cs_mode = line ! 1, cs_armed = (line ! 2 = CHR ''a''),
                  cs_locked = (line ! 3 \<noteq> CHR ''U''), cs_raw = line\<rparr>)"

definition parse_cal_set_echo :: "string \<Rightarrow> CalSetEcho result" where
  "parse_cal_set_echo line_in =
     (let line = trim line_in; f = getline_split line CHR '',''
      in if length f < 3 \<or> trim (f ! 0) \<noteq> ''z''
         then throw (''not a calibration-set response: '' @ quoted line)
         else let which = trim (f ! 1)
              in then_res (to_double (f ! 2)) (\<lambda>v.
                   ok \<lparr>ce_which = (if which = [] then CHR 0x00 else which ! 0),
                       ce_value = v, ce_raw = line\<rparr>))"

section \<open>Reading back what a meter prints\<close>

text \<open>The value left after printing with \<open>p\<close> decimals; the magnitudes it is defined for are below \<open>2^900 / 10^p\<close>.\<close>

definition dec_round :: "nat \<Rightarrow> double \<Rightarrow> double" where
  "dec_round p x = (case x of Fin s m e \<Rightarrow> round_double s (scale10 p m e) (10 ^ p) | _ \<Rightarrow> x)"

definition printable :: "nat \<Rightarrow> double \<Rightarrow> bool" where
  "printable p x = (case x of Fin s m e \<Rightarrow> scale10 p m e < 2 ^ 900 | _ \<Rightarrow> False)"

lemma rstrip_alpha_suffix:
  "b \<noteq> [] \<Longrightarrow> \<not> isalpha (last b) \<Longrightarrow> \<forall>c\<in>set u. isalpha c \<Longrightarrow> rstrip isalpha (b @ u) = b"
  by (simp add: rstrip_append_all rstrip_id)

lemma trim_alpha_suffix:
  assumes "b \<noteq> []" and "\<not> isspace (hd b)" and "\<not> isspace (last b)" and "\<forall>c\<in>set u. isalpha c"
  shows "trim (b @ u) = b @ u"
  using assms by (intro trim_id) (auto simp: last_append alpha_not_space)

lemma numeric_part_unit:
  assumes "b \<noteq> []" and "\<not> isspace (hd b)" and "isdigit (last b)" and "\<forall>c\<in>set u. isalpha c"
    and "\<forall>c\<in>set sp. isspace c"
  shows "numeric_part (sp @ b @ u) = b"
proof -
  have l: "\<not> isspace (last b)" "\<not> isalpha (last b)"
    using assms(3) by (auto simp: digit_not_space digit_not_alpha)
  have "trim (sp @ b @ u) = trim (b @ u)"
    using assms(5) by (induction sp) (auto simp: trim_space_Cons)
  also have "\<dots> = b @ u" by (rule trim_alpha_suffix [OF assms(1,2) l(1) assms(4)])
  finally have "numeric_part (sp @ b @ u) = trim b"
    by (simp add: numeric_part_def rstrip_alpha_suffix [OF assms(1) l(2) assms(4)])
  also have "trim b = b" by (rule trim_id [OF assms(1,2) l(1)])
  finally show ?thesis .
qed

lemma padded_decimal_ends:
  fixes n z :: nat
  assumes "0 < p" and "sg = '''' \<or> sg = ''-''"
  defines "b \<equiv> sg @ replicate z CHR ''0'' @ decimal_body p n"
  shows "b \<noteq> []" and "\<not> isspace (hd b)" and "isdigit (last b)"
proof -
  obtain ip fp where d: "decimal_body p n = ip @ CHR ''.'' # fp" "all_digits ip"
      "\<forall>c\<in>set fp. isdigit c" "length fp = p"
    using decimal_body_digits [OF assms(1)] by blast
  have ne: "ip \<noteq> []" "fp \<noteq> []" using d assms(1) by (auto simp: all_digits_def)
  show "b \<noteq> []" by (simp add: b_def d)
  show "isdigit (last b)" using ne d(3) by (simp add: b_def d(1))
  have "isdigit (hd (replicate z CHR ''0'' @ ip))"
    using d(2) ne(1) by (cases z) (auto simp: all_digits_def)
  moreover have "hd (replicate z CHR ''0'' @ ip @ r) = hd (replicate z CHR ''0'' @ ip)" for r
    using ne(1) by (cases z) auto
  ultimately show "\<not> isspace (hd b)"
    using assms(2) by (auto simp: b_def d(1) digit_not_space) (simp_all add: isspace_def)
qed

lemma stod_padded_decimal:
  assumes "0 < p" and "p \<le> 200" and "n < 2 ^ 900" and "sg = '''' \<or> sg = ''-''"
  shows "stod (sg @ replicate z CHR ''0'' @ decimal_body p n) = ok (round_double (sg = ''-'') n (10 ^ p))"
  by (simp add: stod_def strtod_decimal_body [OF assms(1,4)] strtod_value_in_range [OF assms(3,2)])

lemma to_double_printf:
  assumes "0 < p" and "p \<le> 200" and "printable p x" and "fl \<noteq> PlusFlag" and "\<forall>c\<in>set u. isalpha c"
  shows "to_double (printf_f fl w p x @ u) = ok (dec_round p x)"
proof -
  obtain s m e where x: "x = Fin s m e" and n: "scale10 p m e < 2 ^ 900"
    using assms(3) by (cases x) (auto simp: printable_def)
  define sg where "sg = (if s then ''-'' else '''')"
  define sp where "sp = (if \<not> s \<and> fl = SpaceFlag then '' '' else '''')"
  define z where "z = w - length (sign_str fl s) - length (decimal_body p (scale10 p m e))"
  define b where "b = sg @ replicate z CHR ''0'' @ decimal_body p (scale10 p m e)"
  have sg: "sg = '''' \<or> sg = ''-''" by (simp add: sg_def)
  have str: "printf_f fl w p x @ u = sp @ b @ u"
    using assms(4) by (cases fl) (auto simp: printf_f_def x Let_def sign_str_def pad0_def b_def sg_def sp_def z_def)
  have "numeric_part (sp @ b @ u) = b"
    using padded_decimal_ends [OF assms(1) sg, folded b_def] assms(5)
    by (intro numeric_part_unit) (auto simp: sp_def b_def isspace_def)
  moreover have "b \<noteq> []" using padded_decimal_ends(1) [OF assms(1) sg] by (simp add: b_def)
  moreover have "stod b = ok (dec_round p x)"
    using stod_padded_decimal [OF assms(1,2) n sg] by (simp add: b_def x dec_round_def sg_def)
  ultimately show ?thesis by (simp add: to_double_def str)
qed

text \<open>Zero-padded integers (\<^verbatim>\<open>%010lld\<close>) with their unit.\<close>

lemma strtol10_digits: "all_digits s \<Longrightarrow> strtol10 s = Some (int (digits_val s))"
  by (cases s) (auto simp: strtol10_def all_digits_def digit_not_space strip_sign_digit takeWhile_all sgn_nat_def)

lemma to_ll_digits:
  assumes "all_digits s" and "int (digits_val s) \<le> i64_max" and "\<forall>c\<in>set u. isalpha c"
  shows "to_ll (s @ u) = ok (int (digits_val s))"
proof -
  have "numeric_part ([] @ s @ u) = s"
    using assms by (intro numeric_part_unit) (auto simp: all_digits_def digit_not_space)
  then show ?thesis
    using assms by (auto simp: to_ll_def stoll_def strtol10_digits i64_min_def all_digits_def)
qed

definition CRLF :: string where "CRLF = [CHR 0x0D, CHR 0x0A]"

text \<open>A reading as the manual specifies it: tag, magnitude, frequency, counts, period, temperature.\<close>

definition reading_line :: "string \<Rightarrow> double \<Rightarrow> nat \<Rightarrow> nat \<Rightarrow> double \<Rightarrow> double \<Rightarrow> string" where
  "reading_line tag mag freq counts per temp =
     tag @ '','' @ printf_f SpaceFlag 6 2 mag @ ''m,'' @ pad0 10 (show_nat freq) @ ''Hz,'' @
     pad0 10 (show_nat counts) @ ''c,'' @ printf_f NoFlag 11 3 per @ ''s,'' @
     printf_f SpaceFlag 6 1 temp @ ''C''"

lemma trim_line_crlf:
  assumes "s \<noteq> []" and "\<not> isspace (hd s)" and "\<not> isspace (last s)"
  shows "trim (s @ CRLF) = s"
proof -
  have "trim (s @ CRLF) = rstrip isspace (s @ CRLF)"
    using assms by (cases s) (auto simp: trim_def)
  also have "\<dots> = s"
    using assms by (subst rstrip_append_all) (auto simp: CRLF_def isspace_def intro: rstrip_id)
  finally show ?thesis .
qed

lemma unit_alpha:
  "isalpha CHR ''m''" "isalpha CHR ''s''" "isalpha CHR ''C''" "isalpha CHR ''c''" "isalpha CHR ''H''" "isalpha CHR ''z''"
  by (simp_all add: char_class_defs)

lemma digits_no_comma: "\<forall>c\<in>set s. isdigit c \<Longrightarrow> CHR '','' \<notin> set s"
  by (auto simp: isdigit_def)

lemma decimal_body_no_comma: "CHR '','' \<notin> set (decimal_body p n)"
proof -
  have "\<not> isdigit CHR '',''" by (simp add: isdigit_def)
  then show ?thesis
    using show_nat_digits by (auto simp: decimal_body_def pad0_def)
qed

lemma printf_f_no_comma [simp]: "CHR '','' \<notin> set (printf_f fl w p x)"
  using decimal_body_no_comma
  by (auto simp: printf_f_def Let_def sign_str_def pad0_def pad_spaces_def split: double.splits sign_flag.splits)

lemma pad_nat_no_comma [simp]: "CHR '','' \<notin> set (pad0 w (show_nat n))"
  by (rule digits_no_comma) (rule pad0_digits [OF show_nat_digits])

lemma all_digits_pad_nat: "all_digits (pad0 w (show_nat n))"
  using pad0_digits [OF show_nat_digits] by (auto simp: all_digits_def)

lemma to_ll_pad_nat:
  "int n \<le> i64_max \<Longrightarrow> \<forall>c\<in>set u. isalpha c \<Longrightarrow> to_ll (pad0 w (show_nat n) @ u) = ok (int n)"
  using to_ll_digits [OF all_digits_pad_nat] by simp

lemma getline_split_field: "CHR '','' \<notin> set f \<Longrightarrow> CHR '','' \<notin> set u \<Longrightarrow>
  getline_split (f @ u @ CHR '','' # r) CHR '','' = (f @ u) # getline_split r CHR '',''"
  using getline_split_step [of "CHR '',''" "f @ u" r] by simp

lemma getline_split_end: "CHR '','' \<notin> set f \<Longrightarrow> CHR '','' \<notin> set u \<Longrightarrow> u \<noteq> [] \<Longrightarrow>
  getline_split (f @ u) CHR '','' = [f @ u]"
  using getline_split_last [of "CHR '',''" "f @ u"] by simp

lemma reading_line_fields:
  assumes "CHR '','' \<notin> set tag" 
  shows "getline_split (reading_line tag mag freq counts per temp) CHR '','' =
    [tag, printf_f SpaceFlag 6 2 mag @ ''m'', pad0 10 (show_nat freq) @ ''Hz'',
     pad0 10 (show_nat counts) @ ''c'', printf_f NoFlag 11 3 per @ ''s'', printf_f SpaceFlag 6 1 temp @ ''C'']"
  using assms getline_split_field [where u = "''m''"] getline_split_field [where u = "''Hz''"]
    getline_split_field [where u = "''c''"] getline_split_field [where u = "''s''"]
  by (simp add: reading_line_def getline_split_step getline_split_end)

text \<open>
  C22. Parsing inverts the documented reading format: a line with either tag, terminated by CR LF,
  is accepted, the integers come back exactly, and each decimal field comes back as the
  double nearest to the printed decimal; the stored raw text is the line without its terminator.
\<close>

theorem parse_reading_of_line:
  assumes "tag = ''r'' \<or> tag = ''u''" and "printable 2 mag" and "printable 3 per" and "printable 1 temp"
    and "int freq \<le> i64_max" and "int counts \<le> i64_max"
  shows "parse_reading (reading_line tag mag freq counts per temp @ CRLF) =
    ok \<lparr>rd_mag_arcsec2 = dec_round 2 mag, rd_freq_hz = int freq, rd_period_counts = int counts,
        rd_period_s = dec_round 3 per, rd_temp_c = dec_round 1 temp, rd_serial = [],
        rd_raw = reading_line tag mag freq counts per temp\<rparr>"
proof -
  let ?l = "reading_line tag mag freq counts per temp"
  have tag: "CHR '','' \<notin> set tag" "trim tag = tag" "tag \<noteq> []" "\<not> isspace (hd tag)"
    using assms(1) by (auto simp: trim_def rstrip_def isspace_def)
  have "trim (?l @ CRLF) = ?l"
    using tag by (intro trim_line_crlf) (auto simp: reading_line_def isspace_def)
  moreover have "to_double (printf_f SpaceFlag 6 2 mag @ ''m'') = ok (dec_round 2 mag)"
    and "to_double (printf_f NoFlag 11 3 per @ ''s'') = ok (dec_round 3 per)"
    and "to_double (printf_f SpaceFlag 6 1 temp @ ''C'') = ok (dec_round 1 temp)"
    by (rule to_double_printf; use assms in \<open>simp add: unit_alpha\<close>)+
  moreover have "to_ll (pad0 10 (show_nat freq) @ ''Hz'') = ok (int freq)"
    and "to_ll (pad0 10 (show_nat counts) @ ''c'') = ok (int counts)"
    by (rule to_ll_pad_nat; use assms in \<open>simp add: unit_alpha\<close>)+
  ultimately show ?thesis
    using assms(1) tag(2) by (simp add: parse_reading_def Let_def reading_line_fields [OF tag(1)])
qed

lemma printable_ex_zero: "printable 3 (Fin True 0 0)" by (simp add: printable_def scale10_def num_of_def den_of_def rdiv_even_def)
lemma printable_ex_mag: "printable 2 (Fin False 1885 (- 8))"
 by (simp add: printable_def scale10_def num_of_def den_of_def rdiv_even_def Let_def)
lemma printable_ex_temp: "printable 1 (Fin True 197 (- 3))"
 by (simp add: printable_def scale10_def num_of_def den_of_def rdiv_even_def Let_def)
theorem parse_reading_of_line_witness:
  "parse_reading (reading_line ''r'' (Fin False 1885 (- 8)) 22921 20 (Fin True 0 0) (Fin True 197 (- 3)) @ CRLF) =
    ok \<lparr>rd_mag_arcsec2 = dec_round 2 (Fin False 1885 (- 8)), rd_freq_hz = 22921, rd_period_counts = 20,
        rd_period_s = dec_round 3 (Fin True 0 0), rd_temp_c = dec_round 1 (Fin True 197 (- 3)), rd_serial = [],
        rd_raw = reading_line ''r'' (Fin False 1885 (- 8)) 22921 20 (Fin True 0 0) (Fin True 197 (- 3))\<rparr>"
 using parse_reading_of_line [OF disjI1 [OF refl] printable_ex_mag printable_ex_zero printable_ex_temp, of 22921 20] by (simp add: i64_max_def)

end
