(* ===== verification/NW_Transport.thy ===== *)
theory NW_Transport imports NW_Prelude begin

text \<open>
  The byte transports of \<^verbatim>\<open>src/sqm/tcp_transport.cpp\<close> and \<^verbatim>\<open>src/sqm/serial_transport.cpp\<close>:
  their \<^verbatim>\<open>write\<close> and \<^verbatim>\<open>read_line\<close> loops over the outcomes of the system calls, which are
  scripts the environment chooses (an exhausted script is a silent peer: the receive
  timeout set by the constructors fires). The interface \<open>line_reader\<close> is what
  \<^verbatim>\<open>ITransport::read_line\<close> promises; both transports are instances.
\<close>

section \<open>Outcomes of the system calls\<close>

datatype recv_out = RData string | REof | RIntr | RAgain | RErr string

datatype send_out = WSent nat | WIntr | WAgain | WErr string

text \<open>\<^verbatim>\<open>poll(POLLIN)\<close> before every serial read.\<close>

datatype poll_out = PIntr | PTimeout | PErr string | PReady recv_out

abbreviation NL :: char where "NL \<equiv> CHR 0x0A"
abbreviation CR :: char where "CR \<equiv> CHR 0x0D"

text \<open>\<^verbatim>\<open>if (!line.empty() && line.back() == '\r') line.pop_back();\<close>\<close>

definition chomp_cr :: "string \<Rightarrow> string" where
  "chomp_cr l = (if l \<noteq> [] \<and> last l = CR then butlast l else l)"

section \<open>TCP\<close>

record tcp_link =
  tcp_buf :: string
  tcp_in :: "recv_out list"
  tcp_out :: "send_out list"
  tcp_wire :: string

text \<open>One \<^verbatim>\<open>recv\<close> takes at most 256 bytes; what is left of the segment stays queued.\<close>

definition unread :: "string \<Rightarrow> recv_out list \<Rightarrow> recv_out list" where
  "unread s r = (if length s \<le> 256 then r else RData (drop 256 s) # r)"

fun recv_size :: "recv_out list \<Rightarrow> nat" where
  "recv_size [] = 0"
| "recv_size (RData s # r) = Suc (length s) + recv_size r"
| "recv_size (_ # r) = Suc (recv_size r)"

lemma recv_size_unread: "s \<noteq> [] \<Longrightarrow> recv_size (unread s r) < recv_size (RData s # r)"
  by (simp add: unread_def)

function (sequential) tcp_read_loop :: "string \<Rightarrow> recv_out list \<Rightarrow> string result \<times> string \<times> recv_out list"
  where
  "tcp_read_loop buf evs =
     (case find_chr NL buf of
        Some nl \<Rightarrow> (ok (chomp_cr (take nl buf)), drop (nl + 1) buf, evs)
      | None \<Rightarrow>
          (case evs of
             [] \<Rightarrow> (throw ''read timeout'', buf, [])
           | ev # r \<Rightarrow>
               (case ev of
                  REof \<Rightarrow> (throw ''connection closed by peer'', buf, r)
                | RIntr \<Rightarrow> tcp_read_loop buf r
                | RAgain \<Rightarrow> (throw ''read timeout'', buf, r)
                | RErr m \<Rightarrow> (throw (''recv: '' @ m), buf, r)
                | RData s \<Rightarrow>
                    if s = [] then (throw ''connection closed by peer'', buf, r)
                    else tcp_read_loop (buf @ take 256 s) (unread s r))))"
  by pat_completeness auto
termination
proof (relation "measure (\<lambda>(buf, evs). recv_size evs)", goal_cases)
  case (2 buf evs ev r s)
  then show ?case using recv_size_unread [of s r] by (simp del: recv_size.simps(2))
qed auto

lemma tcp_read_loop_steps:
  "find_chr NL buf = Some k \<Longrightarrow> tcp_read_loop buf evs = (ok (chomp_cr (take k buf)), drop (k + 1) buf, evs)"
  "find_chr NL buf = None \<Longrightarrow> tcp_read_loop buf [] = (throw ''read timeout'', buf, [])"
  "find_chr NL buf = None \<Longrightarrow> s \<noteq> [] \<Longrightarrow>
     tcp_read_loop buf (RData s # r) = tcp_read_loop (buf @ take 256 s) (unread s r)"
  "find_chr NL buf = None \<Longrightarrow> tcp_read_loop buf (RIntr # r) = tcp_read_loop buf r"
  by (subst tcp_read_loop.simps; simp)+

declare tcp_read_loop.simps [simp del]

definition tcp_read_line :: "tcp_link \<Rightarrow> string result \<times> tcp_link" where
  "tcp_read_line t =
     (let (r, buf, evs) = tcp_read_loop (tcp_buf t) (tcp_in t)
      in (r, t\<lparr>tcp_buf := buf, tcp_in := evs\<rparr>))"

text \<open>
  The send loop: each \<^verbatim>\<open>send\<close> accepts some bytes of what is left. With the script used up
  the kernel accepts all the rest.
\<close>

fun tcp_send_loop :: "string \<Rightarrow> send_out list \<Rightarrow> unit result \<times> string \<times> send_out list" where
  "tcp_send_loop left [] = (ok (), left, [])"
| "tcp_send_loop left (w # ws) =
     (if left = [] then (ok (), [], w # ws)
      else case w of
        WSent n \<Rightarrow>
          (let (r, sent, ws') = tcp_send_loop (drop n left) ws in (r, take n left @ sent, ws'))
      | WIntr \<Rightarrow> tcp_send_loop left ws
      | WAgain \<Rightarrow> (throw ''send: Resource temporarily unavailable'', [], ws)
      | WErr m \<Rightarrow> (throw (''send: '' @ m), [], ws))"

definition tcp_write :: "tcp_link \<Rightarrow> string \<Rightarrow> unit result \<times> tcp_link" where
  "tcp_write t data =
     (let (r, sent, ws) = tcp_send_loop data (tcp_out t)
      in (r, t\<lparr>tcp_out := ws, tcp_wire := tcp_wire t @ sent\<rparr>))"

section \<open>Serial\<close>

record serial_link =
  ser_buf :: string
  ser_in :: "poll_out list"
  ser_out :: "send_out list"
  ser_wire :: string

definition ser_unread :: "string \<Rightarrow> poll_out list \<Rightarrow> poll_out list" where
  "ser_unread s r = (if length s \<le> 256 then r else PReady (RData (drop 256 s)) # r)"

fun poll_size :: "poll_out list \<Rightarrow> nat" where
  "poll_size [] = 0"
| "poll_size (PReady (RData s) # r) = Suc (length s) + poll_size r"
| "poll_size (_ # r) = Suc (poll_size r)"

lemma poll_size_unread: "s \<noteq> [] \<Longrightarrow> poll_size (ser_unread s r) < poll_size (PReady (RData s) # r)"
  by (simp add: ser_unread_def)

function (sequential) serial_read_loop :: "string \<Rightarrow> poll_out list \<Rightarrow> string result \<times> string \<times> poll_out list"
  where
  "serial_read_loop buf evs =
     (case find_chr NL buf of
        Some nl \<Rightarrow> (ok (chomp_cr (take nl buf)), drop (nl + 1) buf, evs)
      | None \<Rightarrow>
          (case evs of
             [] \<Rightarrow> (throw ''read timeout'', buf, [])
           | ev # r \<Rightarrow>
               (case ev of
                  PIntr \<Rightarrow> serial_read_loop buf r
                | PTimeout \<Rightarrow> (throw ''read timeout'', buf, r)
                | PErr m \<Rightarrow> (throw (''poll: '' @ m), buf, r)
                | PReady out \<Rightarrow>
                    (case out of
                       REof \<Rightarrow> (throw ''serial closed'', buf, r)
                     | RIntr \<Rightarrow> serial_read_loop buf r
                     | RAgain \<Rightarrow> serial_read_loop buf r
                     | RErr m \<Rightarrow> (throw (''serial read: '' @ m), buf, r)
                     | RData s \<Rightarrow>
                         if s = [] then (throw ''serial closed'', buf, r)
                         else serial_read_loop (buf @ take 256 s) (ser_unread s r)))))"
  by pat_completeness auto
termination
proof (relation "measure (\<lambda>(buf, evs). poll_size evs)", goal_cases)
  case (3 buf evs ev r out s)
  then show ?case using poll_size_unread [of s r] by (simp del: poll_size.simps(2))
qed auto

lemma serial_read_loop_steps:
  "find_chr NL buf = Some k \<Longrightarrow> serial_read_loop buf evs = (ok (chomp_cr (take k buf)), drop (k + 1) buf, evs)"
  "find_chr NL buf = None \<Longrightarrow> serial_read_loop buf [] = (throw ''read timeout'', buf, [])"
  "find_chr NL buf = None \<Longrightarrow> s \<noteq> [] \<Longrightarrow>
     serial_read_loop buf (PReady (RData s) # r) = serial_read_loop (buf @ take 256 s) (ser_unread s r)"
  "find_chr NL buf = None \<Longrightarrow> serial_read_loop buf (PReady RIntr # r) = serial_read_loop buf r"
  "find_chr NL buf = None \<Longrightarrow> serial_read_loop buf (PReady RAgain # r) = serial_read_loop buf r"
  "find_chr NL buf = None \<Longrightarrow> serial_read_loop buf (PIntr # r) = serial_read_loop buf r"
  by (subst serial_read_loop.simps; simp)+

declare serial_read_loop.simps [simp del]

definition serial_read_line :: "serial_link \<Rightarrow> string result \<times> serial_link" where
  "serial_read_line t =
     (let (r, buf, evs) = serial_read_loop (ser_buf t) (ser_in t)
      in (r, t\<lparr>ser_buf := buf, ser_in := evs\<rparr>))"

text \<open>On \<^verbatim>\<open>EAGAIN\<close> the serial writer waits for \<^verbatim>\<open>POLLOUT\<close> and tries again.\<close>

fun serial_send_loop :: "string \<Rightarrow> send_out list \<Rightarrow> unit result \<times> string \<times> send_out list" where
  "serial_send_loop left [] = (ok (), left, [])"
| "serial_send_loop left (w # ws) =
     (if left = [] then (ok (), [], w # ws)
      else case w of
        WSent n \<Rightarrow>
          (let (r, sent, ws') = serial_send_loop (drop n left) ws in (r, take n left @ sent, ws'))
      | WIntr \<Rightarrow> serial_send_loop left ws
      | WAgain \<Rightarrow> serial_send_loop left ws
      | WErr m \<Rightarrow> (throw (''serial write: '' @ m), [], ws))"

definition serial_write :: "serial_link \<Rightarrow> string \<Rightarrow> unit result \<times> serial_link" where
  "serial_write t data =
     (let (r, sent, ws) = serial_send_loop data (ser_out t)
      in (r, t\<lparr>ser_out := ws, ser_wire := ser_wire t @ sent\<rparr>))"

text \<open>\<^verbatim>\<open>baud_to_speed\<close>: the supported rates; anything else becomes 115200.\<close>

definition baud_to_speed :: "int \<Rightarrow> int" where
  "baud_to_speed baud = (if baud \<in> set [9600, 19200, 38400, 57600, 115200, 230400] then baud else 115200)"

section \<open>What a reader promises\<close>

abbreviation line_of :: "string \<Rightarrow> string" where
  "line_of s \<equiv> chomp_cr (takeWhile (\<lambda>c. c \<noteq> NL) s)"

abbreviation after_line :: "string \<Rightarrow> string" where
  "after_line s \<equiv> tl (dropWhile (\<lambda>c. c \<noteq> NL) s)"

text \<open>The first \<open>n\<close> lines of a byte stream.\<close>

fun stream_lines :: "nat \<Rightarrow> string \<Rightarrow> string list" where
  "stream_lines 0 s = []"
| "stream_lines (Suc n) s = line_of s # stream_lines n (after_line s)"

text \<open>Reading \<open>n\<close> lines in a row over any transport; the first error ends it.\<close>

fun read_n :: "('t \<Rightarrow> string result \<times> 't) \<Rightarrow> nat \<Rightarrow> 't \<Rightarrow> string list result \<times> 't" where
  "read_n rd 0 t = (ok [], t)"
| "read_n rd (Suc n) t =
     (case rd t of
        (Inl e, t') \<Rightarrow> (Inl e, t')
      | (Inr l, t') \<Rightarrow>
          (case read_n rd n t' of
             (Inl e, t'') \<Rightarrow> (Inl e, t'')
           | (Inr ls, t'') \<Rightarrow> (Inr (l # ls), t'')))"

text \<open>
  A reader over a link whose pending bytes are \<open>stream t\<close>, with no failure pending
  (\<open>clean t\<close>): it returns the next line and leaves exactly the bytes after it, or times
  out when the peer has sent no complete line.
\<close>

locale line_reader =
  fixes rd :: "'t \<Rightarrow> string result \<times> 't"
    and stream :: "'t \<Rightarrow> string"
    and clean :: "'t \<Rightarrow> bool"
  assumes rd_line: "clean t \<Longrightarrow> NL \<in> set (stream t) \<Longrightarrow> fst (rd t) = ok (line_of (stream t))"
    and rd_rest: "clean t \<Longrightarrow> NL \<in> set (stream t) \<Longrightarrow> stream (snd (rd t)) = after_line (stream t)"
    and rd_clean: "clean t \<Longrightarrow> clean (snd (rd t))"
    and rd_timeout: "clean t \<Longrightarrow> NL \<notin> set (stream t) \<Longrightarrow> fst (rd t) = throw ''read timeout''"
    and rd_keep: "clean t \<Longrightarrow> NL \<notin> set (stream t) \<Longrightarrow> stream (snd (rd t)) = stream t"
begin

lemma rd_some:
  assumes "clean t" and "NL \<in> set (stream t)"
  obtains t' where "rd t = (ok (line_of (stream t)), t')" "stream t' = after_line (stream t)" "clean t'"
  using assms rd_line rd_rest rd_clean by (metis prod.collapse)

lemma count_after_line:
  "NL \<in> set s \<Longrightarrow> count_list s NL = Suc (count_list (after_line s) NL)"
  by (induction s) (auto split: if_splits)

lemma read_n_lines:
  "clean t \<Longrightarrow> n \<le> count_list (stream t) NL \<Longrightarrow>
   \<exists>t'. read_n rd n t = (ok (stream_lines n (stream t)), t') \<and> clean t'"
proof (induction n arbitrary: t)
  case 0
  then show ?case by simp
next
  case (Suc n)
  then have nl: "NL \<in> set (stream t)" by (metis count_notin not_less_eq_eq zero_le)
  from rd_some [OF Suc.prems(1) nl]
  obtain t' where t': "rd t = (ok (line_of (stream t)), t')" "stream t' = after_line (stream t)" "clean t'" .
  have "n \<le> count_list (stream t') NL"
    using Suc.prems(2) count_after_line [OF nl] t'(2) by simp
  from Suc.IH [OF t'(3) this] show ?case using t' by auto
qed

lemma read_n_too_many:
  "clean t \<Longrightarrow> count_list (stream t) NL < n \<Longrightarrow> fst (read_n rd n t) = throw ''read timeout''"
proof (induction n arbitrary: t)
  case 0
  then show ?case by simp
next
  case (Suc n)
  show ?case
  proof (cases "NL \<in> set (stream t)")
    case True
    from rd_some [OF Suc.prems(1) True]
    obtain t' where t': "rd t = (ok (line_of (stream t)), t')" "stream t' = after_line (stream t)" "clean t'" .
    have "count_list (stream t') NL < n"
      using Suc.prems(2) count_after_line [OF True] t'(2) by simp
    from Suc.IH [OF t'(3) this] show ?thesis using t'(1)
      by (cases "read_n rd n t'") (auto split: sum.splits)
  next
    case False
    then show ?thesis using rd_timeout [OF Suc.prems(1) False] by (cases "rd t") simp
  qed
qed

end

section \<open>The transports keep the promise\<close>

fun recv_bytes :: "recv_out list \<Rightarrow> string" where
  "recv_bytes [] = []"
| "recv_bytes (RData s # r) = s @ recv_bytes r"
| "recv_bytes (_ # r) = recv_bytes r"

text \<open>A link with no failure pending: data segments and interrupted calls only.\<close>

fun recv_clean :: "recv_out list \<Rightarrow> bool" where
  "recv_clean [] = True"
| "recv_clean (RData s # r) = (s \<noteq> [] \<and> recv_clean r)"
| "recv_clean (RIntr # r) = recv_clean r"
| "recv_clean (_ # r) = False"

definition tcp_stream :: "tcp_link \<Rightarrow> string" where
  "tcp_stream t = tcp_buf t @ recv_bytes (tcp_in t)"

definition tcp_clean :: "tcp_link \<Rightarrow> bool" where
  "tcp_clean t = recv_clean (tcp_in t)"

lemma unread_bytes [simp]: "take 256 s @ recv_bytes (unread s r) = s @ recv_bytes r"
  by (simp add: unread_def)

lemma unread_clean [simp]: "recv_clean r \<Longrightarrow> recv_clean (unread s r)"
  by (simp add: unread_def)

lemma takeWhile_found: "find_chr c s = Some k \<Longrightarrow> takeWhile (\<lambda>x. x \<noteq> c) (s @ t) = take k s"
  by (induction s arbitrary: k) (auto split: if_splits)

lemma dropWhile_found: "find_chr c s = Some k \<Longrightarrow> tl (dropWhile (\<lambda>x. x \<noteq> c) (s @ t)) = drop (Suc k) s @ t"
  by (induction s arbitrary: k) (auto split: if_splits)

lemma tcp_read_loop_clean:
  "recv_clean evs \<Longrightarrow> tcp_read_loop buf evs = (r, buf', evs') \<Longrightarrow>
   recv_clean evs' \<and>
   (if NL \<in> set (buf @ recv_bytes evs)
    then r = ok (line_of (buf @ recv_bytes evs)) \<and>
         buf' @ recv_bytes evs' = after_line (buf @ recv_bytes evs)
    else r = throw ''read timeout'' \<and> buf' @ recv_bytes evs' = buf @ recv_bytes evs)"
proof (induction buf evs rule: tcp_read_loop.induct)
  case (1 buf evs)
  show ?case
  proof (cases "find_chr NL buf")
    case (Some nl)
    then have nl: "NL \<in> set buf" by (metis find_chr_None_iff option.distinct(1))
    have out: "r = ok (chomp_cr (take nl buf))" "buf' = drop (Suc nl) buf" "evs' = evs"
      using "1.prems"(2) Some by (auto simp: tcp_read_loop_steps)
    have "line_of (buf @ recv_bytes evs) = chomp_cr (take nl buf)"
      and "after_line (buf @ recv_bytes evs) = drop (Suc nl) buf @ recv_bytes evs"
      using takeWhile_found [OF Some] dropWhile_found [OF Some] by simp_all
    then show ?thesis using "1.prems"(1) nl by (simp only: out) simp
  next
    case None
    then have nb: "NL \<notin> set buf" by (simp add: find_chr_None_iff)
    show ?thesis
    proof (cases evs)
      case Nil
      then have out: "r = throw ''read timeout''" "buf' = buf" "evs' = []"
        using "1.prems"(2) Nil None by (simp_all add: tcp_read_loop_steps)
      show ?thesis using nb by (simp add: out Nil)
    next
      case (Cons ev rest)
      show ?thesis
      proof (cases ev)
        case (RData s)
        then have s: "s \<noteq> []" "recv_clean rest" using 1(3) Cons by auto
        have "tcp_read_loop (buf @ take 256 s) (unread s rest) = (r, buf', evs')"
          using 1(4) None Cons RData s(1) by (simp add: tcp_read_loop_steps)
        from "1.IH"(1) [OF None Cons RData s(1) unread_clean [OF s(2)] this]
        show ?thesis by (simp add: Cons RData)
      next
        case RIntr
        with 1 None Cons show ?thesis by (simp add: tcp_read_loop_steps)
      qed (use 1(3) Cons in auto)
    qed
  qed
qed

interpretation tcp: line_reader tcp_read_line tcp_stream tcp_clean
proof
  fix t :: tcp_link
  assume c: "tcp_clean t"
  obtain r b e where l: "tcp_read_loop (tcp_buf t) (tcp_in t) = (r, b, e)"
    by (cases "tcp_read_loop (tcp_buf t) (tcp_in t)") auto
  note f = tcp_read_loop_clean [OF c [unfolded tcp_clean_def] l]
  show "tcp_clean (snd (tcp_read_line t))"
    using f by (simp add: tcp_clean_def tcp_read_line_def l)
  { assume "NL \<in> set (tcp_stream t)"
    then show "fst (tcp_read_line t) = ok (line_of (tcp_stream t))"
      and "tcp_stream (snd (tcp_read_line t)) = after_line (tcp_stream t)"
      using f by (auto simp: tcp_stream_def tcp_read_line_def l split: if_splits) }
  { assume "NL \<notin> set (tcp_stream t)"
    then show "fst (tcp_read_line t) = throw ''read timeout''"
      and "tcp_stream (snd (tcp_read_line t)) = tcp_stream t"
      using f by (auto simp: tcp_stream_def tcp_read_line_def l split: if_splits) }
qed

fun poll_bytes :: "poll_out list \<Rightarrow> string" where
  "poll_bytes [] = []"
| "poll_bytes (PReady (RData s) # r) = s @ poll_bytes r"
| "poll_bytes (_ # r) = poll_bytes r"

fun poll_clean :: "poll_out list \<Rightarrow> bool" where
  "poll_clean [] = True"
| "poll_clean (PReady (RData s) # r) = (s \<noteq> [] \<and> poll_clean r)"
| "poll_clean (PReady RIntr # r) = poll_clean r"
| "poll_clean (PReady RAgain # r) = poll_clean r"
| "poll_clean (PIntr # r) = poll_clean r"
| "poll_clean (_ # r) = False"

definition ser_stream :: "serial_link \<Rightarrow> string" where
  "ser_stream t = ser_buf t @ poll_bytes (ser_in t)"

definition ser_clean :: "serial_link \<Rightarrow> bool" where
  "ser_clean t = poll_clean (ser_in t)"

lemma ser_unread_bytes [simp]: "take 256 s @ poll_bytes (ser_unread s r) = s @ poll_bytes r"
  by (simp add: ser_unread_def)

lemma ser_unread_clean [simp]: "poll_clean r \<Longrightarrow> poll_clean (ser_unread s r)"
  by (simp add: ser_unread_def)

lemma serial_read_loop_clean:
  "poll_clean evs \<Longrightarrow> serial_read_loop buf evs = (r, buf', evs') \<Longrightarrow>
   poll_clean evs' \<and>
   (if NL \<in> set (buf @ poll_bytes evs)
    then r = ok (line_of (buf @ poll_bytes evs)) \<and>
         buf' @ poll_bytes evs' = after_line (buf @ poll_bytes evs)
    else r = throw ''read timeout'' \<and> buf' @ poll_bytes evs' = buf @ poll_bytes evs)"
proof (induction buf evs rule: serial_read_loop.induct)
  case (1 buf evs)
  show ?case
  proof (cases "find_chr NL buf")
    case (Some nl)
    then have nl: "NL \<in> set buf" by (metis find_chr_None_iff option.distinct(1))
    have out: "r = ok (chomp_cr (take nl buf))" "buf' = drop (Suc nl) buf" "evs' = evs"
      using "1.prems"(2) Some by (auto simp: serial_read_loop_steps)
    have "line_of (buf @ poll_bytes evs) = chomp_cr (take nl buf)"
      and "after_line (buf @ poll_bytes evs) = drop (Suc nl) buf @ poll_bytes evs"
      using takeWhile_found [OF Some] dropWhile_found [OF Some] by simp_all
    then show ?thesis using "1.prems"(1) nl by (simp only: out) simp
  next
    case None
    then have nb: "NL \<notin> set buf" by (simp add: find_chr_None_iff)
    show ?thesis
    proof (cases evs)
      case Nil
      then have out: "r = throw ''read timeout''" "buf' = buf" "evs' = []"
        using "1.prems"(2) Nil None by (simp_all add: serial_read_loop_steps)
      show ?thesis using nb by (simp add: out Nil)
    next
      case (Cons ev rest)
      show ?thesis
      proof (cases ev)
        case PIntr
        with 1 None Cons show ?thesis by (simp add: serial_read_loop_steps)
      next
        case (PReady out)
        show ?thesis
        proof (cases out)
          case (RData s)
          then have s: "s \<noteq> []" "poll_clean rest" using "1.prems"(1) Cons PReady by auto
          have "serial_read_loop (buf @ take 256 s) (ser_unread s rest) = (r, buf', evs')"
            using "1.prems"(2) None Cons PReady RData s(1) by (simp add: serial_read_loop_steps)
          from "1.IH"(2) [OF None Cons PReady RData s(1) ser_unread_clean [OF s(2)] this]
          show ?thesis by (simp add: Cons PReady RData)
        next
          case RIntr
          with 1 None Cons PReady show ?thesis by (simp add: serial_read_loop_steps)
        next
          case RAgain
          with 1 None Cons PReady show ?thesis by (simp add: serial_read_loop_steps)
        qed (use "1.prems"(1) Cons PReady in auto)
      qed (use "1.prems"(1) Cons in auto)
    qed
  qed
qed

interpretation ser: line_reader serial_read_line ser_stream ser_clean
proof
  fix t :: serial_link
  assume c: "ser_clean t"
  obtain r b e where l: "serial_read_loop (ser_buf t) (ser_in t) = (r, b, e)"
    by (cases "serial_read_loop (ser_buf t) (ser_in t)") auto
  note f = serial_read_loop_clean [OF c [unfolded ser_clean_def] l]
  show "ser_clean (snd (serial_read_line t))"
    using f by (simp add: ser_clean_def serial_read_line_def l)
  { assume "NL \<in> set (ser_stream t)"
    then show "fst (serial_read_line t) = ok (line_of (ser_stream t))"
      and "ser_stream (snd (serial_read_line t)) = after_line (ser_stream t)"
      using f by (auto simp: ser_stream_def serial_read_line_def l split: if_splits) }
  { assume "NL \<notin> set (ser_stream t)"
    then show "fst (serial_read_line t) = throw ''read timeout''"
      and "ser_stream (snd (serial_read_line t)) = ser_stream t"
      using f by (auto simp: ser_stream_def serial_read_line_def l split: if_splits) }
qed

section \<open>Writing\<close>

text \<open>Whatever the kernel accepts per call, the bytes that leave are a prefix of the data, all of it on success.\<close>

lemma tcp_send_loop_prefix:
  "tcp_send_loop left ws = (r, sent, ws') \<Longrightarrow>
   (\<exists>rest. left = sent @ rest \<and> (is_ok r \<longrightarrow> rest = []))"
proof (induction left ws arbitrary: r sent ws' rule: tcp_send_loop.induct)
  case (2 left w ws)
  then show ?case
  proof (cases w)
    case (WSent n)
    show ?thesis
    proof (cases "left = []")
      case False
      with 2 WSent obtain sent2 where
        s: "tcp_send_loop (drop n left) ws = (r, sent2, ws')" "sent = take n left @ sent2"
        by (auto split: prod.splits)
      from "2.IH"(1) [OF False WSent s(1)]
      obtain rest where "drop n left = sent2 @ rest" "is_ok r \<longrightarrow> rest = []" by blast
      then show ?thesis using s(2) by (metis append.assoc append_take_drop_id)
    qed (use 2 in auto)
  qed (auto split: if_splits)
qed auto

lemma serial_send_loop_prefix:
  "serial_send_loop left ws = (r, sent, ws') \<Longrightarrow>
   (\<exists>rest. left = sent @ rest \<and> (is_ok r \<longrightarrow> rest = []))"
proof (induction left ws arbitrary: r sent ws' rule: serial_send_loop.induct)
  case (2 left w ws)
  then show ?case
  proof (cases w)
    case (WSent n)
    show ?thesis
    proof (cases "left = []")
      case False
      with 2 WSent obtain sent2 where
        s: "serial_send_loop (drop n left) ws = (r, sent2, ws')" "sent = take n left @ sent2"
        by (auto split: prod.splits)
      from "2.IH"(1) [OF False WSent s(1)]
      obtain rest where "drop n left = sent2 @ rest" "is_ok r \<longrightarrow> rest = []" by blast
      then show ?thesis using s(2) by (metis append.assoc append_take_drop_id)
    qed (use 2 in auto)
  qed (auto split: if_splits)
qed auto

section \<open>Both transports read the same lines\<close>

text \<open>
  C21. The two transports are interchangeable for the device layer, and how the bytes arrive does
  not matter: whatever the segments, the 256-byte reads and the interrupted calls, reading \<open>n\<close> lines
  from a TCP link and from a serial link with the same pending bytes gives the same result, namely the
  first \<open>n\<close> lines of those bytes without their line ends, or a timeout when fewer lines are complete.
\<close>

theorem transports_read_alike:
  assumes "tcp_clean t" and "ser_clean p" and "tcp_stream t = ser_stream p"
  shows "fst (read_n tcp_read_line n t) = fst (read_n serial_read_line n p) \<and>
    fst (read_n tcp_read_line n t) =
      (if n \<le> count_list (tcp_stream t) NL then ok (stream_lines n (tcp_stream t)) else throw ''read timeout'')"
proof (cases "n \<le> count_list (tcp_stream t) NL")
  case True
  then show ?thesis
    using tcp.read_n_lines [OF assms(1) True] ser.read_n_lines [OF assms(2), of n] assms(3) by auto
next
  case False
  then show ?thesis
    using tcp.read_n_too_many [OF assms(1), of n] ser.read_n_too_many [OF assms(2), of n] assms(3) by simp
qed

theorem transports_read_alike_witness:
  "fst (read_n tcp_read_line 2 \<lparr>tcp_buf = ''r,'', tcp_in = [RIntr, RData [CHR ''1'', CR], RData [NL, CHR ''u'', NL]], tcp_out = [], tcp_wire = []\<rparr>) =
     ok [''r,1'', ''u''] \<and>
   fst (read_n serial_read_line 2 \<lparr>ser_buf = [], ser_in = [PReady (RData (''r,1'' @ [CR, NL, CHR ''u''])), PReady RAgain, PReady (RData [NL])],
      ser_out = [], ser_wire = []\<rparr>) = ok [''r,1'', ''u'']"
proof -
  let ?t = "\<lparr>tcp_buf = ''r,'', tcp_in = [RIntr, RData [CHR ''1'', CR], RData [NL, CHR ''u'', NL]], tcp_out = [], tcp_wire = []\<rparr>"
  let ?p = "\<lparr>ser_buf = [], ser_in = [PReady (RData (''r,1'' @ [CR, NL, CHR ''u''])), PReady RAgain, PReady (RData [NL])],
      ser_out = [], ser_wire = []\<rparr>"
  have "tcp_clean ?t" "ser_clean ?p" "tcp_stream ?t = ser_stream ?p"
    by (simp_all add: tcp_clean_def ser_clean_def tcp_stream_def ser_stream_def)
  note both = transports_read_alike [OF this, of 2]
  have "2 \<le> count_list (tcp_stream ?t) NL" "stream_lines 2 (tcp_stream ?t) = [''r,1'', ''u'']"
    by (simp_all add: tcp_stream_def numeral_2_eq_2 chomp_cr_def)
  then have "fst (read_n tcp_read_line 2 ?t) = ok [''r,1'', ''u'']" using conjunct2 [OF both] by (simp only: if_True)
  then show ?thesis using conjunct1 [OF both] by (simp only: simp_thms)
qed

end
