(* ===== verification/NW_Device.thy ===== *)
theory NW_Device imports NW_Protocol NW_Transport begin

text \<open>
  The device layer (\<^verbatim>\<open>src/sqm/sqm_device.cpp\<close>, \<^verbatim>\<open>src/sqm/device_factory.cpp\<close>) and the
  connection set-up of \<^verbatim>\<open>src/sqm/tcp_transport.cpp\<close>. A device is used over any transport: its
  operations take the transport's \<^verbatim>\<open>write\<close> and \<^verbatim>\<open>read_line\<close> as arguments.
\<close>

section \<open>SqmDevice\<close>

type_synonym 't wr_op = "'t \<Rightarrow> string \<Rightarrow> unit result \<times> 't"
type_synonym 't rd_op = "'t \<Rightarrow> string result \<times> 't"

definition query_raw :: "'t wr_op \<Rightarrow> 't rd_op \<Rightarrow> string \<Rightarrow> 't \<Rightarrow> string result \<times> 't" where
  "query_raw wr rd cmd t =
     (case wr t cmd of (Inl e, t') \<Rightarrow> (Inl e, t') | (Inr _, t') \<Rightarrow> rd t')"

definition query_parsed ::
  "'t wr_op \<Rightarrow> 't rd_op \<Rightarrow> (string \<Rightarrow> 'a result) \<Rightarrow> string \<Rightarrow> 't \<Rightarrow> 'a result \<times> 't" where
  "query_parsed wr rd parse cmd t =
     (let (r, t') = query_raw wr rd cmd t in (then_res r parse, t'))"

definition read_averaged :: "'t wr_op \<Rightarrow> 't rd_op \<Rightarrow> 't \<Rightarrow> Reading result \<times> 't" where
  "read_averaged wr rd = query_parsed wr rd parse_reading kCmdReading"

definition read_unaveraged :: "'t wr_op \<Rightarrow> 't rd_op \<Rightarrow> 't \<Rightarrow> Reading result \<times> 't" where
  "read_unaveraged wr rd = query_parsed wr rd parse_reading kCmdUnaveraged"

definition calibration :: "'t wr_op \<Rightarrow> 't rd_op \<Rightarrow> 't \<Rightarrow> Calibration result \<times> 't" where
  "calibration wr rd = query_parsed wr rd parse_calibration kCmdCalibration"

definition info :: "'t wr_op \<Rightarrow> 't rd_op \<Rightarrow> 't \<Rightarrow> UnitInfo result \<times> 't" where
  "info wr rd = query_parsed wr rd parse_unit_info kCmdUnitInfo"

definition arm_light_calibration :: "'t wr_op \<Rightarrow> 't rd_op \<Rightarrow> 't \<Rightarrow> CalStatus result \<times> 't" where
  "arm_light_calibration wr rd = query_parsed wr rd parse_cal_status kCmdArmLight"

definition arm_dark_calibration :: "'t wr_op \<Rightarrow> 't rd_op \<Rightarrow> 't \<Rightarrow> CalStatus result \<times> 't" where
  "arm_dark_calibration wr rd = query_parsed wr rd parse_cal_status kCmdArmDark"

definition disarm_calibration :: "'t wr_op \<Rightarrow> 't rd_op \<Rightarrow> 't \<Rightarrow> CalStatus result \<times> 't" where
  "disarm_calibration wr rd = query_parsed wr rd parse_cal_status kCmdDisarm"

text \<open>\<^verbatim>\<open>snprintf(cmd, sizeof(cmd), "zcal%c%011.*fx", which, decimals, value)\<close> into 48 bytes.\<close>

definition set_cal_cmd :: "char \<Rightarrow> nat \<Rightarrow> double \<Rightarrow> string" where
  "set_cal_cmd which decimals v =
     take 47 (''zcal'' @ [which] @ printf_f NoFlag 11 decimals v @ ''x'')"

definition check_echo :: "char \<Rightarrow> CalSetEcho \<Rightarrow> CalSetEcho result" where
  "check_echo which e =
     (if ce_which e \<noteq> which then throw (''unexpected calibration-set echo: '' @ quoted (ce_raw e)) else ok e)"

definition set_cal_value ::
  "'t wr_op \<Rightarrow> 't rd_op \<Rightarrow> char \<Rightarrow> nat \<Rightarrow> double \<Rightarrow> 't \<Rightarrow> CalSetEcho result \<times> 't" where
  "set_cal_value wr rd which decimals v =
     query_parsed wr rd (\<lambda>l. then_res (parse_cal_set_echo l) (check_echo which))
       (set_cal_cmd which decimals v)"

definition set_light_offset :: "'t wr_op \<Rightarrow> 't rd_op \<Rightarrow> double \<Rightarrow> 't \<Rightarrow> CalSetEcho result \<times> 't" where
  "set_light_offset wr rd v = set_cal_value wr rd CHR ''5'' 2 v"

definition set_light_temp :: "'t wr_op \<Rightarrow> 't rd_op \<Rightarrow> double \<Rightarrow> 't \<Rightarrow> CalSetEcho result \<times> 't" where
  "set_light_temp wr rd v = set_cal_value wr rd CHR ''6'' 2 v"

definition set_dark_period :: "'t wr_op \<Rightarrow> 't rd_op \<Rightarrow> double \<Rightarrow> 't \<Rightarrow> CalSetEcho result \<times> 't" where
  "set_dark_period wr rd v = set_cal_value wr rd CHR ''7'' 3 v"

definition set_dark_temp :: "'t wr_op \<Rightarrow> 't rd_op \<Rightarrow> double \<Rightarrow> 't \<Rightarrow> CalSetEcho result \<times> 't" where
  "set_dark_temp wr rd v = set_cal_value wr rd CHR ''8'' 2 v"

section \<open>Connecting\<close>

text \<open>
  One address of \<^verbatim>\<open>getaddrinfo\<close>'s list with what the system calls on it do: whether
  \<^verbatim>\<open>socket\<close> succeeds, the outcome of the non-blocking \<^verbatim>\<open>connect\<close>, the outcomes of the
  \<^verbatim>\<open>poll\<close> calls (\<^verbatim>\<open>EINTR\<close>, timeout, error, or ready with or without \<^verbatim>\<open>POLLOUT\<close>) and the
  socket error \<^verbatim>\<open>getsockopt\<close> reports.
\<close>

datatype connect_rc = ConnDone | ConnInProgress | ConnFailed

datatype wait_out = WaitIntr | WaitTimeout | WaitErr | WaitReady bool

record addr_try =
  at_socket :: bool
  at_connect :: connect_rc
  at_poll :: "wait_out list"
  at_soerr :: "int option"

fun poll_retry :: "wait_out list \<Rightarrow> wait_out" where
  "poll_retry [] = WaitTimeout"
| "poll_retry (WaitIntr # r) = poll_retry r"
| "poll_retry (w # r) = w"

definition connect_with_timeout :: "addr_try \<Rightarrow> bool" where
  "connect_with_timeout a =
     (case at_connect a of
        ConnDone \<Rightarrow> True
      | ConnFailed \<Rightarrow> False
      | ConnInProgress \<Rightarrow>
          (case poll_retry (at_poll a) of WaitReady pollout \<Rightarrow> pollout \<and> at_soerr a = Some 0 | _ \<Rightarrow> False))"

text \<open>The loop over the addresses: the first that connects, the others closed again.\<close>

fun first_connected :: "addr_try list \<Rightarrow> nat option" where
  "first_connected [] = None"
| "first_connected (a # r) =
     (if at_socket a \<and> connect_with_timeout a then Some 0 else map_option Suc (first_connected r))"

definition tcp_connect :: "string \<Rightarrow> int \<Rightarrow> addr_try list result \<Rightarrow> string \<Rightarrow> nat result" where
  "tcp_connect host port gai errno_text =
     (case gai of
        Inl rc_text \<Rightarrow> throw (''getaddrinfo('' @ host @ ''): '' @ rc_text)
      | Inr as \<Rightarrow>
          (case first_connected as of
             None \<Rightarrow> throw (''cannot connect to '' @ host @ '':'' @ show_int port @ '': '' @ errno_text)
           | Some i \<Rightarrow> ok i))"

text \<open>\<^verbatim>\<open>open_device\<close>: which transport is constructed, with which arguments.\<close>

datatype open_req = OpenTcp string int int | OpenSerial string int int

definition tcp_target :: "string \<Rightarrow> string \<times> int" where
  "tcp_target address =
     (case rfind_chr CHR '':'' address of
        None \<Rightarrow> (address, 10001)
      | Some colon \<Rightarrow> (substr_n address 0 colon, to_u16 (atoi (substr address (colon + 1)))))"

definition open_device :: "string \<Rightarrow> string \<Rightarrow> int \<Rightarrow> open_req result" where
  "open_device transport address timeout_ms =
     (if transport = ''tcp''
      then let (host, port) = tcp_target address in ok (OpenTcp host port timeout_ms)
      else if transport = ''serial'' then ok (OpenSerial address 115200 timeout_ms)
      else throw (''unsupported transport '' @ quoted transport @ '' (use tcp or serial)''))"

section \<open>Lemmas\<close>

lemma query_parsed_ok:
  assumes "wr t cmd = (ok (), t1)" and "rd t1 = (ok l, t2)"
  shows "query_parsed wr rd parse cmd t = (parse l, t2)"
  using assms by (simp add: query_parsed_def query_raw_def)

lemma query_parsed_write_error:
  "wr t cmd = (throw e, t1) \<Longrightarrow> query_parsed wr rd parse cmd t = (throw e, t1)"
  by (simp add: query_parsed_def query_raw_def)

lemma set_cal_value_echo:
  "set_cal_value wr rd which decimals v t = (ok e, t') \<Longrightarrow> ce_which e = which"
  by (auto simp: set_cal_value_def query_parsed_def check_echo_def res_simps
      split: prod.splits if_splits sum.splits)

lemma poll_retry_intr: "\<forall>w\<in>set ws. w = WaitIntr \<Longrightarrow> poll_retry (ws @ r) = poll_retry r"
  by (induction ws) auto

lemma first_connected_Some:
  "first_connected as = Some i \<longleftrightarrow>
     i < length as \<and> at_socket (as ! i) \<and> connect_with_timeout (as ! i) \<and>
     (\<forall>j<i. \<not> (at_socket (as ! j) \<and> connect_with_timeout (as ! j)))"
proof (induction as arbitrary: i)
  case Nil
  then show ?case by simp
next
  case (Cons a r)
  show ?case
    by (cases i) (auto simp: Cons.IH less_Suc_eq_0_disj nth_Cons')
qed

lemma to_u16_id: "0 \<le> i \<Longrightarrow> i < 65536 \<Longrightarrow> to_u16 i = i"
  by (simp add: to_u16_def uint_word_of_int)

lemma atoi_show_nat:
  assumes "int n \<le> i32_max"
  shows "atoi (show_nat n) = int n"
proof -
  have "all_digits (show_nat n)" using show_nat_digits by (simp add: all_digits_def)
  then have "strtol10 (show_nat n) = Some (int n)" by (simp add: strtol10_digits)
  then show ?thesis
    using assms by (simp add: atoi_def atoll_def clamp64_def i64_min_def i64_max_def i32_max_def to_i32_id i32_min_def)
qed

text \<open>An address of the form host:port is taken apart at its last colon; without one the default port is used.\<close>

theorem tcp_target_host_port:
  assumes "p < 65536"
  shows "tcp_target (host @ '':'' @ show_nat p) = (host, int p)"
proof -
  have "CHR '':'' \<notin> set (show_nat p)"
    using show_nat_digits [of p] by (auto simp: isdigit_def)
  then have "rfind_chr CHR '':'' (host @ CHR '':'' # show_nat p) = Some (length host)"
    by (rule rfind_chr_append)
  moreover have "atoi (show_nat p) = int p" using assms by (intro atoi_show_nat) (simp add: i32_max_def)
  ultimately show ?thesis
    using assms by (simp add: tcp_target_def substr_n_def substr_def to_u16_id)
qed

theorem tcp_target_host_port_witness:
  "tcp_target (''10.0.0.7:'' @ show_nat 10001) = (''10.0.0.7'', 10001)"
  using tcp_target_host_port [of 10001 "''10.0.0.7''"] by simp

end
