(* ===== verification/NW_Sim.thy ===== *)
theory NW_Sim imports NW_Device begin

text \<open>
  The TCP simulator \<^verbatim>\<open>tools/sqm-sim.cpp\<close>: its calibration state, the response to a buffered
  command, and the serving loop over received chunks. The properties run the device layer
  against it.
\<close>

section \<open>State and responses\<close>

definition kRespIx :: string where "kRespIx = ''i,00000002,00000003,00000001,00000413'' @ CRLF"
definition kRespRx :: string where
  "kRespRx = ''r, 06.70m,0000022921Hz,0000000020c,0000000.000s, 039.4C'' @ CRLF"
definition kRespUx :: string where
  "kRespUx = ''u, 06.53m,0000022921Hz,0000000020c,0000000.000s, 039.4C'' @ CRLF"

record SimState =
  sim_light_offset :: double
  sim_dark_period :: double
  sim_temp_light :: double
  sim_sensor_offset :: double
  sim_temp_dark :: double
  sim_armed :: char
  sim_locked :: bool

text \<open>The doubles are the values nearest to 17.60, 0.0, 39.4, 8.71 and 39.4.\<close>

definition sim_init :: SimState where
  "sim_init = \<lparr>sim_light_offset = round_double False 1760 100, sim_dark_period = dzero,
     sim_temp_light = round_double False 394 10, sim_sensor_offset = round_double False 871 100,
     sim_temp_dark = round_double False 394 10, sim_armed = CHR 0x00, sim_locked = True\<rparr>"

definition set_value :: "string \<Rightarrow> nat \<Rightarrow> double option" where
  "set_value buf prefix_end =
     map_option (\<lambda>x. atof (substr_n buf prefix_end (x - prefix_end))) (find_chr_from CHR ''x'' buf prefix_end)"

text \<open>\<^verbatim>\<open>snprintf\<close> into 128 and 64 byte buffers.\<close>

definition cx_line :: "SimState \<Rightarrow> string" where
  "cx_line st = take 127
     (''c,'' @ printf_f NoFlag 11 2 (sim_light_offset st) @ ''m,'' @
      printf_f NoFlag 11 3 (sim_dark_period st) @ ''s,'' @
      printf_f SpaceFlag 6 1 (sim_temp_light st) @ ''C,'' @
      printf_f NoFlag 11 2 (sim_sensor_offset st) @ ''m,'' @
      printf_f SpaceFlag 6 1 (sim_temp_dark st) @ ''C'' @ CRLF)"

definition set_echo :: "char \<Rightarrow> nat \<Rightarrow> nat \<Rightarrow> double \<Rightarrow> string \<Rightarrow> string" where
  "set_echo which w p v u = take 63 (''z,'' @ [which] @ '','' @ printf_f NoFlag w p v @ u @ CRLF)"

definition lock_chr :: "SimState \<Rightarrow> string" where
  "lock_chr st = (if sim_locked st then ''L'' else ''U'')"

definition sim_set :: "char \<Rightarrow> double \<Rightarrow> SimState \<Rightarrow> string \<times> SimState" where
  "sim_set which v st =
     (if which = CHR ''5'' then (set_echo CHR ''5'' 11 2 v ''m'', st\<lparr>sim_light_offset := v\<rparr>)
      else if which = CHR ''6'' then (set_echo CHR ''6'' 5 1 v ''C'', st\<lparr>sim_temp_light := v\<rparr>)
      else if which = CHR ''7'' then (set_echo CHR ''7'' 11 3 v ''s'', st\<lparr>sim_dark_period := v\<rparr>)
      else (set_echo CHR ''8'' 5 1 v ''C'', st\<lparr>sim_temp_dark := v\<rparr>))"

definition query_response :: "string \<Rightarrow> SimState \<Rightarrow> string" where
  "query_response buf st =
     (if find_str ''ix'' buf \<noteq> None then kRespIx
      else if find_str ''ux'' buf \<noteq> None then kRespUx
      else if find_str ''cx'' buf \<noteq> None then cx_line st
      else if find_str ''rx'' buf \<noteq> None then kRespRx
      else [])"

fun set_commands :: "string \<Rightarrow> string \<Rightarrow> SimState \<Rightarrow> string \<times> SimState" where
  "set_commands [] buf st = (query_response buf st, st)"
| "set_commands (which # ws) buf st =
     (case find_str (''zcal'' @ [which]) buf of
        None \<Rightarrow> set_commands ws buf st
      | Some p \<Rightarrow>
          (case set_value buf (p + 5) of
             None \<Rightarrow> ([], st)
           | Some v \<Rightarrow> sim_set which v st))"

definition response_for :: "string \<Rightarrow> SimState \<Rightarrow> string \<times> SimState" where
  "response_for buf st =
     (if find_str ''zcalA'' buf \<noteq> None then (''zAa'' @ lock_chr st @ CRLF, st\<lparr>sim_armed := CHR ''A''\<rparr>)
      else if find_str ''zcalB'' buf \<noteq> None then (''zBa'' @ lock_chr st @ CRLF, st\<lparr>sim_armed := CHR ''B''\<rparr>)
      else if find_str ''zcalD'' buf \<noteq> None then (''zxd'' @ lock_chr st @ CRLF, st\<lparr>sim_armed := CHR 0x00\<rparr>)
      else set_commands ''5678'' buf st)"

text \<open>One \<^verbatim>\<open>recv\<close> of the serving loop: the buffer is cleared once a response went out.\<close>

record sim_conn =
  sc_sim :: SimState
  sc_buf :: string
  sc_out :: string

definition sim_recv :: "string \<Rightarrow> sim_conn \<Rightarrow> sim_conn" where
  "sim_recv chunk c =
     (let buf = sc_buf c @ chunk; (resp, st) = response_for buf (sc_sim c)
      in if resp = [] then c\<lparr>sc_sim := st, sc_buf := buf\<rparr>
         else c\<lparr>sc_sim := st, sc_buf := [], sc_out := sc_out c @ resp\<rparr>)"

section \<open>The simulator as a transport\<close>

text \<open>
  A client connected to the simulator: what it writes arrives as one chunk (a command is at
  most 47 bytes, the receive buffer holds 128) and it reads lines from what came back.
\<close>

definition sim_write :: "sim_conn \<Rightarrow> string \<Rightarrow> unit result \<times> sim_conn" where
  "sim_write c data = (ok (), sim_recv data c)"

definition sim_read_line :: "sim_conn \<Rightarrow> string result \<times> sim_conn" where
  "sim_read_line c =
     (case find_chr NL (sc_out c) of
        None \<Rightarrow> (throw ''read timeout'', c)
      | Some nl \<Rightarrow> (ok (chomp_cr (take nl (sc_out c))), c\<lparr>sc_out := drop (nl + 1) (sc_out c)\<rparr>))"

interpretation sim: line_reader sim_read_line sc_out "\<lambda>c. True"
proof
  fix c :: sim_conn
  { assume "NL \<in> set (sc_out c)"
    then obtain nl where nl: "find_chr NL (sc_out c) = Some nl"
      by (metis find_chr_None_iff not_Some_eq)
    then show "fst (sim_read_line c) = ok (line_of (sc_out c))"
      and "sc_out (snd (sim_read_line c)) = after_line (sc_out c)"
      using takeWhile_found [OF nl, of "[]"] dropWhile_found [OF nl, of "[]"]
      by (simp_all add: sim_read_line_def) }
  { assume "NL \<notin> set (sc_out c)"
    then have "find_chr NL (sc_out c) = None" by (simp add: find_chr_None_iff)
    then show "fst (sim_read_line c) = throw ''read timeout''"
      and "sc_out (snd (sim_read_line c)) = sc_out c"
      by (simp_all add: sim_read_line_def) }
qed simp

section \<open>Lemmas\<close>

subsection \<open>Searching for command tokens\<close>

lemma find_str_chars: "find_str n s = Some k \<Longrightarrow> set n \<subseteq> set s"
proof (induction n s arbitrary: k rule: find_str.induct)
  case (2 n x xs)
  show ?case
  proof (cases "starts_with n (x # xs)")
    case True
    then obtain t where "x # xs = n @ t" by (auto simp: starts_with_iff)
    then have "set (x # xs) = set n \<union> set t" by (metis set_append)
    then show ?thesis by blast
  next
    case False
    with 2 show ?thesis by auto
  qed
qed (auto split: if_splits)

lemma find_str_no_char: "c \<in> set n \<Longrightarrow> c \<notin> set s \<Longrightarrow> find_str n s = None"
  using find_str_chars by (metis not_Some_eq subsetD)

lemma find_str_prefix: "n \<noteq> [] \<Longrightarrow> find_str n (n @ s) = Some 0"
  by (cases n) (auto simp: starts_with_def)

lemma find_str_lead:
  "c \<notin> set s \<Longrightarrow> \<not> starts_with (c # n) (c # s) \<Longrightarrow> find_str (c # n) (c # s) = None"
  using find_str_no_char [of c "c # n" s] by simp

subsection \<open>Numbers that survive the trip\<close>

text \<open>Magnitudes up to \<open>2^30\<close>: far beyond any calibration value.\<close>

definition small :: "double \<Rightarrow> bool" where
  "small x = (case x of Fin s m e \<Rightarrow> num_of m e \<le> 2 ^ 30 * den_of e | _ \<Rightarrow> False)"

lemma rdiv_even_le: "a \<le> c * b \<Longrightarrow> 0 < b \<Longrightarrow> rdiv_even a b \<le> c"
proof -
  assume a: "a \<le> c * b" "0 < b"
  have q: "a div b \<le> c" using div_le_mono [OF a(1), of b] a(2) by simp
  show ?thesis
  proof (cases "a div b = c")
    case True
    then have "a mod b = 0" using a by (metis add_le_same_cancel1 div_mult_mod_eq le_zero_eq)
    then show ?thesis using True by (simp add: rdiv_even_def Let_def a(2))
  next
    case False
    then show ?thesis using q by (simp add: rdiv_even_def Let_def)
  qed
qed

lemma scale10_small: "small (Fin s m e) \<Longrightarrow> scale10 p m e \<le> 2 ^ 30 * 10 ^ p"
  unfolding scale10_def by (rule rdiv_even_le) (simp_all add: small_def)

lemma small_printable: "small x \<Longrightarrow> p \<le> 200 \<Longrightarrow> printable p x"
proof -
  assume a: "small x" "p \<le> 200"
  then obtain s m e where x: "x = Fin s m e" by (cases x) (auto simp: small_def)
  have "scale10 p m e \<le> 2 ^ 30 * 10 ^ p" using scale10_small a(1) x by simp
  also have "(10 :: nat) ^ p \<le> 10 ^ 200" using a(2) by (intro power_increasing) simp_all
  also have "(2 :: nat) ^ 30 * 10 ^ 200 < 2 ^ 900" by simp
  finally show ?thesis by (simp add: printable_def x)
qed

lemma round_double_small:
  assumes "n \<le> 2 ^ 30 * d" and "0 < d"
  shows "small (round_double s n d)"
proof (cases "n = 0")
  case True
  then show ?thesis by (simp add: round_double_def small_def num_of_def)
next
  case False
  define e where "e = max (flog2 n d - 52) (- 1074)"
  have "n < 2 ^ 31 * d" using assms by simp
  have fl: "flog2 n d < 31"
  proof (cases "d \<le> n")
    case True
    have "n div d < 2 ^ 31" using \<open>n < 2 ^ 31 * d\<close> by (simp add: less_mult_imp_div_less)
    then have "nlog2 (n div d) < 31" by (rule nlog2_bound) simp
    then show ?thesis using True by (simp add: flog2_def)
  qed (simp add: flog2_def)
  then have e: "e < 0" by (simp add: e_def)
  have sc: "scale2 n d e \<le> 2 ^ 30 * 2 ^ nat (- e)"
    using assms e by (auto simp: scale2_def intro!: rdiv_even_le)
  show ?thesis
    using sc e False by (simp add: round_double_def Let_def small_def num_of_def den_of_def flip: e_def)
qed

lemma dec_round_small [simp]: "small x \<Longrightarrow> small (dec_round p x)"
proof -
  assume a: "small x"
  then obtain s m e where x: "x = Fin s m e" by (cases x) (auto simp: small_def)
  show ?thesis using a round_double_small [OF scale10_small, of s m e p] by (simp add: dec_round_def x)
qed

subsection \<open>Lengths: nothing is truncated\<close>

lemma decimal_body_length:
  assumes "n \<le> 2 ^ 30 * 10 ^ p" and "0 < p"
  shows "length (decimal_body p n) \<le> 11 + p"
proof -
  have "n div 10 ^ p \<le> 2 ^ 30" using div_le_mono [OF assms(1), of "10 ^ p"] by simp
  also have "(2 :: nat) ^ 30 < 10 ^ 10" by simp
  finally have "length (show_nat (n div 10 ^ p)) \<le> 10" by (intro show_nat_length) simp_all
  moreover have "length (show_nat (n mod 10 ^ p)) \<le> p" using assms(2) by (intro show_nat_length) simp_all
  ultimately show ?thesis using assms(2) by (simp add: decimal_body_def pad0_length)
qed

lemma printf_f_length:
  assumes "small x" and "0 < p" and "w \<le> 12 + p"
  shows "length (printf_f fl w p x) \<le> 12 + p"
proof -
  obtain s m e where x: "x = Fin s m e" using assms(1) by (cases x) (auto simp: small_def)
  have "length (decimal_body p (scale10 p m e)) \<le> 11 + p"
    using assms x by (intro decimal_body_length scale10_small) simp_all
  moreover have "length (sign_str fl s) \<le> 1" by (cases fl) (simp_all add: sign_str_def)
  ultimately show ?thesis using assms(3) by (simp add: x printf_f_def Let_def pad0_length)
qed

subsection \<open>The calibration line\<close>

definition sim_small :: "SimState \<Rightarrow> bool" where
  "sim_small st \<longleftrightarrow> small (sim_light_offset st) \<and> small (sim_dark_period st) \<and> small (sim_temp_light st) \<and>
     small (sim_sensor_offset st) \<and> small (sim_temp_dark st)"

definition cx_text :: "SimState \<Rightarrow> string" where
  "cx_text st = ''c,'' @ printf_f NoFlag 11 2 (sim_light_offset st) @ ''m,'' @
      printf_f NoFlag 11 3 (sim_dark_period st) @ ''s,'' @
      printf_f SpaceFlag 6 1 (sim_temp_light st) @ ''C,'' @
      printf_f NoFlag 11 2 (sim_sensor_offset st) @ ''m,'' @
      printf_f SpaceFlag 6 1 (sim_temp_dark st) @ ''C''"

lemma cx_line_text:
  assumes "sim_small st"
  shows "cx_line st = cx_text st @ CRLF"
proof -
  note l = assms [unfolded sim_small_def]
  have "length (printf_f NoFlag 11 2 (sim_light_offset st)) \<le> 14" "length (printf_f NoFlag 11 3 (sim_dark_period st)) \<le> 15"
    "length (printf_f SpaceFlag 6 1 (sim_temp_light st)) \<le> 13" "length (printf_f NoFlag 11 2 (sim_sensor_offset st)) \<le> 14"
    "length (printf_f SpaceFlag 6 1 (sim_temp_dark st)) \<le> 13"
    using l printf_f_length [where p = 2 and w = 11 and fl = NoFlag] printf_f_length [where p = 3 and w = 11 and fl = NoFlag]
      printf_f_length [where p = 1 and w = 6 and fl = SpaceFlag] by fastforce+
  then have "length (cx_text st @ CRLF) \<le> 127" by (simp add: cx_text_def CRLF_def)
  then show ?thesis by (simp add: cx_line_def cx_text_def)
qed

definition cal_of_sim :: "SimState \<Rightarrow> Calibration" where
  "cal_of_sim st =
     \<lparr>cal_light_cal_offset = dec_round 2 (sim_light_offset st), cal_dark_cal_period_s = dec_round 3 (sim_dark_period st),
      cal_temp_light_c = dec_round 1 (sim_temp_light st), cal_sensor_offset = dec_round 2 (sim_sensor_offset st),
      cal_temp_dark_c = dec_round 1 (sim_temp_dark st), cal_raw = cx_text st\<rparr>"

lemma to_double_small:
  "small x \<Longrightarrow> 0 < p \<Longrightarrow> p \<le> 200 \<Longrightarrow> fl \<noteq> PlusFlag \<Longrightarrow> \<forall>c\<in>set u. isalpha c \<Longrightarrow>
   to_double (printf_f fl w p x @ u) = ok (dec_round p x)"
  by (intro to_double_printf small_printable)

lemma cx_text_fields:
  "getline_split (cx_text st) CHR '','' =
    [''c'', printf_f NoFlag 11 2 (sim_light_offset st) @ ''m'', printf_f NoFlag 11 3 (sim_dark_period st) @ ''s'',
     printf_f SpaceFlag 6 1 (sim_temp_light st) @ ''C'', printf_f NoFlag 11 2 (sim_sensor_offset st) @ ''m'',
     printf_f SpaceFlag 6 1 (sim_temp_dark st) @ ''C'']"
  using getline_split_step [of "CHR '',''" "''c''"] getline_split_field [where u = "''m''"]
    getline_split_field [where u = "''s''"] getline_split_field [where u = "''C''"]
  by (simp add: cx_text_def getline_split_end)

lemma parse_cx_text:
  assumes "sim_small st"
  shows "parse_calibration (cx_text st) = ok (cal_of_sim st)"
proof -
  have t: "trim (cx_text st) = cx_text st"
    by (rule trim_id) (auto simp: cx_text_def isspace_def)
  have c: "trim ''c'' = ''c''" by (simp add: trim_def rstrip_def isspace_def)
  note l = assms [unfolded sim_small_def]
  show ?thesis
    using l by (simp add: parse_calibration_def Let_def t cx_text_fields c to_double_small unit_alpha cal_of_sim_def)
qed

lemma cx_text_no_nl: "NL \<notin> set (cx_text st)"
proof -
  have d: "NL \<notin> set s" if "\<forall>c\<in>set s. isdigit c" for s
    using that by (auto simp: isdigit_def)
  have "NL \<notin> set (printf_f fl w p x)" for fl w p x
    using d [OF show_nat_digits] d [OF pad0_digits [OF show_nat_digits]]
    by (auto simp: printf_f_def Let_def sign_str_def pad0_def pad_spaces_def decimal_body_def
        split: double.splits sign_flag.splits)
  then show ?thesis by (simp add: cx_text_def)
qed

subsection \<open>Exchanges with an idle connection\<close>

definition sim_idle :: "SimState \<Rightarrow> sim_conn" where
  "sim_idle st = \<lparr>sc_sim = st, sc_buf = [], sc_out = []\<rparr>"

lemma sim_query:
  assumes "response_for cmd st = (t @ CRLF, st')" and "NL \<notin> set t"
  shows "query_parsed sim_write sim_read_line parse cmd (sim_idle st) = (parse t, sim_idle st')"
proof (rule query_parsed_ok)
  let ?c = "\<lparr>sc_sim = st', sc_buf = [], sc_out = t @ CRLF\<rparr>"
  show "sim_write (sim_idle st) cmd = (ok (), ?c)"
    using assms(1) by (simp add: sim_write_def sim_recv_def sim_idle_def CRLF_def)
  have "find_chr NL ((t @ [CR]) @ NL # []) = Some (length (t @ [CR]))"
    using assms(2) by (intro find_chr_append) simp
  then show "sim_read_line ?c = (ok t, sim_idle st')"
    by (simp add: sim_read_line_def CRLF_def sim_idle_def chomp_cr_def)
qed

lemma response_cx: "response_for ''cx'' st = (cx_line st, st)"
  by (simp add: response_for_def starts_with_def query_response_def)

lemma sim_calibration:
  assumes "sim_small st"
  shows "calibration sim_write sim_read_line (sim_idle st) = (ok (cal_of_sim st), sim_idle st)"
proof -
  have "response_for kCmdCalibration st = (cx_text st @ CRLF, st)"
    by (simp add: kCmdCalibration_def response_cx cx_line_text [OF assms])
  from sim_query [OF this cx_text_no_nl, of parse_calibration] show ?thesis
    by (simp add: calibration_def parse_cx_text [OF assms])
qed

subsection \<open>Setting a calibration value\<close>

lemma atof_printf:
  assumes "small v" and "0 < p" and "p \<le> 200"
  shows "atof (printf_f NoFlag w p v) = dec_round p v"
proof -
  obtain s m e where x: "v = Fin s m e" using assms(1) by (cases v) (auto simp: small_def)
  let ?sg = "if s then ''-'' else ''''" and ?n = "scale10 p m e"
  have "printf_f NoFlag w p v = ?sg @ replicate (w - length ?sg - length (decimal_body p ?n)) CHR ''0'' @ decimal_body p ?n"
    by (simp add: x printf_f_def sign_str_def pad0_def Let_def)
  then have "strtod (printf_f NoFlag w p v) = Some (strtod_value s ?n (10 ^ p))"
    using strtod_decimal_body [OF assms(2), of ?sg] by simp
  moreover have "?n < 2 ^ 900"
    using small_printable [OF assms(1,3)] by (simp add: printable_def x)
  ultimately show ?thesis
    using strtod_value_in_range [OF _ assms(3)] by (simp add: atof_def x dec_round_def)
qed

definition plain_num :: "string \<Rightarrow> bool" where
  "plain_num s \<longleftrightarrow> (\<forall>c\<in>set s. isdigit c \<or> c = CHR ''.'' \<or> c = CHR ''-'')"

lemma plain_printf: "small v \<Longrightarrow> plain_num (printf_f NoFlag w p v)"
  using show_nat_digits pad0_digits [OF show_nat_digits]
  by (cases v) (auto simp: plain_num_def small_def printf_f_def Let_def sign_str_def pad0_def decimal_body_def)

lemma plain_num_chars: "plain_num s \<Longrightarrow> \<not> isdigit c \<Longrightarrow> c \<noteq> CHR ''.'' \<Longrightarrow> c \<noteq> CHR ''-'' \<Longrightarrow> c \<notin> set s"
  by (auto simp: plain_num_def)

lemma set_cal_cmd_text:
  assumes "small v" and "0 < p" and "p \<le> 3"
  shows "set_cal_cmd which p v = ''zcal'' @ [which] @ printf_f NoFlag 11 p v @ ''x''"
  using printf_f_length [OF assms(1,2), of 11 NoFlag] assms(3) by (simp add: set_cal_cmd_def)

lemma response_set:
  assumes w: "which \<in> set ''5678''" and n: "plain_num n"
  shows "response_for (''zcal'' @ [which] @ n @ ''x'') st = sim_set which (atof n) st"
proof -
  let ?r = "''cal'' @ [which] @ n @ ''x''"
  have z: "CHR ''z'' \<notin> set ?r" and x: "CHR ''x'' \<notin> set n"
    using w plain_num_chars [OF n, of "CHR ''z''"] plain_num_chars [OF n, of "CHR ''x''"]
    by (auto simp: isdigit_def)
  have no: "find_str (''zcal'' @ [k]) (CHR ''z'' # ?r) = None" if "k \<noteq> which" for k
    using z that find_str_lead [of "CHR ''z''" ?r "''cal'' @ [k]"] by (simp add: starts_with_def)
  have yes: "find_str (''zcal'' @ [which]) (CHR ''z'' # ?r) = Some 0"
    using find_str_prefix [of "''zcal'' @ [which]" "n @ ''x''"] by simp
  have sv: "set_value (CHR ''z'' # ?r) (0 + 5) = Some (atof n)"
    using find_chr_append [OF x, of "[]"] by (simp add: set_value_def find_chr_from_def substr_n_def)
  note [simp del] = find_str.simps(2)
  note [simp del] = find_str.simps(2)
  have cases: "which = CHR ''5'' \<or> which = CHR ''6'' \<or> which = CHR ''7'' \<or> which = CHR ''8''"
    using w by simp
  have abd: "find_str ''zcalA'' (CHR ''z'' # ?r) = None" "find_str ''zcalB'' (CHR ''z'' # ?r) = None"
    "find_str ''zcalD'' (CHR ''z'' # ?r) = None"
    using cases no [of "CHR ''A''", simplified] no [of "CHR ''B''", simplified] no [of "CHR ''D''", simplified]
    by (elim disjE; simp)+
  have no4: "find_str ''zcal5'' (CHR ''z'' # ?r) = (if which = CHR ''5'' then Some 0 else None)"
    "find_str ''zcal6'' (CHR ''z'' # ?r) = (if which = CHR ''6'' then Some 0 else None)"
    "find_str ''zcal7'' (CHR ''z'' # ?r) = (if which = CHR ''7'' then Some 0 else None)"
    "find_str ''zcal8'' (CHR ''z'' # ?r) = (if which = CHR ''8'' then Some 0 else None)"
    using yes no [of "CHR ''5''", simplified] no [of "CHR ''6''", simplified] no [of "CHR ''7''", simplified]
      no [of "CHR ''8''", simplified] by auto
  have "set_commands ''5678'' (CHR ''z'' # ?r) st = sim_set which (atof n) st"
    using cases sv no4 by (elim disjE) simp_all
  then show ?thesis using abd by (simp add: response_for_def)
qed

lemma sim_set_exchange:
  assumes "which \<in> set ''5678''" and "small v" and "0 < p" and "p \<le> 3"
    and "sim_set which (dec_round p v) st = (set_echo which w q (dec_round p v) [u], st')"
    and "0 < q" and "q \<le> 3" and "w \<le> 12 + q" and "isalpha u" and "u \<noteq> CHR '',''"
  shows "\<exists>e. set_cal_value sim_write sim_read_line which p v (sim_idle st) = (ok e, sim_idle st') \<and>
      ce_which e = which \<and> ce_value e = dec_round q (dec_round p v)"
proof -
  let ?v = "dec_round p v" and ?n = "printf_f NoFlag w q (dec_round p v)"
  have sv: "small ?v" using assms(2) by simp
  have len: "length ?n \<le> 15" using printf_f_length [OF sv assms(6,8), of NoFlag] assms(7) by simp
  let ?t = "''z,'' @ [which] @ '','' @ ?n @ [u]"
  have echo: "set_echo which w q ?v [u] = ?t @ CRLF" using len by (simp add: set_echo_def CRLF_def)
  have resp: "response_for (set_cal_cmd which p v) st = (?t @ CRLF, st')"
    using response_set [OF assms(1) plain_printf [OF assms(2)], of 11 p st] assms(5)
    by (simp add: set_cal_cmd_text [OF assms(2-4)] atof_printf [OF assms(2,3)] assms(4) echo le_trans [OF assms(4)])
  have nl: "NL \<notin> set ?t"
    using plain_num_chars [OF plain_printf [OF sv], of NL w q] assms(1,9)
    by (auto simp: char_class_defs)
  have w: "which \<noteq> CHR '',''" "\<not> isspace which" using assms(1) by (auto simp: isspace_def)
  have split: "getline_split ?t CHR '','' = [''z'', [which], ?n @ [u]]"
    using getline_split_step [of "CHR '',''" "''z''"] getline_split_step [of "CHR '',''" "[which]"] w(1) assms(10)
    by (simp add: getline_split_end)
  have trim: "trim ?t = ?t" "trim ''z'' = ''z''" "trim [which] = [which]"
    using assms(9) w(2) by (auto intro!: trim_id simp: isspace_def alpha_not_space) (auto simp: alpha_not_space isspace_def isalpha_def isupper_def islower_def)
  have td: "to_double (?n @ [u]) = ok (dec_round q ?v)"
    using sv assms(6,7,9) by (intro to_double_small) simp_all
  have pe: "parse_cal_set_echo ?t = ok \<lparr>ce_which = which, ce_value = dec_round q ?v, ce_raw = ?t\<rparr>"
    unfolding parse_cal_set_echo_def Let_def trim(1) split by (simp add: trim td)
  show ?thesis
    using sim_query [OF resp nl, of "\<lambda>l. then_res (parse_cal_set_echo l) (check_echo which)"] pe
    by (simp add: set_cal_value_def check_echo_def)
qed

subsection \<open>What is set is what is read\<close>

definition reads_back ::
  "(sim_conn \<Rightarrow> CalSetEcho result \<times> sim_conn) \<Rightarrow> (Calibration \<Rightarrow> double) \<Rightarrow> SimState \<Rightarrow> bool" where
  "reads_back setter field st =
     (case setter (sim_idle st) of
        (Inr e, c) \<Rightarrow>
          (case calibration sim_write sim_read_line c of
             (Inr cal, _) \<Rightarrow> field cal = ce_value e
           | (Inl _, _) \<Rightarrow> False)
      | (Inl _, _) \<Rightarrow> False)"

lemma reads_backI:
  assumes "\<exists>e. setter (sim_idle st) = (ok e, sim_idle st') \<and> ce_which e = k \<and> ce_value e = x"
    and "sim_small st'" and "field (cal_of_sim st') = x"
  shows "reads_back setter field st"
  using assms by (auto simp: reads_back_def sim_calibration)

lemma double_round_light:
  assumes "sim_small st" and "small v"
  shows "reads_back (set_light_offset sim_write sim_read_line v) cal_light_cal_offset st"
  unfolding set_light_offset_def
  by (rule reads_backI [where st' = "st\<lparr>sim_light_offset := dec_round 2 v\<rparr>"],
      rule sim_set_exchange [where q = 2 and w = 11 and u = "CHR ''m''"])
    (use assms in \<open>simp_all add: sim_set_def unit_alpha sim_small_def cal_of_sim_def\<close>)

lemma double_round_period:
  assumes "sim_small st" and "small v"
  shows "reads_back (set_dark_period sim_write sim_read_line v) cal_dark_cal_period_s st"
  unfolding set_dark_period_def
  by (rule reads_backI [where st' = "st\<lparr>sim_dark_period := dec_round 3 v\<rparr>"],
      rule sim_set_exchange [where q = 3 and w = 11 and u = "CHR ''s''"])
    (use assms in \<open>simp_all add: sim_set_def unit_alpha sim_small_def cal_of_sim_def\<close>)

lemma double_round_light_temp:
  assumes "sim_small st" and "small v"
  shows "reads_back (set_light_temp sim_write sim_read_line v) cal_temp_light_c st"
  unfolding set_light_temp_def
  by (rule reads_backI [where st' = "st\<lparr>sim_temp_light := dec_round 2 v\<rparr>"],
      rule sim_set_exchange [where q = 1 and w = 5 and u = "CHR ''C''"])
    (use assms in \<open>simp_all add: sim_set_def unit_alpha sim_small_def cal_of_sim_def\<close>)

lemma double_round_dark_temp:
  assumes "sim_small st" and "small v"
  shows "reads_back (set_dark_temp sim_write sim_read_line v) cal_temp_dark_c st"
  unfolding set_dark_temp_def
  by (rule reads_backI [where st' = "st\<lparr>sim_temp_dark := dec_round 2 v\<rparr>"],
      rule sim_set_exchange [where q = 1 and w = 5 and u = "CHR ''C''"])
    (use assms in \<open>simp_all add: sim_set_def unit_alpha sim_small_def cal_of_sim_def\<close>)

text \<open>
  C23. End to end over the wire: after any of the four manual calibration commands of the device
  library against the simulator, the next calibration request reads exactly the value the
  command's echo reported for that field.
\<close>

theorem set_then_read_back:
  assumes "sim_small st" and "small v"
  shows "reads_back (set_light_offset sim_write sim_read_line v) cal_light_cal_offset st \<and>
    reads_back (set_light_temp sim_write sim_read_line v) cal_temp_light_c st \<and>
    reads_back (set_dark_period sim_write sim_read_line v) cal_dark_cal_period_s st \<and>
    reads_back (set_dark_temp sim_write sim_read_line v) cal_temp_dark_c st"
  using double_round_light [OF assms] double_round_period [OF assms] double_round_light_temp [OF assms]
    double_round_dark_temp [OF assms] by blast

lemma sim_init_small: "sim_small sim_init"
  by (simp add: sim_small_def sim_init_def round_double_small) (simp add: small_def num_of_def)

theorem set_then_read_back_witness:
  "reads_back (set_light_offset sim_write sim_read_line (Fin False 1885 (- 8))) cal_light_cal_offset sim_init"
  using set_then_read_back [OF sim_init_small, of "Fin False 1885 (- 8)"]
  by (simp add: small_def num_of_def den_of_def)

section \<open>The serving loop\<close>

text \<open>What \<^verbatim>\<open>accept\<close> gave: interrupted, an error, or a connection with the chunks it will receive.\<close>

datatype accept_out = AIntr | AErr | AConn "string list"

text \<open>The bytes sent on each connection, the state, and whether the loop has ended.\<close>

fun sim_serve :: "accept_out list \<Rightarrow> SimState \<Rightarrow> string list \<times> SimState \<times> bool" where
  "sim_serve [] st = ([], st, False)"
| "sim_serve (AIntr # r) st = sim_serve r st"
| "sim_serve (AErr # r) st = ([], st, True)"
| "sim_serve (AConn chunks # r) st =
     (let c = fold sim_recv chunks \<lparr>sc_sim = st, sc_buf = [], sc_out = []\<rparr>
      in case sim_serve r (sc_sim c) of (outs, st', ended) \<Rightarrow> (sc_out c # outs, st', ended))"

definition sim_port :: "string list \<Rightarrow> int" where
  "sim_port args = (case args of a # _ \<Rightarrow> to_u16 (atoi a) | [] \<Rightarrow> 10001)"

text \<open>\<open>bound port\<close> says whether socket, bind and listen succeed; the exit code, once the loop has ended.\<close>

definition sim_main :: "(int \<Rightarrow> bool) \<Rightarrow> string list \<Rightarrow> accept_out list \<Rightarrow> string list \<times> int option" where
  "sim_main bound args accepts =
     (if \<not> bound (sim_port args) then ([], Some 1)
      else case sim_serve accepts sim_init of (outs, _, ended) \<Rightarrow> (outs, if ended then Some 0 else None))"

text \<open>Each connection starts with an empty buffer and the state the one before left.\<close>

lemma sim_serve_append:
  assumes "sim_serve xs st = (outs, st', False)"
  shows "sim_serve (xs @ ys) st = (case sim_serve ys st' of (outs2, st2, ended) \<Rightarrow> (outs @ outs2, st2, ended))"
  using assms
proof (induction xs st arbitrary: outs st' rule: sim_serve.induct)
  case (4 chunks r st)
  then show ?case by (auto simp: Let_def split: prod.splits)
qed (auto split: prod.splits)

end
