(* ===== verification/NW_Serial.thy ===== *)
theory NW_Serial imports NW_Transport "HOL-Library.Word" begin

text \<open>
  Opening a serial port (the constructor of \<^verbatim>\<open>SerialTransport\<close>, \<^verbatim>\<open>src/sqm/serial_transport.cpp\<close>): the
  line settings bit by bit, with the flag values of Linux, and the error exits. The outcomes of the
  system calls are arguments.
\<close>

unbundle bit_operations_syntax

section \<open>Line settings\<close>

record termios =
  tio_iflag :: "32 word"
  tio_oflag :: "32 word"
  tio_cflag :: "32 word"
  tio_lflag :: "32 word"
  tio_ispeed :: int
  tio_ospeed :: int
  tio_vmin :: nat
  tio_vtime :: nat

definition flag :: "nat \<Rightarrow> 32 word" where "flag n = push_bit n 1"

definition flags :: "nat list \<Rightarrow> 32 word" where "flags ns = foldr (\<lambda>n w. flag n OR w) ns 0"

text \<open>
  \<^verbatim>\<open>CSIZE\<close> and \<^verbatim>\<open>CS8\<close> are bits 4 and 5; IXON, IXANY, IXOFF are bits 10 to 12 of the input flags;
  CSTOPB, CREAD, PARENB, CLOCAL and CRTSCTS are bits 6, 7, 8, 11 and 31 of the control flags.
\<close>

definition CSIZE :: "32 word" where "CSIZE = flags [4, 5]"
definition CS8 :: "32 word" where "CS8 = flags [4, 5]"

text \<open>\<^verbatim>\<open>cfmakeraw\<close> as documented.\<close>

definition cfmakeraw :: "termios \<Rightarrow> termios" where
  "cfmakeraw t = t\<lparr>
     tio_iflag := tio_iflag t AND NOT (flags [0, 1, 3, 5, 6, 7, 8, 10]),
     tio_oflag := tio_oflag t AND NOT (flag 0),
     tio_lflag := tio_lflag t AND NOT (flags [3, 6, 1, 0, 15]),
     tio_cflag := tio_cflag t AND NOT (CSIZE OR flag 8) OR CS8\<rparr>"

definition line_settings :: "int \<Rightarrow> termios \<Rightarrow> termios" where
  "line_settings baud t0 =
     (let t = cfmakeraw t0; sp = baud_to_speed baud; c1 = tio_cflag t OR flags [11, 7];
          c2 = c1 AND NOT (flag 6); c3 = c2 AND NOT (flag 8); c4 = c3 AND NOT CSIZE OR CS8
      in t\<lparr>tio_ispeed := sp, tio_ospeed := sp, tio_cflag := c4 AND NOT (flag 31),
           tio_iflag := tio_iflag t AND NOT (flags [10, 12, 11]), tio_vmin := 0, tio_vtime := 0\<rparr>)"

section \<open>The constructor\<close>

text \<open>The settings that were applied, or the error; and whether the descriptor is still open.\<close>

definition serial_open ::
  "string \<Rightarrow> int \<Rightarrow> string option \<Rightarrow> termios result \<Rightarrow> string option \<Rightarrow> termios result \<times> bool" where
  "serial_open device baud open_err getattr setattr_err =
     (case open_err of
        Some e \<Rightarrow> (throw (''open('' @ device @ ''): '' @ e), False)
      | None \<Rightarrow>
          (case getattr of
             Inl e \<Rightarrow> (throw (''tcgetattr('' @ device @ ''): '' @ e), False)
           | Inr t \<Rightarrow>
               (case setattr_err of
                  Some e \<Rightarrow> (throw (''tcsetattr('' @ device @ ''): '' @ e), False)
                | None \<Rightarrow> (ok (line_settings baud t), True))))"

section \<open>8N1 without flow control\<close>

lemma bit_flag [simp]: "bit (flag n) k \<longleftrightarrow> k < 32 \<and> k = n"
  by (auto simp: flag_def bit_exp_iff)

lemma bit_flags [simp]: "bit (flags ns) k \<longleftrightarrow> k < 32 \<and> k \<in> set ns"
proof (induction ns)
  case (Cons n ns)
  then show ?case by (auto simp: flags_def bit_or_iff)
qed (simp add: flags_def)

text \<open>
  Whatever the port was set to before, an opened port has eight data bits, no parity, one stop bit,
  neither hardware nor software flow control, no echo and no line editing, the receiver enabled, and
  its speed is a supported one; and a descriptor is left open exactly when the constructor returns.
\<close>

lemma opened_port_is_8N1:
  assumes "serial_open device baud open_err getattr setattr_err = (r, left_open)"
  shows "left_open = is_ok r \<and>
    (\<forall>t. r = Inr t \<longrightarrow> bit (tio_cflag t) 4 \<and> bit (tio_cflag t) 5 \<and> bit (tio_cflag t) 7 \<and> bit (tio_cflag t) 11 \<and>
       \<not> bit (tio_cflag t) 6 \<and> \<not> bit (tio_cflag t) 8 \<and> \<not> bit (tio_cflag t) 31 \<and>
       \<not> bit (tio_iflag t) 10 \<and> \<not> bit (tio_iflag t) 11 \<and> \<not> bit (tio_iflag t) 12 \<and>
       \<not> bit (tio_lflag t) 1 \<and> \<not> bit (tio_lflag t) 3 \<and> tio_vmin t = 0 \<and>
       tio_ospeed t = tio_ispeed t \<and> tio_ospeed t \<in> {9600, 19200, 38400, 57600, 115200, 230400})"
  using assms
  by (auto simp: serial_open_def line_settings_def cfmakeraw_def Let_def CSIZE_def CS8_def bit_and_iff bit_or_iff bit_not_iff
      baud_to_speed_def split: option.splits sum.splits)

end
