(* ===== verification/NW_Config.thy ===== *)
theory NW_Config imports NW_Num begin

text \<open>
  The configuration loader \<^verbatim>\<open>Config::load\<close> (\<^verbatim>\<open>src/daemon/config.cpp\<close>) over the content of the
  file, line by line with the current section and the sensor block being filled in.
\<close>

section \<open>Definitions\<close>

record SensorConfig =
  scf_id :: string
  scf_transport :: string
  scf_address :: string
  scf_name :: string

record Config =
  cfg_poll_interval_s :: int
  cfg_db_host :: string
  cfg_db_name :: string
  cfg_db_user :: string
  cfg_db_port :: int
  cfg_api_port :: int
  cfg_api_bind :: string
  cfg_api_tls :: bool
  cfg_api_tls_cert :: string
  cfg_api_tls_key :: string
  cfg_schema_file :: string
  cfg_web_root :: string
  cfg_sensors :: "SensorConfig list"

definition config_default :: Config where
  "config_default = \<lparr>cfg_poll_interval_s = 300, cfg_db_host = ''localhost'', cfg_db_name = ''nightwatcher'',
     cfg_db_user = ''nightwatcher'', cfg_db_port = 3306, cfg_api_port = 8080, cfg_api_bind = ''127.0.0.1'',
     cfg_api_tls = False, cfg_api_tls_cert = [], cfg_api_tls_key = [], cfg_schema_file = [],
     cfg_web_root = [], cfg_sensors = []\<rparr>"

record load_state =
  ls_cfg :: Config
  ls_section :: string
  ls_sensor :: "nat option"

definition load_init :: load_state where
  "load_init = \<lparr>ls_cfg = config_default, ls_section = [], ls_sensor = None\<rparr>"

definition open_section :: "string \<Rightarrow> load_state \<Rightarrow> load_state" where
  "open_section s st =
     (let section = trim (substr_n s 1 (length s - 2)); cfg = ls_cfg st
      in if starts_with ''sensor:'' section
         then st\<lparr>ls_section := section, ls_sensor := Some (length (cfg_sensors cfg)),
                 ls_cfg := cfg\<lparr>cfg_sensors := cfg_sensors cfg @
                   [\<lparr>scf_id = trim (substr section 7), scf_transport = [], scf_address = [], scf_name = []\<rparr>]\<rparr>\<rparr>
         else st\<lparr>ls_section := section, ls_sensor := None\<rparr>)"

definition tls_flag :: "string \<Rightarrow> bool" where
  "tls_flag v \<longleftrightarrow> v = ''on'' \<or> v = ''true'' \<or> v = ''1'' \<or> v = ''yes''"

definition set_database :: "string \<Rightarrow> string \<Rightarrow> Config \<Rightarrow> Config result" where
  "set_database key v c =
     (if key = ''host'' then ok (c\<lparr>cfg_db_host := v\<rparr>)
      else if key = ''name'' then ok (c\<lparr>cfg_db_name := v\<rparr>)
      else if key = ''user'' then ok (c\<lparr>cfg_db_user := v\<rparr>)
      else if key = ''port'' then then_res (stoi v) (\<lambda>n. ok (c\<lparr>cfg_db_port := n\<rparr>))
      else ok c)"

definition set_api :: "string \<Rightarrow> string \<Rightarrow> Config \<Rightarrow> Config result" where
  "set_api key v c =
     (if key = ''port'' then then_res (stoi v) (\<lambda>n. ok (c\<lparr>cfg_api_port := n\<rparr>))
      else if key = ''bind'' then ok (c\<lparr>cfg_api_bind := v\<rparr>)
      else if key = ''tls'' then ok (c\<lparr>cfg_api_tls := tls_flag v\<rparr>)
      else if key = ''tls_cert'' then ok (c\<lparr>cfg_api_tls_cert := v\<rparr>)
      else if key = ''tls_key'' then ok (c\<lparr>cfg_api_tls_key := v\<rparr>)
      else if key = ''schema_file'' then ok (c\<lparr>cfg_schema_file := v\<rparr>)
      else if key = ''web_root'' then ok (c\<lparr>cfg_web_root := v\<rparr>)
      else ok c)"

definition set_sensor :: "string \<Rightarrow> string \<Rightarrow> SensorConfig \<Rightarrow> SensorConfig" where
  "set_sensor key v sc =
     (if key = ''transport'' then sc\<lparr>scf_transport := v\<rparr>
      else if key = ''address'' then sc\<lparr>scf_address := v\<rparr>
      else if key = ''name'' then sc\<lparr>scf_name := v\<rparr>
      else sc)"

definition apply_key :: "string \<Rightarrow> string \<Rightarrow> load_state \<Rightarrow> load_state result" where
  "apply_key key v st =
     (let c = ls_cfg st
      in if ls_section st = ''daemon''
         then if key = ''interval''
              then then_res (stoi v) (\<lambda>n. ok (st\<lparr>ls_cfg := c\<lparr>cfg_poll_interval_s := n\<rparr>\<rparr>))
              else ok st
         else if ls_section st = ''database''
         then then_res (set_database key v c) (\<lambda>c'. ok (st\<lparr>ls_cfg := c'\<rparr>))
         else if ls_section st = ''api''
         then then_res (set_api key v c) (\<lambda>c'. ok (st\<lparr>ls_cfg := c'\<rparr>))
         else case ls_sensor st of
           None \<Rightarrow> ok st
         | Some i \<Rightarrow>
             ok (st\<lparr>ls_cfg := c\<lparr>cfg_sensors := (cfg_sensors c)[i := set_sensor key v (cfg_sensors c ! i)]\<rparr>\<rparr>))"

definition skip_line :: "string \<Rightarrow> bool" where
  "skip_line s \<longleftrightarrow> s = [] \<or> hd s = CHR ''#'' \<or> hd s = CHR '';''"

definition section_line :: "string \<Rightarrow> bool" where
  "section_line s \<longleftrightarrow> hd s = CHR ''['' \<and> last s = CHR '']''"

definition load_line :: "string \<Rightarrow> nat \<Rightarrow> string \<Rightarrow> load_state \<Rightarrow> load_state result" where
  "load_line path lineno line st =
     (let s = trim line
      in if skip_line s then ok st
         else if section_line s then ok (open_section s st)
         else case find_chr CHR ''='' s of
           None \<Rightarrow> throw (''malformed line '' @ show_nat lineno @ '' in '' @ path @ '': '' @ quoted s)
         | Some eq \<Rightarrow> apply_key (trim (substr_n s 0 eq)) (trim (substr s (eq + 1))) st)"

fun load_lines :: "string \<Rightarrow> nat \<Rightarrow> string list \<Rightarrow> load_state \<Rightarrow> load_state result" where
  "load_lines path n [] st = ok st"
| "load_lines path n (l # ls) st =
     then_res (load_line path (n + 1) l st) (load_lines path (n + 1) ls)"

text \<open>The TLS material beside the configuration file when it is not configured.\<close>

definition tls_dir :: "string \<Rightarrow> string" where
  "tls_dir path = (case rfind_chr CHR ''/'' path of None \<Rightarrow> ''.'' | Some slash \<Rightarrow> substr_n path 0 slash)"

definition tls_defaults :: "string \<Rightarrow> Config \<Rightarrow> Config" where
  "tls_defaults path c =
     c\<lparr>cfg_api_tls_cert := (if cfg_api_tls_cert c = [] then tls_dir path @ ''/tls/nightwatcher-cert.pem'' else cfg_api_tls_cert c),
       cfg_api_tls_key := (if cfg_api_tls_key c = [] then tls_dir path @ ''/tls/nightwatcher-key.pem'' else cfg_api_tls_key c)\<rparr>"

definition config_load :: "string \<Rightarrow> string option \<Rightarrow> Config result" where
  "config_load path content =
     (case content of
        None \<Rightarrow> throw (''cannot open config file: '' @ path)
      | Some txt \<Rightarrow>
          then_res (load_lines path 0 (getline_split txt CHR 0x0A) load_init) (\<lambda>st.
            ok (tls_defaults path (ls_cfg st))))"

section \<open>Lemmas\<close>

lemma load_lines_append:
  "load_lines path n (xs @ ys) st = then_res (load_lines path n xs st) (load_lines path (n + length xs) ys)"
  by (induction xs arbitrary: n st) (auto simp: then_res_def split: sum.splits)

text \<open>The ids the section headers of a file announce.\<close>

definition announced :: "string list \<Rightarrow> string list" where
  "announced ls = List.map_filter
     (\<lambda>l. let s = trim l; sec = trim (substr_n s 1 (length s - 2))
          in if \<not> skip_line s \<and> section_line s \<and> starts_with ''sensor:'' sec
             then Some (trim (substr sec 7)) else None) ls"

text \<open>What holds while loading: the current sensor block exists.\<close>

definition load_inv :: "load_state \<Rightarrow> bool" where
  "load_inv st \<longleftrightarrow> (\<forall>i. ls_sensor st = Some i \<longrightarrow> i < length (cfg_sensors (ls_cfg st)))"

abbreviation sensor_ids :: "Config \<Rightarrow> string list" where
  "sensor_ids c \<equiv> map scf_id (cfg_sensors c)"

lemma set_sensor_id [simp]: "scf_id (set_sensor k v sc) = scf_id sc"
  by (simp add: set_sensor_def)

lemma set_database_sensors: "set_database k v c = ok c' \<Longrightarrow> cfg_sensors c' = cfg_sensors c"
  by (auto simp: set_database_def res_simps split: if_splits)

lemma set_api_sensors: "set_api k v c = ok c' \<Longrightarrow> cfg_sensors c' = cfg_sensors c"
  by (auto simp: set_api_def res_simps split: if_splits)

lemma apply_key_sensors:
  assumes "apply_key k v st = ok st'" and "load_inv st"
  shows "load_inv st' \<and> sensor_ids (ls_cfg st') = sensor_ids (ls_cfg st)"
proof -
  have upd: "map scf_id (xs[i := set_sensor k v (xs ! i)]) = map scf_id xs" if "i < length xs" for xs i
    using that by (simp add: map_update) (metis list_update_id map_update nth_map length_map)
  show ?thesis
    using assms by (auto simp: apply_key_def Let_def res_simps load_inv_def upd
        dest!: set_database_sensors set_api_sensors split: if_splits option.splits)
qed

lemma load_line_sensors:
  assumes "load_line path n l st = ok st'" and "load_inv st"
  shows "load_inv st' \<and> sensor_ids (ls_cfg st') = sensor_ids (ls_cfg st) @ announced [l]"
  using assms apply_key_sensors
  by (auto simp: load_line_def open_section_def announced_def Let_def load_inv_def map_filter_simps
      split: if_splits option.splits)

lemma load_lines_sensors:
  "load_lines path n ls st = ok st' \<Longrightarrow> load_inv st \<Longrightarrow>
   sensor_ids (ls_cfg st') = sensor_ids (ls_cfg st) @ announced ls"
proof (induction ls arbitrary: n st)
  case Nil
  then show ?case by (simp add: announced_def map_filter_simps)
next
  case (Cons l ls)
  then obtain st1 where l: "load_line path (n + 1) l st = ok st1" "load_lines path (n + 1) ls st1 = ok st'"
    by (auto simp: res_simps)
  from load_line_sensors [OF l(1) Cons.prems(2)] Cons.IH [OF l(2)]
  show ?case by (auto simp: announced_def map_filter_simps split: option.splits)
qed

text \<open>
  C38. A configuration that loads has one sensor block for each sensor section header of the
  file, in the order of the headers and with their ids, whatever the other lines are, and
  its TLS paths are never empty.
\<close>

theorem config_load_sensors:
  assumes "config_load path (Some txt) = ok cfg"
  shows "map scf_id (cfg_sensors cfg) = announced (getline_split txt CHR 0x0A) \<and>
    cfg_api_tls_cert cfg \<noteq> [] \<and> cfg_api_tls_key cfg \<noteq> []"
proof -
  obtain st where st: "load_lines path 0 (getline_split txt CHR 0x0A) load_init = ok st"
    and c: "cfg = tls_defaults path (ls_cfg st)"
    using assms by (auto simp: config_load_def res_simps)
  have "load_inv load_init" by (simp add: load_inv_def load_init_def)
  from load_lines_sensors [OF st this] show ?thesis
    by (simp add: c tls_defaults_def load_init_def config_default_def)
qed

theorem config_load_sensors_witness:
  "\<exists>cfg. config_load ''/etc/nightwatcher.conf''
       (Some (''[sensor:DSN003]'' @ [CHR 0x0A] @ ''transport = tcp'' @ [CHR 0x0A] @ ''# end'')) = ok cfg \<and>
     map scf_id (cfg_sensors cfg) = [''DSN003''] \<and> cfg_api_tls_cert cfg \<noteq> []"
proof -
  let ?t = "''[sensor:DSN003]'' @ [CHR 0x0A] @ ''transport = tcp'' @ [CHR 0x0A] @ ''# end''"
  have "is_ok (config_load ''/etc/nightwatcher.conf'' (Some ?t))" by code_simp
  then obtain cfg where c: "config_load ''/etc/nightwatcher.conf'' (Some ?t) = ok cfg" by (auto simp: is_ok_iff)
  have "announced (getline_split ?t CHR 0x0A) = [''DSN003'']" by code_simp
  with config_load_sensors [OF c] c show ?thesis by metis
qed

lemma getline_split_lines:
  "\<forall>l\<in>set ls. d \<notin> set l \<Longrightarrow> getline_split (concat (map (\<lambda>l. l @ [d]) ls)) d = ls"
  by (induction ls) (simp_all add: getline_split_step)

text \<open>
  C39. A line that is neither blank, a comment, a section header nor an assignment aborts the load
  with an error that names its line number, its text and the file, once the lines before
  it were accepted.
\<close>

theorem config_load_malformed:
  assumes "load_lines path 0 pre load_init = ok st"
    and "\<forall>x\<in>set (pre @ l # post). CHR 0x0A \<notin> set x"
    and "\<not> skip_line (trim l)" and "\<not> section_line (trim l)" and "CHR ''='' \<notin> set (trim l)"
  shows "config_load path (Some (concat (map (\<lambda>x. x @ [CHR 0x0A]) (pre @ l # post)))) =
    throw (''malformed line '' @ show_nat (length pre + 1) @ '' in '' @ path @ '': '' @ quoted (trim l))"
proof -
  have "load_line path (length pre + 1) l st =
      throw (''malformed line '' @ show_nat (length pre + 1) @ '' in '' @ path @ '': '' @ quoted (trim l))"
    using assms(3-5) by (simp add: load_line_def Let_def find_chr_None_iff [THEN iffD2])
  then show ?thesis
    unfolding config_load_def option.case getline_split_lines [OF assms(2)] load_lines_append assms(1) by simp
qed

theorem config_load_malformed_witness:
  "config_load ''nw.conf'' (Some (concat (map (\<lambda>x. x @ [CHR 0x0A]) ([''[api]''] @ ''port 8080'' # [])))) =
    throw (''malformed line '' @ show_nat (length [''[api]''] + 1) @ '' in '' @ ''nw.conf'' @ '': '' @ quoted (trim ''port 8080''))"
proof -
  have "is_ok (load_lines ''nw.conf'' 0 [''[api]''] load_init)" by code_simp
  then obtain st where "load_lines ''nw.conf'' 0 [''[api]''] load_init = ok st" by (auto simp: is_ok_iff)
  moreover have "\<not> skip_line (trim ''port 8080'')" "\<not> section_line (trim ''port 8080'')"
    "CHR ''='' \<notin> set (trim ''port 8080'')" by code_simp+
  ultimately show ?thesis by (intro config_load_malformed) simp_all
qed

end
