(* ===== verification/NW_Time.thy ===== *)
theory NW_Time imports NW_Num begin

text \<open>
  Time zone and calendar helpers (\<^verbatim>\<open>src/export/timeutil.cpp\<close>). \<^verbatim>\<open>timegm\<close> and \<^verbatim>\<open>gmtime_r\<close> are the
  proleptic Gregorian calendar of the C library, with the normalisation of out-of-range fields.
  The time zone database is an argument: the UTC offset a zone has at a moment, and the moment
  \<^verbatim>\<open>mktime\<close> picks for a local time.
\<close>

section \<open>The calendar of the C library\<close>

record tm =
  tm_year :: int
  tm_mon :: int
  tm_mday :: int
  tm_hour :: int
  tm_min :: int
  tm_sec :: int
  tm_wday :: int

definition leap :: "int \<Rightarrow> bool" where
  "leap y \<longleftrightarrow> y mod 4 = 0 \<and> (y mod 100 \<noteq> 0 \<or> y mod 400 = 0)"

text \<open>Days before January 1st of a year, counted from January 1st of year 1.\<close>

definition days_before_year :: "int \<Rightarrow> int" where
  "days_before_year y = 365 * (y - 1) + (y - 1) div 4 - (y - 1) div 100 + (y - 1) div 400"

definition month_lengths :: "int \<Rightarrow> int list" where
  "month_lengths y = [31, if leap y then 29 else 28, 31, 30, 31, 30, 31, 31, 30, 31, 30, 31]"

definition epoch_day :: int where "epoch_day = 719162"

definition day_number :: "int \<Rightarrow> int \<Rightarrow> int \<Rightarrow> int" where
  "day_number year mon mday =
     (let y = year + mon div 12
      in days_before_year y + sum_list (take (nat (mon mod 12)) (month_lengths y)) + (mday - 1) - epoch_day)"

definition timegm :: "tm \<Rightarrow> int" where
  "timegm t = 86400 * day_number (tm_year t + 1900) (tm_mon t) (tm_mday t) +
     3600 * tm_hour t + 60 * tm_min t + tm_sec t"

definition year_of :: "int \<Rightarrow> int" where
  "year_of n =
     (let y = 1 + (400 * n) div 146097
      in if n < days_before_year y then y - 1
         else if days_before_year (y + 1) \<le> n then y + 1 else y)"

fun split_days :: "int list \<Rightarrow> int \<Rightarrow> nat \<times> int" where
  "split_days [] d = (0, d)"
| "split_days (l # ls) d = (if d < l then (0, d) else let (m, r) = split_days ls (d - l) in (Suc m, r))"

definition gmtime :: "int \<Rightarrow> tm" where
  "gmtime t =
     (let days = t div 86400; rem = t mod 86400; n = days + epoch_day; y = year_of n;
          (m, r) = split_days (month_lengths y) (n - days_before_year y)
      in \<lparr>tm_year = y - 1900, tm_mon = int m, tm_mday = r + 1, tm_hour = rem div 3600,
          tm_min = rem mod 3600 div 60, tm_sec = rem mod 60, tm_wday = (days + 4) mod 7\<rparr>)"

section \<open>Zones\<close>

record zoneinfo =
  zi_off :: "string \<Rightarrow> int \<Rightarrow> int"
  zi_mk :: "string \<Rightarrow> int \<Rightarrow> int"

definition local_tm :: "zoneinfo \<Rightarrow> int \<Rightarrow> string \<Rightarrow> tm" where
  "local_tm zi t tz = (if tz = [] then gmtime t else gmtime (t + zi_off zi tz t))"

definition tz_mktime :: "zoneinfo \<Rightarrow> tm \<Rightarrow> string \<Rightarrow> int" where
  "tz_mktime zi t tz = (if tz = [] then timegm t else zi_mk zi tz (timegm t))"

section \<open>Text\<close>

text \<open>\<^verbatim>\<open>%0Nd\<close>\<close>

definition printf_d0 :: "nat \<Rightarrow> int \<Rightarrow> string" where
  "printf_d0 w i = (if i < 0 then CHR ''-'' # pad0 (w - 1) (show_nat (nat (- i))) else pad0 w (show_nat (nat i)))"

text \<open>One \<^verbatim>\<open>%d\<close> of \<^verbatim>\<open>sscanf\<close>, and a literal character.\<close>

definition scan_int :: "string \<Rightarrow> (int \<times> string) option" where
  "scan_int s =
     (let (sg, u) = strip_sign (dropWhile isspace s); ds = takeWhile isdigit u
      in if ds = [] then None
         else Some (to_i32 (clamp64 (sgn_nat sg (digits_val ds))), dropWhile isdigit u))"

definition scan_lit :: "char \<Rightarrow> string \<Rightarrow> string option" where
  "scan_lit c s = (case s of [] \<Rightarrow> None | x # r \<Rightarrow> if x = c then Some r else None)"

definition scan_then :: "char \<Rightarrow> string \<Rightarrow> (int \<times> string) option" where
  "scan_then c s = (case scan_lit c s of None \<Rightarrow> None | Some r \<Rightarrow> scan_int r)"

definition parse_sql_utc :: "string \<Rightarrow> int option" where
  "parse_sql_utc s =
     (case scan_int s of None \<Rightarrow> None | Some (y, s1) \<Rightarrow>
     (case scan_then CHR ''-'' s1 of None \<Rightarrow> None | Some (mo, s2) \<Rightarrow>
     (case scan_then CHR ''-'' s2 of None \<Rightarrow> None | Some (d, s3) \<Rightarrow>
     (case scan_int (dropWhile isspace s3) of None \<Rightarrow> None | Some (h, s4) \<Rightarrow>
     (case scan_then CHR '':'' s4 of None \<Rightarrow> None | Some (mi, s5) \<Rightarrow>
     (case scan_then CHR '':'' s5 of None \<Rightarrow> None | Some (se, s6) \<Rightarrow>
        Some (timegm \<lparr>tm_year = y - 1900, tm_mon = mo - 1, tm_mday = d, tm_hour = h, tm_min = mi,
                      tm_sec = se, tm_wday = 0\<rparr>)))))))"

definition date_text :: "tm \<Rightarrow> string" where
  "date_text t = printf_d0 4 (tm_year t + 1900) @ ''-'' @ printf_d0 2 (tm_mon t + 1) @ ''-'' @ printf_d0 2 (tm_mday t)"

definition clock_text :: "tm \<Rightarrow> string" where
  "clock_text t = printf_d0 2 (tm_hour t) @ '':'' @ printf_d0 2 (tm_min t) @ '':'' @ printf_d0 2 (tm_sec t)"

definition fmt_iso_ms :: "tm \<Rightarrow> string" where
  "fmt_iso_ms t = date_text t @ ''T'' @ clock_text t @ ''.000''"

definition fmt_sql :: "tm \<Rightarrow> string" where
  "fmt_sql t = date_text t @ '' '' @ clock_text t"

definition fmt_sql_utc :: "int \<Rightarrow> string" where
  "fmt_sql_utc t = fmt_sql (gmtime t)"

definition local_ym :: "zoneinfo \<Rightarrow> string \<Rightarrow> string \<Rightarrow> string" where
  "local_ym zi utc_sql tz =
     (case parse_sql_utc utc_sql of
        None \<Rightarrow> take 7 utc_sql
      | Some t \<Rightarrow>
          let lt = local_tm zi t tz in printf_d0 4 (tm_year lt + 1900) @ ''-'' @ printf_d0 2 (tm_mon lt + 1))"

definition local_month_bounds :: "zoneinfo \<Rightarrow> int \<Rightarrow> string \<Rightarrow> int \<times> int" where
  "local_month_bounds zi t tz =
     (let lt = local_tm zi t tz;
          first = \<lparr>tm_year = tm_year lt, tm_mon = tm_mon lt, tm_mday = 1, tm_hour = 0, tm_min = 0, tm_sec = 0, tm_wday = 0\<rparr>;
          next = first\<lparr>tm_mon := tm_mon first + 1\<rparr>
      in (tz_mktime zi first tz, tz_mktime zi next tz - 1))"

definition local_month_bounds_utc :: "zoneinfo \<Rightarrow> string \<Rightarrow> string \<Rightarrow> string \<times> string" where
  "local_month_bounds_utc zi ref_utc_sql tz =
     (case parse_sql_utc ref_utc_sql of
        None \<Rightarrow> (ref_utc_sql, ref_utc_sql)
      | Some t \<Rightarrow> let (a, b) = local_month_bounds zi t tz in (fmt_sql_utc a, fmt_sql_utc b))"

section \<open>Next runs\<close>

definition next_local_hhmm_utc :: "zoneinfo \<Rightarrow> int \<Rightarrow> int \<Rightarrow> string \<Rightarrow> int \<Rightarrow> int" where
  "next_local_hhmm_utc zi hour minute tz now =
     (let target = (local_tm zi now tz)\<lparr>tm_hour := hour, tm_min := minute, tm_sec := 0\<rparr>;
          cand = tz_mktime zi target tz
      in if cand \<le> now then tz_mktime zi (target\<lparr>tm_mday := tm_mday target + 1\<rparr>) tz else cand)"

definition next_local_weekly_utc :: "zoneinfo \<Rightarrow> int \<Rightarrow> int \<Rightarrow> int \<Rightarrow> string \<Rightarrow> int \<Rightarrow> int" where
  "next_local_weekly_utc zi wday0 hour minute tz now =
     (let wday = (if wday0 < 0 then 0 else if 6 < wday0 then 6 else wday0);
          base = local_tm zi now tz;
          delta = (wday - tm_wday base + 7) mod 7;
          target = base\<lparr>tm_mday := tm_mday base + delta, tm_hour := hour, tm_min := minute, tm_sec := 0\<rparr>;
          cand = tz_mktime zi target tz
      in if cand \<le> now then tz_mktime zi (target\<lparr>tm_mday := tm_mday target + 7\<rparr>) tz else cand)"

definition next_local_monthly_utc :: "zoneinfo \<Rightarrow> int \<Rightarrow> int \<Rightarrow> int \<Rightarrow> string \<Rightarrow> int \<Rightarrow> int" where
  "next_local_monthly_utc zi mday0 hour minute tz now =
     (let last_day = (mday0 \<le> 0);
          mday = (if \<not> last_day \<and> 28 < mday0 then 28 else mday0);
          base = (local_tm zi now tz)\<lparr>tm_hour := hour, tm_min := minute, tm_sec := 0\<rparr>;
          target = (if last_day then base\<lparr>tm_mon := tm_mon base + 1, tm_mday := 0\<rparr> else base\<lparr>tm_mday := mday\<rparr>);
          cand = tz_mktime zi target tz
      in if cand \<le> now
         then tz_mktime zi (if last_day then base\<lparr>tm_mon := tm_mon base + 2, tm_mday := 0\<rparr>
                            else base\<lparr>tm_mon := tm_mon base + 1, tm_mday := mday\<rparr>) tz
         else cand)"

section \<open>The calendar\<close>

lemma month_lengths_length [simp]: "length (month_lengths y) = 12"
  by (simp add: month_lengths_def)

lemma month_lengths_pos: "m < 12 \<Longrightarrow> 28 \<le> month_lengths y ! m \<and> month_lengths y ! m \<le> 31"
proof -
  assume "m < 12"
  then have "m \<in> set [0..<12]" by simp
  then show ?thesis by (auto simp: upt_rec [of _ 12] month_lengths_def)
qed

lemma month_lengths_sum: "sum_list (month_lengths y) = (if leap y then 366 else 365)"
  by (simp add: month_lengths_def)

lemma days_before_next: "days_before_year (y + 1) = days_before_year y + (if leap y then 366 else 365)"
proof -
  have d: "y div k = (y - 1) div k + (if y mod k = 0 then 1 else 0)" if "0 < k" for k :: int
  proof (cases "y mod k = 0")
    case True
    then obtain q where q: "y = k * q" by (auto simp: mod_eq_0_iff_dvd dvd_def)
    have "(k * q - 1) div k = q - 1"
      using that by (intro int_div_pos_eq [where r = "k - 1"]) (simp_all add: algebra_simps)
    then show ?thesis using True q that by simp
  next
    case False
    have m: "0 < y mod k" "y mod k < k"
      using False pos_mod_sign [OF that, of y] pos_mod_bound [OF that, of y] by simp_all
    have "(y - 1) div k = y div k"
      using that m by (intro int_div_pos_eq [where r = "y mod k - 1"]) (simp_all add: algebra_simps)
    then show ?thesis using False by simp
  qed
  have l: "y mod 400 = 0 \<Longrightarrow> y mod 100 = 0" "y mod 100 = 0 \<Longrightarrow> y mod 4 = 0"
    unfolding mod_eq_0_iff_dvd by (rule dvd_trans [rotated], assumption, simp)+
  have count: "365 * y + a4 - a100 + a400 = 365 * (y - 1) + b4 - b100 + b400 + (if p4 \<and> (\<not> p100 \<or> p400) then 366 else 365)"
    if "a4 = b4 + (if p4 then 1 else 0)" "a100 = b100 + (if p100 then 1 else 0)" "a400 = b400 + (if p400 then 1 else 0)"
      "p400 \<Longrightarrow> p100" "p100 \<Longrightarrow> p4" for a4 a100 a400 b4 b100 b400 :: int and p4 p100 p400
    using that by (cases p4; cases p100; cases p400; simp)
  have s: "y + 1 - 1 = y" by simp
  show ?thesis
    unfolding days_before_year_def leap_def s
    by (rule count [OF d [OF zero_less_numeral] d [OF zero_less_numeral] d [OF zero_less_numeral] l])
qed

lemma year_estimate:
  fixes n :: int
  defines "q \<equiv> (400 * n) div 146097"
  shows "146097 * q \<le> 400 * n" and "400 * n < 146097 * q + 146097"
  using mult_div_mod_eq [of 146097 "400 * n"] pos_mod_sign [of 146097 "400 * n"] pos_mod_bound [of 146097 "400 * n"]
  unfolding q_def by linarith+

lemma div_between: "0 < k \<Longrightarrow> k * (z div k) \<le> z \<and> z < k * (z div k) + k" for z k :: int
  using mult_div_mod_eq [of k z] pos_mod_sign [of k z] pos_mod_bound [of k z] by linarith

lemma days_before_bounds:
  "400 * days_before_year (z + 1) < 146097 * z + 800" "146097 * z - 1000 < 400 * days_before_year (z + 1)"
proof -
  define a b c where "a = z div 4" and "b = z div 100" and "c = z div 400"
  have "4 * a \<le> z" "z < 4 * a + 4" "100 * b \<le> z" "z < 100 * b + 100" "400 * c \<le> z" "z < 400 * c + 400"
    using div_between [of 4 z] div_between [of 100 z] div_between [of 400 z] by (simp_all add: a_def b_def c_def)
  moreover have "days_before_year (z + 1) = 365 * z + a - b + c"
    by (simp add: days_before_year_def a_def b_def c_def)
  ultimately show "400 * days_before_year (z + 1) < 146097 * z + 800"
    "146097 * z - 1000 < 400 * days_before_year (z + 1)" by linarith+
qed

lemma year_of_bounds: "days_before_year (year_of n) \<le> n \<and> n < days_before_year (year_of n + 1)"
proof -
  define q where "q = (400 * n) div 146097"
  have e: "146097 * q \<le> 400 * n" "400 * n < 146097 * q + 146097"
    unfolding q_def by (rule year_estimate)+
  obtain d where d: "days_before_year (q + 2 + 1) = d" by blast
  have "146097 * (q + 2) - 1000 < 400 * d" using days_before_bounds(2) [of "q + 2"] by (simp only: d)
  then have "146097 * q + 291194 < 400 * d" by simp
  with e(2) have "400 * n < 400 * d" by simp
  then have "n < d" by simp
  then have hi: "n < days_before_year (q + 2 + 1)" by (simp only: d)
  obtain d' where d': "days_before_year (q - 1 + 1) = d'" by blast
  have "400 * d' < 146097 * (q - 1) + 800" using days_before_bounds(1) [of "q - 1"] by (simp only: d')
  then have "400 * d' < 146097 * q" by simp
  with e(1) have "400 * d' < 400 * n" by simp
  then have lo: "days_before_year (q - 1 + 1) \<le> n" unfolding d' by simp
  show ?thesis
    unfolding year_of_def Let_def q_def [symmetric] using hi lo by (auto simp: algebra_simps)
qed

lemma days_before_mono: "y \<le> z \<Longrightarrow> days_before_year y \<le> days_before_year z"
proof (induction "nat (z - y)" arbitrary: z)
  case 0
  then show ?case by simp
next
  case (Suc k)
  then have "days_before_year y \<le> days_before_year (z - 1)" by (intro Suc.hyps(1)) simp_all
  also have "\<dots> \<le> days_before_year z" using days_before_next [of "z - 1"] by simp
  finally show ?case .
qed

lemma year_of_unique:
  assumes "days_before_year y \<le> n" and "n < days_before_year (y + 1)"
  shows "year_of n = y"
proof (rule antisym)
  show "year_of n \<le> y"
  proof (rule ccontr)
    assume "\<not> ?thesis"
    then have "days_before_year (y + 1) \<le> days_before_year (year_of n)" by (intro days_before_mono) simp
    then show False using year_of_bounds [of n] assms by simp
  qed
  show "y \<le> year_of n"
  proof (rule ccontr)
    assume "\<not> ?thesis"
    then have "days_before_year (year_of n + 1) \<le> days_before_year y" by (intro days_before_mono) simp
    then show False using year_of_bounds [of n] assms by simp
  qed
qed

lemma split_days_spec:
  "0 \<le> d \<Longrightarrow> d < sum_list ls \<Longrightarrow> split_days ls d = (m, r) \<Longrightarrow>
   m < length ls \<and> 0 \<le> r \<and> r < ls ! m \<and> sum_list (take m ls) + r = d"
proof (induction ls arbitrary: d m)
  case Nil
  then show ?case by simp
next
  case (Cons l ls)
  show ?case
  proof (cases "d < l")
    case True
    then show ?thesis using Cons.prems by auto
  next
    case False
    then obtain m' where m': "split_days ls (d - l) = (m', r)" "m = Suc m'"
      using Cons.prems(3) by (auto split: prod.splits)
    then show ?thesis using Cons.IH [of "d - l" m'] Cons.prems False by auto
  qed
qed

lemma split_days_unique:
  "m < length ls \<Longrightarrow> 0 \<le> r \<Longrightarrow> r < ls ! m \<Longrightarrow> \<forall>l\<in>set ls. 0 \<le> l \<Longrightarrow> split_days ls (sum_list (take m ls) + r) = (m, r)"
proof (induction ls arbitrary: m)
  case Nil
  then show ?case by simp
next
  case (Cons l ls)
  show ?case
  proof (cases m)
    case 0
    then show ?thesis using Cons.prems by simp
  next
    case (Suc k)
    have "0 \<le> sum_list (take k ls)"
      using Cons.prems(4) by (intro sum_list_nonneg) (auto dest: in_set_takeD)
    then show ?thesis using Suc Cons by simp
  qed
qed

subsection \<open>Months as one sequence\<close>

text \<open>The first day of the \<open>k\<close>-th month (twelve per year), and its length.\<close>

definition month_first :: "int \<Rightarrow> int" where
  "month_first k = day_number 0 k 1"

definition month_len :: "int \<Rightarrow> int" where
  "month_len k = month_lengths (k div 12) ! nat (k mod 12)"

lemma day_number_first: "day_number y mon d = month_first (12 * y + mon) + (d - 1)"
  by (simp add: month_first_def day_number_def Let_def)

lemma month_len_bounds: "28 \<le> month_len k \<and> month_len k \<le> 31"
  using month_lengths_pos [of "nat (k mod 12)"] by (simp add: month_len_def)

lemma month_parts:
  fixes q r :: int
  assumes "0 \<le> r" and "r < 12"
  shows "(12 * q + r) div 12 = q" and "(12 * q + r) mod 12 = r"
  using int_div_pos_eq [of "12 * q + r" 12 q r] int_mod_pos_eq [of "12 * q + r" 12 q r] assms by simp_all

lemma month_first_parts:
  assumes "r < 12"
  shows "month_first (12 * q + int r) = days_before_year q + sum_list (take r (month_lengths q)) - epoch_day"
    and "month_len (12 * q + int r) = month_lengths q ! r"
  using month_parts [of "int r" q] assms by (simp_all add: month_first_def day_number_def month_len_def)

lemma month_first_Suc: "month_first (k + 1) = month_first k + month_len k"
proof -
  define q where "q = k div 12"
  define r where "r = nat (k mod 12)"
  have r: "r < 12" by (simp add: r_def nat_less_iff)
  have k: "k = 12 * q + int r" by (simp add: q_def r_def)
  show ?thesis
  proof (cases "r = 11")
    case True
    have n: "k + 1 = 12 * (q + 1) + int 0" by (simp add: k True)
    have "sum_list (month_lengths q) = sum_list (take 11 (month_lengths q)) + month_lengths q ! 11"
      by (simp add: month_lengths_def)
    then show ?thesis
      using month_first_parts [of 0 "q + 1"] month_first_parts [of 11 q] days_before_next [of q]
        month_lengths_sum [of q]
      by (simp only: n) (simp add: k True)
  next
    case False
    have n: "k + 1 = 12 * q + int (Suc r)" by (simp add: k)
    show ?thesis
      using r False month_first_parts [of "Suc r" q] month_first_parts [of r q]
      by (simp only: n) (simp add: k take_Suc_conv_app_nth)
  qed
qed

lemma month_first_less: "j < k \<Longrightarrow> month_first j + month_len j \<le> month_first k"
proof (induction "nat (k - j)" arbitrary: k)
  case 0
  then show ?case by simp
next
  case (Suc n)
  show ?case
  proof (cases "k = j + 1")
    case True
    then show ?thesis by (simp add: month_first_Suc)
  next
    case False
    then have "month_first j + month_len j \<le> month_first (k - 1)" by (intro Suc.hyps(1)) (use Suc in simp_all)
    also have "\<dots> \<le> month_first k" using month_first_Suc [of "k - 1"] month_len_bounds [of "k - 1"] by simp
    finally show ?thesis .
  qed
qed

lemma month_unique:
  assumes "month_first j \<le> d" "d < month_first j + month_len j" "month_first k \<le> d" "d < month_first k + month_len k"
  shows "j = k"
  using assms month_first_less [of j k] month_first_less [of k j] by (cases j k rule: linorder_cases) auto

text \<open>Month and day of month of a broken-down time.\<close>

definition month_index :: "tm \<Rightarrow> int" where
  "month_index t = 12 * (tm_year t + 1900) + tm_mon t"

lemma timegm_month:
  "timegm t = 86400 * (month_first (month_index t) + tm_mday t - 1) + 3600 * tm_hour t + 60 * tm_min t + tm_sec t"
  by (simp add: timegm_def day_number_first month_index_def)

lemma gmtime_date:
  "0 \<le> tm_mon (gmtime t)" "tm_mon (gmtime t) < 12"
  "1 \<le> tm_mday (gmtime t)" "tm_mday (gmtime t) \<le> month_len (month_index (gmtime t))"
  "month_first (month_index (gmtime t)) + tm_mday (gmtime t) - 1 = t div 86400"
  "tm_year (gmtime t) + 1900 = year_of (t div 86400 + epoch_day)"
proof -
  define n where "n = t div 86400 + epoch_day"
  define y where "y = year_of n"
  obtain m r where mr: "split_days (month_lengths y) (n - days_before_year y) = (m, r)" by fastforce
  have b: "days_before_year y \<le> n" "n < days_before_year (y + 1)" using year_of_bounds [of n] by (simp_all add: y_def)
  have s: "m < 12" "0 \<le> r" "r < month_lengths y ! m" "sum_list (take m (month_lengths y)) + r = n - days_before_year y"
    using split_days_spec [OF _ _ mr] b days_before_next [of y] month_lengths_sum [of y] by auto
  have g: "tm_year (gmtime t) = y - 1900" "tm_mon (gmtime t) = int m" "tm_mday (gmtime t) = r + 1"
    using mr by (simp_all add: gmtime_def Let_def flip: n_def y_def)
  show "0 \<le> tm_mon (gmtime t)" "tm_mon (gmtime t) < 12" "1 \<le> tm_mday (gmtime t)"
    using s g by simp_all
  have i: "(12 * y + int m) div 12 = y" "(12 * y + int m) mod 12 = int m" using s(1) by simp_all
  show "tm_mday (gmtime t) \<le> month_len (month_index (gmtime t))"
    using s by (simp add: g month_index_def month_len_def i)
  show "month_first (month_index (gmtime t)) + tm_mday (gmtime t) - 1 = t div 86400"
    using s i by (simp add: g month_index_def month_first_def day_number_def n_def)
  show "tm_year (gmtime t) + 1900 = year_of (t div 86400 + epoch_day)" by (simp add: g n_def y_def)
qed

lemma gmtime_clock:
  "tm_hour (gmtime t) = t mod 86400 div 3600" "tm_min (gmtime t) = t mod 86400 mod 3600 div 60"
  "tm_sec (gmtime t) = t mod 86400 mod 60" "tm_wday (gmtime t) = (t div 86400 + 4) mod 7"
  by (simp_all add: gmtime_def Let_def split: prod.splits)

lemma clock_of_rem: "3600 * (r div 3600) + 60 * (r mod 3600 div 60) + r mod 60 = r" for r :: int
proof -
  have "r mod 3600 mod 60 = r mod 60" by (rule mod_mod_cancel) simp
  then show ?thesis using mult_div_mod_eq [of 3600 r] mult_div_mod_eq [of 60 "r mod 3600"] by linarith
qed

lemma timegm_gmtime: "timegm (gmtime t) = t"
proof -
  let ?r = "t mod 86400"
  have "timegm (gmtime t) = 86400 * (t div 86400) + (3600 * (?r div 3600) + 60 * (?r mod 3600 div 60) + ?r mod 60)"
    by (simp only: timegm_month gmtime_date(5) gmtime_clock add.assoc)
  then show ?thesis by (simp only: clock_of_rem mult_div_mod_eq)
qed

lemma month_day_unique:
  assumes "month_first k + d = t div 86400" and "0 \<le> d" and "d < month_len k"
  shows "month_index (gmtime t) = k \<and> tm_mday (gmtime t) = d + 1"
proof -
  have "month_index (gmtime t) = k"
    using gmtime_date(3-5) [of t] assms by (intro month_unique [of _ "t div 86400"]) simp_all
  then show ?thesis using gmtime_date(5) [of t] assms(1) by simp
qed

section \<open>Zones of constant offset\<close>

text \<open>
  UTC (the empty zone) and every zone while its offset does not change: the properties of the
  schedule are stated for these, a change of offset shifts a run by the change.
\<close>

definition steady :: "zoneinfo \<Rightarrow> string \<Rightarrow> int \<Rightarrow> bool" where
  "steady zi tz k \<longleftrightarrow>
     (if tz = [] then k = 0 else (\<forall>t. zi_off zi tz t = k) \<and> (\<forall>l. zi_mk zi tz l = l - k))"

lemma steady_local: "steady zi tz k \<Longrightarrow> local_tm zi t tz = gmtime (t + k)"
  by (auto simp: steady_def local_tm_def split: if_splits)

lemma steady_mk: "steady zi tz k \<Longrightarrow> tz_mktime zi t tz = timegm t - k"
  by (auto simp: steady_def tz_mktime_def split: if_splits)

text \<open>\<open>at_clock t h m\<close>: the local clock shows h:m:00.\<close>

definition at_clock :: "tm \<Rightarrow> int \<Rightarrow> int \<Rightarrow> bool" where
  "at_clock t h m \<longleftrightarrow> tm_hour t = h \<and> tm_min t = m \<and> tm_sec t = 0"

lemma at_clock_iff:
  assumes "0 \<le> h" "h < 24" "0 \<le> m" "m < 60"
  shows "at_clock (gmtime t) h m \<longleftrightarrow> t mod 86400 = 3600 * h + 60 * m"
proof
  assume "at_clock (gmtime t) h m"
  then show "t mod 86400 = 3600 * h + 60 * m"
    using clock_of_rem [of "t mod 86400"] by (simp add: at_clock_def gmtime_clock)
next
  assume r: "t mod 86400 = 3600 * h + 60 * m"
  have "(3600 * h + 60 * m) div 3600 = h" "(3600 * h + 60 * m) mod 3600 = 60 * m"
    using assms int_div_pos_eq [of "3600 * h + 60 * m" 3600 h "60 * m"]
      int_mod_pos_eq [of "3600 * h + 60 * m" 3600 h "60 * m"] by simp_all
  moreover have "(60 * (60 * h + m)) mod 60 = 0" by (rule mod_mult_self1_is_0)
  then have "(3600 * h + 60 * m) mod 60 = 0" by (simp add: algebra_simps)
  ultimately show "at_clock (gmtime t) h m"
    by (simp add: at_clock_def gmtime_clock r)
qed

text \<open>The same clock on the day \<open>d\<close>.\<close>

lemma on_day:
  assumes "0 \<le> h" "h < 24" "0 \<le> m" "m < (60 :: int)"
  shows "(86400 * d + (3600 * h + 60 * m)) mod 86400 = 3600 * h + 60 * m"
    and "(86400 * d + (3600 * h + 60 * m)) div 86400 = d"
  using assms int_div_pos_eq [of "86400 * d + (3600 * h + 60 * m)" 86400 d "3600 * h + 60 * m"]
    int_mod_pos_eq [of "86400 * d + (3600 * h + 60 * m)" 86400 d "3600 * h + 60 * m"] by simp_all

lemma timegm_at:
  "timegm (t\<lparr>tm_mday := d, tm_hour := h, tm_min := m, tm_sec := 0\<rparr>) =
     86400 * (month_first (month_index t) + d - 1) + (3600 * h + 60 * m)"
  by (simp add: timegm_month) (simp add: month_index_def)

lemma timegm_at_mday:
  "timegm (t\<lparr>tm_hour := h, tm_min := m, tm_sec := 0, tm_mday := d\<rparr>) =
     86400 * (month_first (month_index t) + d - 1) + (3600 * h + 60 * m)"
  by (simp add: timegm_month) (simp add: month_index_def)

lemma less_same_mod:
  fixes a b :: int
  assumes "a mod p = b mod p" "b < a" "0 < p"
  shows "b + p \<le> a"
proof -
  obtain q where q: "a - b = p * q" using assms(1) by (metis dvdE mod_eq_dvd_iff)
  then have "0 < p * q" using assms(2) by simp
  then have "1 \<le> q" using assms(3) by (simp add: zero_less_mult_iff)
  then have "p * 1 \<le> p * q" using assms(3) by (intro mult_left_mono) simp_all
  then show ?thesis using q by simp
qed

lemma day_of: "86400 * (t div 86400) \<le> t \<and> t < 86400 * (t div 86400) + 86400" for t :: int
  using div_between [of 86400 t] by simp

lemma next_daily:
  assumes z: "steady zi tz k" and c: "0 \<le> h" "h < 24" "0 \<le> m" "m < 60"
  shows "now < next_local_hhmm_utc zi h m tz now \<and> next_local_hhmm_utc zi h m tz now \<le> now + 86400 \<and>
    at_clock (local_tm zi (next_local_hhmm_utc zi h m tz now) tz) h m \<and>
    (\<forall>t. now < t \<and> t < next_local_hhmm_utc zi h m tz now \<longrightarrow> \<not> at_clock (local_tm zi t tz) h m)"
proof -
  let ?s = "3600 * h + 60 * m" and ?g = "gmtime (now + k)"
  define d where "d = (now + k) div 86400"
  define r where "r = next_local_hhmm_utc zi h m tz now"
  have dd: "month_first (month_index ?g) + tm_mday ?g - 1 = d" by (simp add: gmtime_date(5) d_def)
  have t1: "timegm (?g\<lparr>tm_hour := h, tm_min := m, tm_sec := 0\<rparr>) = 86400 * d + ?s"
    using timegm_at [where t = ?g and d = "tm_mday ?g" and h = h and m = m] dd by simp
  have t2: "timegm (?g\<lparr>tm_hour := h, tm_min := m, tm_sec := 0, tm_mday := tm_mday ?g + 1\<rparr>) = 86400 * (d + 1) + ?s"
    using timegm_at_mday [where t = ?g and d = "tm_mday ?g + 1" and h = h and m = m] dd by simp
  have r: "r = (if 86400 * d + ?s - k \<le> now then 86400 * (d + 1) + ?s - k else 86400 * d + ?s - k)"
    unfolding r_def next_local_hhmm_utc_def Let_def steady_local [OF z] steady_mk [OF z] t1
    using t2 by simp
  have d: "86400 * d \<le> now + k" "now + k < 86400 * d + 86400" using day_of [of "now + k"] by (simp_all add: d_def)
  have s: "0 \<le> ?s" "?s < 86400" using c by simp_all
  have a: "now < r \<and> r \<le> now + 86400" using d s by (auto simp: r)
  have "(r + k) mod 86400 = ?s" using on_day(1) [OF c, of d] on_day(1) [OF c, of "d + 1"] by (auto simp: r)
  moreover from this have "\<not> (t + k) mod 86400 = ?s" if "now < t \<and> t < r" for t
    using that a less_same_mod [of "r + k" 86400 "t + k"] by auto
  ultimately show ?thesis
    using a by (simp add: steady_local [OF z] at_clock_iff [OF c] flip: r_def)
qed



lemma next_weekly:
  assumes z: "steady zi tz k" and c: "0 \<le> h" "h < 24" "0 \<le> m" "m < 60"
  shows "let w = max 0 (min 6 wday); r = next_local_weekly_utc zi wday h m tz now in
    now < r \<and> r \<le> now + 604800 \<and> tm_wday (local_tm zi r tz) = w \<and> at_clock (local_tm zi r tz) h m \<and>
    (\<forall>t. now < t \<and> t < r \<longrightarrow> \<not> (tm_wday (local_tm zi t tz) = w \<and> at_clock (local_tm zi t tz) h m))"
proof -
  define w where "w = max 0 (min 6 wday)"
  define r where "r = next_local_weekly_utc zi wday h m tz now"
  let ?s = "3600 * h + 60 * m" and ?g = "gmtime (now + k)"
  define d where "d = (now + k) div 86400"
  define e where "e = (w - tm_wday ?g + 7) mod 7"
  have w: "(if wday < 0 then 0 else if 6 < wday then 6 else wday) = w" by (simp add: w_def)
  have dd: "month_first (month_index ?g) + tm_mday ?g - 1 = d" by (simp add: gmtime_date(5) d_def)
  have t1: "timegm (?g\<lparr>tm_mday := tm_mday ?g + e, tm_hour := h, tm_min := m, tm_sec := 0\<rparr>) = 86400 * (d + e) + ?s"
    using timegm_at [where t = ?g and d = "tm_mday ?g + e" and h = h and m = m] dd by simp
  have t2: "timegm (?g\<lparr>tm_hour := h, tm_min := m, tm_sec := 0, tm_mday := tm_mday ?g + e + 7\<rparr>) = 86400 * (d + e + 7) + ?s"
    using timegm_at_mday [where t = ?g and d = "tm_mday ?g + e + 7" and h = h and m = m] dd by simp
  have r: "r = (if 86400 * (d + e) + ?s - k \<le> now then 86400 * (d + e + 7) + ?s - k else 86400 * (d + e) + ?s - k)"
    unfolding r_def next_local_weekly_utc_def Let_def w steady_local [OF z] steady_mk [OF z] e_def [symmetric]
    using t1 t2 by simp
  have d: "86400 * d \<le> now + k" "now + k < 86400 * d + 86400" using day_of [of "now + k"] by (simp_all add: d_def)
  have s: "0 \<le> ?s" "?s < 86400" using c by simp_all
  have e: "0 \<le> e" "e < 7" by (simp_all add: e_def)
  have wd: "(d + e + 4) mod 7 = w"
  proof -
    have "e = (w - (d + 4)) mod 7"
      by (simp add: e_def gmtime_clock d_def mod_diff_right_eq)
    then have "(d + e + 4) mod 7 = (d + 4 + (w - (d + 4))) mod 7"
      by (metis add.assoc add.commute mod_add_right_eq)
    then show ?thesis by (simp add: w_def)
  qed
  then have wd7: "(d + e + 7 + 4) mod 7 = w" by (metis add.assoc add.commute mod_add_self2)
  have a: "now < r \<and> r \<le> now + 604800" using d s e by (auto simp: r)
  define day where "day = (if 86400 * (d + e) + ?s - k \<le> now then d + e + 7 else d + e)"
  have rk: "r + k = 86400 * day + ?s" by (simp add: r day_def)
  have day: "(day + 4) mod 7 = w" using wd wd7 by (simp add: day_def)
  have m: "(r + k) mod 86400 = ?s" "(r + k) div 86400 = day" using on_day [OF c] by (simp_all only: rk)
  have "\<not> ((t + k) mod 86400 = ?s \<and> ((t + k) div 86400 + 4) mod 7 = w)" if t: "now < t \<and> t < r" for t
  proof
    assume h: "(t + k) mod 86400 = ?s \<and> ((t + k) div 86400 + 4) mod 7 = w"
    define q where "q = (t + k) div 86400"
    have tk: "t + k = 86400 * q + ?s" using h mult_div_mod_eq [of 86400 "t + k"] by (simp add: q_def)
    have "q + 4 < day + 4" using t rk tk by simp
    then have "q + 4 + 7 \<le> day + 4" using h day by (intro less_same_mod) (simp_all add: q_def)
    then show False using a t rk tk by simp
  qed
  then show ?thesis
    using a m day unfolding Let_def w_def [symmetric] r_def [symmetric]
    by (simp add: steady_local [OF z] at_clock_iff [OF c] gmtime_clock) blast
qed



text \<open>The scheduled day of the month with index \<open>j\<close>: fixed days clamped to 28, or the last day.\<close>

definition run_day :: "int \<Rightarrow> int \<Rightarrow> int" where
  "run_day mday j = (if mday \<le> 0 then month_len j else min mday 28)"

lemma run_day_bounds: "1 \<le> run_day mday j \<and> run_day mday j \<le> month_len j"
  using month_len_bounds [of j] by (auto simp: run_day_def)

definition run_at :: "int \<Rightarrow> int \<Rightarrow> int \<Rightarrow> int" where
  "run_at mday s j = 86400 * (month_first j + run_day mday j - 1) + s"

lemma run_at_month:
  assumes "0 \<le> s" "s < 86400"
  shows "86400 * month_first j \<le> run_at mday s j \<and> run_at mday s j < 86400 * month_first (j + 1)"
proof -
  have "month_first j + run_day mday j \<le> month_first (j + 1)" "month_first j + 1 \<le> month_first j + run_day mday j"
    using run_day_bounds [of mday j] by (simp_all add: month_first_Suc)
  then have "86400 * (month_first j + run_day mday j) \<le> 86400 * month_first (j + 1)"
    "86400 * (month_first j + 1) \<le> 86400 * (month_first j + run_day mday j)"
    by (simp_all only: mult_le_cancel_left) simp_all
  then show ?thesis using assms by (simp add: run_at_def)
qed

lemma month_first_mono: "j < l \<Longrightarrow> month_first (j + 1) \<le> month_first l"
  using month_first_less [of j l] by (simp add: month_first_Suc)

lemma run_at_less: "0 \<le> s \<Longrightarrow> s < 86400 \<Longrightarrow> j < l \<Longrightarrow> run_at mday s j < run_at mday s l"
  using run_at_month [of s j mday] run_at_month [of s l mday] month_first_mono [of j l] by simp

lemma month_of_day: "86400 * month_first (month_index (gmtime n)) \<le> n \<and> n < 86400 * month_first (month_index (gmtime n) + 1)"
proof -
  define d where "d = n div 86400"
  define j where "j = month_index (gmtime n)"
  have "month_first j \<le> d" "d + 1 \<le> month_first (j + 1)"
    using gmtime_date(3-5) [of n] by (simp_all add: d_def j_def month_first_Suc)
  then have "86400 * month_first j \<le> 86400 * d" "86400 * (d + 1) \<le> 86400 * month_first (j + 1)"
    by (simp_all only: mult_le_cancel_left) simp_all
  then show ?thesis using day_of [of n] by (simp flip: d_def j_def)
qed

lemma run_at_gmtime:
  assumes "0 \<le> h" "h < 24" "0 \<le> m" "m < 60"
  shows "tm_mday (gmtime n) = run_day mday (month_index (gmtime n)) \<and> at_clock (gmtime n) h m \<longleftrightarrow>
    (\<exists>j. n = run_at mday (3600 * h + 60 * m) j)"
proof
  assume a: "tm_mday (gmtime n) = run_day mday (month_index (gmtime n)) \<and> at_clock (gmtime n) h m"
  then have "n = 86400 * (n div 86400) + (3600 * h + 60 * m)"
    using at_clock_iff [OF assms, of n] mult_div_mod_eq [of 86400 n] by simp
  moreover have "n div 86400 = month_first (month_index (gmtime n)) + run_day mday (month_index (gmtime n)) - 1"
    using gmtime_date(5) [of n] a by simp
  ultimately show "\<exists>j. n = run_at mday (3600 * h + 60 * m) j" unfolding run_at_def by metis
next
  assume "\<exists>j. n = run_at mday (3600 * h + 60 * m) j"
  then obtain j where j: "n = run_at mday (3600 * h + 60 * m) j" by blast
  have d: "n div 86400 = month_first j + (run_day mday j - 1)" "n mod 86400 = 3600 * h + 60 * m"
    using on_day [OF assms, of "month_first j + (run_day mday j - 1)"] by (simp_all add: j run_at_def algebra_simps)
  have "month_index (gmtime n) = j \<and> tm_mday (gmtime n) = run_day mday j - 1 + 1"
    using run_day_bounds [of mday j] by (intro month_day_unique) (simp_all add: d(1))
  then show "tm_mday (gmtime n) = run_day mday (month_index (gmtime n)) \<and> at_clock (gmtime n) h m"
    using at_clock_iff [OF assms, of n] d(2) by simp
qed

lemma next_monthly:
  assumes z: "steady zi tz k" and c: "0 \<le> h" "h < 24" "0 \<le> m" "m < 60"
  shows "let r = next_local_monthly_utc zi mday h m tz now;
      due = (\<lambda>t. tm_mday (local_tm zi t tz) = run_day mday (month_index (local_tm zi t tz)) \<and> at_clock (local_tm zi t tz) h m)
    in now < r \<and> r \<le> now + 5356800 \<and> due r \<and> (\<forall>t. now < t \<and> t < r \<longrightarrow> \<not> due t)"
proof -
  define s where "s = 3600 * h + 60 * m"
  have s: "0 \<le> s" "s < 86400" using c by (simp_all add: s_def)
  define r where "r = next_local_monthly_utc zi mday h m tz now"
  define j where "j = month_index (gmtime (now + k))"
  let ?b = "(gmtime (now + k))\<lparr>tm_hour := h, tm_min := m, tm_sec := 0\<rparr>"
  have t: "timegm (if mday \<le> 0 then ?b\<lparr>tm_mon := tm_mon ?b + 1, tm_mday := 0\<rparr>
      else ?b\<lparr>tm_mday := (if \<not> mday \<le> 0 \<and> 28 < mday then 28 else mday)\<rparr>) = run_at mday s j"
    using month_first_Suc [of j] by (simp add: timegm_month run_at_def run_day_def s_def j_def) (simp add: month_index_def algebra_simps)
  have t2: "timegm (if mday \<le> 0 then ?b\<lparr>tm_mon := tm_mon ?b + 2, tm_mday := 0\<rparr>
      else ?b\<lparr>tm_mon := tm_mon ?b + 1, tm_mday := (if \<not> mday \<le> 0 \<and> 28 < mday then 28 else mday)\<rparr>) = run_at mday s (j + 1)"
    using month_first_Suc [of "j + 1"] by (simp add: timegm_month run_at_def run_day_def s_def j_def) (simp add: month_index_def algebra_simps)
  have r: "r + k = (if run_at mday s j \<le> now + k then run_at mday s (j + 1) else run_at mday s j)"
    unfolding r_def next_local_monthly_utc_def Let_def steady_local [OF z] steady_mk [OF z] t t2 by simp
  have n: "86400 * month_first j \<le> now + k" "now + k < 86400 * month_first (j + 1)"
    using month_of_day [of "now + k"] by (simp_all add: j_def)
  have gt: "now < r"
    using r n run_at_month [OF s, of "j + 1" mday] by (auto split: if_splits)
  have soon: "r \<le> now + 5356800"
  proof -
    have "month_first (j + 1 + 1) \<le> month_first j + 62"
      using month_first_Suc [of j] month_first_Suc [of "j + 1"] month_len_bounds [of j] month_len_bounds [of "j + 1"] by linarith
    then show ?thesis
      using r n run_at_month [OF s, of j mday] run_at_month [OF s, of "j + 1" mday] by (auto split: if_splits)
  qed
  have none: False if "now < t" "t < r" "t + k = run_at mday s i" for t i
  proof (cases "run_at mday s j \<le> now + k")
    case True
    then have "run_at mday s j < run_at mday s i" "run_at mday s i < run_at mday s (j + 1)"
      using that r by auto
    moreover have "i < j \<or> i = j \<or> i = j + 1 \<or> j + 1 < i" by linarith
    ultimately show False using run_at_less [OF s, of i j mday] run_at_less [OF s, of "j + 1" i mday]
      by auto
  next
    case False
    then have "run_at mday s i < run_at mday s j" using that r by simp
    then have "i < j" using run_at_less [OF s, of j i mday] by (cases i j rule: linorder_cases) auto
    then have "run_at mday s i < 86400 * month_first j"
      using run_at_month [OF s, of i mday] month_first_mono [of i j] by simp
    then show False using that n by simp
  qed
  have "\<exists>i. r + k = run_at mday s i" unfolding r by auto
  then show ?thesis
    unfolding Let_def r_def [symmetric] steady_local [OF z] run_at_gmtime [OF c] s_def [symmetric]
    using gt soon none by blast
qed



section \<open>Month bounds\<close>

lemma month_bounds:
  assumes z: "steady zi tz k"
  shows "(fst (local_month_bounds zi t tz) \<le> u \<and> u \<le> snd (local_month_bounds zi t tz)) \<longleftrightarrow>
    month_index (local_tm zi u tz) = month_index (local_tm zi t tz)"
proof -
  define j where "j = month_index (gmtime (t + k))"
  define i where "i = month_index (gmtime (u + k))"
  have b: "local_month_bounds zi t tz = (86400 * month_first j - k, 86400 * month_first (j + 1) - k - 1)"
    unfolding local_month_bounds_def Let_def steady_local [OF z] steady_mk [OF z]
    by (simp add: timegm_month month_index_def j_def algebra_simps)
  have m: "86400 * month_first i \<le> u + k" "u + k < 86400 * month_first (i + 1)"
    using month_of_day [of "u + k"] by (simp_all add: i_def)
  have "86400 * month_first j \<le> u + k \<and> u + k < 86400 * month_first (j + 1) \<longleftrightarrow> i = j"
    using m month_first_mono [of i j] month_first_mono [of j i] by (cases i j rule: linorder_cases) auto
  then show ?thesis
    unfolding b steady_local [OF z] i_def [symmetric] j_def [symmetric] by auto
qed



section \<open>Timestamps as text\<close>

lemma scan_int_printf:
  assumes "0 \<le> i" and "i \<le> i32_max" and "rest = [] \<or> \<not> isdigit (hd rest)"
  shows "scan_int (printf_d0 w i @ rest) = Some (i, rest)"
proof -
  let ?d = "pad0 w (show_nat (nat i))"
  have d: "\<forall>c\<in>set ?d. isdigit c" by (rule pad0_digits [OF show_nat_digits])
  obtain c r where cr: "?d = c # r" by (metis list.exhaust pad0_nonempty show_nat_nonempty)
  have c: "isdigit c" using d cr by simp
  have ss: "strip_sign (dropWhile isspace (?d @ rest)) = (False, ?d @ rest)"
    using c digit_not_space [OF c] by (simp add: cr strip_sign_digit)
  have tw: "takeWhile isdigit (?d @ rest) = ?d" "dropWhile isdigit (?d @ rest) = rest"
    using d assms(3) by (cases rest; simp add: takeWhile_append2 dropWhile_append2 takeWhile_all dropWhile_all)+
  have "to_i32 (clamp64 (int (digits_val ?d))) = i"
    using assms(1,2) by (simp add: clamp64_def i64_min_def i64_max_def i32_max_def i32_min_def to_i32_id)
  then show ?thesis
    using assms(1) by (simp add: scan_int_def printf_d0_def ss tw sgn_nat_def)
qed

lemma isdigit_seps: "\<not> isdigit CHR ''-''" "\<not> isdigit CHR '' ''" "\<not> isdigit CHR '':''"
  by (simp_all add: isdigit_def)

lemma scan_then_printf:
  "0 \<le> i \<Longrightarrow> i \<le> i32_max \<Longrightarrow> rest = [] \<or> \<not> isdigit (hd rest) \<Longrightarrow>
   scan_then c (c # printf_d0 w i @ rest) = Some (i, rest)"
  by (simp add: scan_then_def scan_lit_def scan_int_printf)

definition in_calendar :: "int \<Rightarrow> bool" where
  "in_calendar t \<longleftrightarrow> - 62135596800 \<le> t \<and> t < 253402300800"

lemma in_calendar_year:
  assumes "in_calendar t"
  shows "1 \<le> tm_year (gmtime t) + 1900 \<and> tm_year (gmtime t) + 1900 \<le> 9999"
proof -
  define n where "n = t div 86400 + epoch_day"
  have "- 719162 \<le> t div 86400" "t div 86400 < 2932897"
    using assms div_between [of 86400 t] by (simp_all add: in_calendar_def)
  then have n: "0 \<le> n" "n < 3652059" by (simp_all add: n_def epoch_day_def)
  note b = year_of_bounds [of n]
  have "days_before_year 1 = 0" "days_before_year 10000 = 3652059" by (simp_all add: days_before_year_def)
  then have "\<not> year_of n + 1 \<le> 1" "\<not> 10000 \<le> year_of n"
    using b n days_before_mono [of "year_of n + 1" 1] days_before_mono [of 10000 "year_of n"] by auto
  then show ?thesis using gmtime_date(6) [of t] by (simp add: n_def)
qed

lemma gmtime_small_fields:
  "0 \<le> tm_hour (gmtime t)" "tm_hour (gmtime t) \<le> 23" "0 \<le> tm_min (gmtime t)" "tm_min (gmtime t) \<le> 59"
  "0 \<le> tm_sec (gmtime t)" "tm_sec (gmtime t) \<le> 59"
proof -
  have "0 \<le> t mod 86400" "t mod 86400 < 86400" by simp_all
  then show "0 \<le> tm_hour (gmtime t)" "tm_hour (gmtime t) \<le> 23"
    using div_between [of 3600 "t mod 86400"] by (simp_all add: gmtime_clock pos_imp_zdiv_nonneg_iff)
  have "0 \<le> t mod 86400 mod 3600" "t mod 86400 mod 3600 < 3600" by simp_all
  then show "0 \<le> tm_min (gmtime t)" "tm_min (gmtime t) \<le> 59"
    using div_between [of 60 "t mod 86400 mod 3600"] by (simp_all add: gmtime_clock pos_imp_zdiv_nonneg_iff)
  have "0 \<le> t mod 86400 mod 60" "t mod 86400 mod 60 < 60" by simp_all
  then show "0 \<le> tm_sec (gmtime t)" "tm_sec (gmtime t) \<le> 59" by (simp_all add: gmtime_clock)
qed

lemma sql_time_parses:
  assumes "in_calendar t"
  shows "parse_sql_utc (fmt_sql_utc t) = Some t"
proof -
  let ?g = "gmtime t"
  note f = gmtime_date(1-4) [of t] gmtime_small_fields [of t] in_calendar_year [OF assms]
    month_len_bounds [of "month_index ?g"]
  have b: "x \<le> i32_max" if "x \<le> 9999" for x :: int using that by (simp add: i32_max_def)
  have s1: "scan_int (fmt_sql_utc t) =
      Some (tm_year ?g + 1900, ''-'' @ printf_d0 2 (tm_mon ?g + 1) @ ''-'' @ printf_d0 2 (tm_mday ?g) @ '' '' @ clock_text ?g)"
    using f b scan_int_printf [of "tm_year ?g + 1900"] isdigit_seps
    by (simp add: fmt_sql_utc_def fmt_sql_def date_text_def)
  have s2: "scan_then CHR ''-'' (''-'' @ printf_d0 2 (tm_mon ?g + 1) @ ''-'' @ printf_d0 2 (tm_mday ?g) @ '' '' @ clock_text ?g) =
      Some (tm_mon ?g + 1, ''-'' @ printf_d0 2 (tm_mday ?g) @ '' '' @ clock_text ?g)"
    using f b scan_then_printf [of "tm_mon ?g + 1"] isdigit_seps by simp
  have s3: "scan_then CHR ''-'' (''-'' @ printf_d0 2 (tm_mday ?g) @ '' '' @ clock_text ?g) =
      Some (tm_mday ?g, '' '' @ clock_text ?g)"
    using f b scan_then_printf [of "tm_mday ?g"] isdigit_seps by simp
  have dig: "\<exists>c r. printf_d0 w i = c # r \<and> isdigit c" if "0 \<le> i" for w i
    using that pad0_digits [OF show_nat_digits, of w "nat i"]
    by (cases "pad0 w (show_nat (nat i))") (auto simp: printf_d0_def)
  obtain c r where cr: "printf_d0 2 (tm_hour ?g) = c # r" "isdigit c" using dig f by blast
  have sp: "dropWhile isspace ('' '' @ clock_text ?g) = clock_text ?g"
    using digit_not_space [OF cr(2)] by (simp add: clock_text_def cr(1) isspace_def [of "CHR '' ''"])
  have s4: "scan_int (clock_text ?g) = Some (tm_hour ?g, '':'' @ printf_d0 2 (tm_min ?g) @ '':'' @ printf_d0 2 (tm_sec ?g))"
    using f b scan_int_printf [of "tm_hour ?g"] isdigit_seps by (simp add: clock_text_def)
  have s5: "scan_then CHR '':'' ('':'' @ printf_d0 2 (tm_min ?g) @ '':'' @ printf_d0 2 (tm_sec ?g)) =
      Some (tm_min ?g, '':'' @ printf_d0 2 (tm_sec ?g))"
    using f b scan_then_printf [of "tm_min ?g"] isdigit_seps by simp
  have s6: "scan_then CHR '':'' ('':'' @ printf_d0 2 (tm_sec ?g)) = Some (tm_sec ?g, [])"
    using f b scan_then_printf [of "tm_sec ?g" "[]"] by simp
  have "timegm \<lparr>tm_year = tm_year ?g + 1900 - 1900, tm_mon = tm_mon ?g + 1 - 1, tm_mday = tm_mday ?g, tm_hour = tm_hour ?g,
      tm_min = tm_min ?g, tm_sec = tm_sec ?g, tm_wday = 0\<rparr> = timegm ?g"
    by (simp add: timegm_def)
  then show ?thesis
    by (simp only: parse_sql_utc_def s1 s2 s3 sp s4 s5 s6 option.case prod.case timegm_gmtime)
qed

text \<open>
  Writing a moment as a UTC timestamp and reading it back gives the same moment, for
  every second of the years 1 to 9999.
\<close>

theorem sql_time_round_trip:
  assumes "in_calendar t"
  shows "parse_sql_utc (fmt_sql_utc t) = Some t"
  by (rule sql_time_parses [OF assms])

theorem sql_time_round_trip_witness:
  "parse_sql_utc (fmt_sql_utc 1709251199) = Some 1709251199"
  using sql_time_round_trip [of 1709251199] by (simp add: in_calendar_def)

text \<open>
  The switch of the process zone around \<^verbatim>\<open>localtime_r\<close> and \<^verbatim>\<open>mktime\<close>, on the process
  environment: what ran inside sees the wanted zone, and the environment is as before afterwards.
\<close>

definition with_tz :: "string \<Rightarrow> ((string \<Rightarrow> string option) \<Rightarrow> 'a) \<Rightarrow> (string \<Rightarrow> string option) \<Rightarrow> 'a \<times> (string \<Rightarrow> string option)" where
  "with_tz tz fn env =
     (let old = env ''TZ''; env1 = env(''TZ'' \<mapsto> tz)
      in (fn env1, case old of Some saved \<Rightarrow> env1(''TZ'' \<mapsto> saved) | None \<Rightarrow> env1(''TZ'' := None)))"

lemma with_tz_restores: "with_tz tz fn env = (fn (env(''TZ'' \<mapsto> tz)), env)"
  by (auto simp: with_tz_def Let_def fun_upd_idem split: option.splits)

end
