(* ===== verification/NW_Log.thy ===== *)
theory NW_Log imports NW_Time begin

text \<open>
  The log (\<^verbatim>\<open>src/daemon/logging.cpp\<close>): one line per message on the error output, with the UTC time of
  the call. The lines of concurrent calls are kept apart by a mutex that is held while a line is
  written, so the error output grows by whole lines.
\<close>

datatype LogLevel = Info | Warn | Error

definition level_str :: "LogLevel \<Rightarrow> string" where
  "level_str level = (case level of Info \<Rightarrow> ''INFO'' | Warn \<Rightarrow> ''WARN'' | Error \<Rightarrow> ''ERROR'')"

text \<open>\<open>t\<close> is the time of the call; \<^verbatim>\<open>msg.c_str()\<close> ends at the first null byte of the message.\<close>

definition log_line :: "LogLevel \<Rightarrow> string \<Rightarrow> int \<Rightarrow> string" where
  "log_line level msg t =
     (let tm = gmtime t
      in date_text tm @ ''T'' @ clock_text tm @ ''Z ['' @ level_str level @ ''] '' @ takeWhile (\<lambda>c. c \<noteq> CHR 0x00) msg @ [CHR 0x0A])"

definition log_msg :: "LogLevel \<Rightarrow> string \<Rightarrow> int \<Rightarrow> string \<Rightarrow> string" where
  "log_msg level msg t err = err @ log_line level msg t"

definition log_info :: "string \<Rightarrow> int \<Rightarrow> string \<Rightarrow> string" where "log_info m = log_msg Info m"
definition log_warn :: "string \<Rightarrow> int \<Rightarrow> string \<Rightarrow> string" where "log_warn m = log_msg Warn m"
definition log_error :: "string \<Rightarrow> int \<Rightarrow> string \<Rightarrow> string" where "log_error m = log_msg Error m"

text \<open>A message without a line end makes exactly one line.\<close>

lemma log_line_one_line:
  assumes "CHR 0x0A \<notin> set msg"
  shows "last (log_line level msg t) = CHR 0x0A \<and> CHR 0x0A \<notin> set (butlast (log_line level msg t))"
proof -
  have digits: "CHR 0x0A \<notin> set (show_nat n)" for n
    using show_nat_digits [of n] by (auto simp: isdigit_def)
  have nl: "CHR 0x0A \<notin> set (printf_d0 w i)" for w i
    by (simp add: printf_d0_def pad0_def digits)
  have "CHR 0x0A \<notin> set (level_str level)" by (cases level) (simp_all add: level_str_def)
  moreover have "CHR 0x0A \<notin> set (takeWhile (\<lambda>c. c \<noteq> CHR 0x00) msg)"
    using assms set_takeWhileD by fastforce
  ultimately show ?thesis
    by (simp add: log_line_def Let_def date_text_def clock_text_def nl butlast_append)
qed

end
