(* ===== verification/NW_Json.thy ===== *)
theory NW_Json imports NW_Num begin

text \<open>
  JSON values and the accessors the sources use on them (\<^verbatim>\<open>contains\<close>, \<^verbatim>\<open>operator[]\<close>,
  \<^verbatim>\<open>get<T>()\<close>, \<^verbatim>\<open>value(key, default)\<close>), with the exceptions they throw. An object keeps its
  members in key order, as the map inside the library does. Reading and printing a text are
  arguments of the functions that need them.
\<close>

datatype json =
    JNull
  | JBool bool
  | JInt int
  | JFloat double
  | JStr string
  | JArr "json list"
  | JObj "(string \<times> json) list"

type_synonym json_obj = "(string \<times> json) list"
type_synonym json_parser = "string \<Rightarrow> json result"
type_synonym json_printer = "json \<Rightarrow> string"

section \<open>Objects\<close>

text \<open>The order of \<^verbatim>\<open>std::less<std::string>\<close>: bytes as unsigned numbers.\<close>

fun str_less :: "string \<Rightarrow> string \<Rightarrow> bool" where
  "str_less [] t = (t \<noteq> [])"
| "str_less (a # s) [] = False"
| "str_less (a # s) (b # t) = (if a = b then str_less s t else code_of a < code_of b)"

fun obj_put :: "string \<Rightarrow> json \<Rightarrow> json_obj \<Rightarrow> json_obj" where
  "obj_put k v [] = [(k, v)]"
| "obj_put k v ((k', w) # o') =
     (if k = k' then (k, v) # o' else if str_less k k' then (k, v) # (k', w) # o' else (k', w) # obj_put k v o')"

text \<open>An object from an initializer list, later members never replacing earlier ones.\<close>

definition obj :: "(string \<times> json) list \<Rightarrow> json" where
  "obj kvs = JObj (foldl (\<lambda>m (k, v). if map_of m k = None then obj_put k v m else m) [] kvs)"

definition is_object :: "json \<Rightarrow> bool" where
  "is_object j = (case j of JObj _ \<Rightarrow> True | _ \<Rightarrow> False)"

definition is_string :: "json \<Rightarrow> bool" where
  "is_string j = (case j of JStr _ \<Rightarrow> True | _ \<Rightarrow> False)"

definition is_number :: "json \<Rightarrow> bool" where
  "is_number j = (case j of JInt _ \<Rightarrow> True | JFloat _ \<Rightarrow> True | _ \<Rightarrow> False)"

definition is_boolean :: "json \<Rightarrow> bool" where
  "is_boolean j = (case j of JBool _ \<Rightarrow> True | _ \<Rightarrow> False)"

text \<open>\<^verbatim>\<open>j.contains(k)\<close> with \<^verbatim>\<open>j[k]\<close>: the member, if \<^verbatim>\<open>j\<close> is an object that has it.\<close>

definition member :: "json \<Rightarrow> string \<Rightarrow> json option" where
  "member j k = (case j of JObj m \<Rightarrow> map_of m k | _ \<Rightarrow> None)"

definition has :: "json \<Rightarrow> string \<Rightarrow> bool" where
  "has j k \<longleftrightarrow> member j k \<noteq> None"

text \<open>\<^verbatim>\<open>j[k] = v\<close> on an object.\<close>

definition put :: "string \<Rightarrow> json \<Rightarrow> json \<Rightarrow> json" where
  "put k v j = (case j of JObj m \<Rightarrow> JObj (obj_put k v m) | _ \<Rightarrow> j)"

text \<open>The members of \<^verbatim>\<open>j.items()\<close>, for an object.\<close>

definition members :: "json \<Rightarrow> json_obj" where
  "members j = (case j of JObj m \<Rightarrow> m | _ \<Rightarrow> [])"

lemma member_JObj [simp]: "member (JObj m) k = map_of m k"
  by (simp add: member_def)

lemma map_of_obj_put [simp]: "map_of (obj_put k v m) k' = (if k' = k then Some v else map_of m k')"
  by (induction k v m rule: obj_put.induct) auto

lemma member_put [simp]: "is_object j \<Longrightarrow> member (put k v j) k' = (if k' = k then Some v else member j k')"
  by (cases j) (simp_all add: put_def is_object_def)

lemma is_object_put [simp]: "is_object (put k v j) = is_object j"
  by (cases j) (simp_all add: put_def is_object_def)

lemma is_object_JObj [simp]: "is_object (JObj m)"
  by (simp add: is_object_def)

lemma member_nonobject: "\<not> is_object j \<Longrightarrow> member j k = None"
  by (cases j) (simp_all add: member_def is_object_def)

text \<open>Key order is kept, so every key occurs once.\<close>

fun keys_sorted :: "json_obj \<Rightarrow> bool" where
  "keys_sorted [] = True"
| "keys_sorted [_] = True"
| "keys_sorted ((k, v) # (k', w) # m) = (str_less k k' \<and> keys_sorted ((k', w) # m))"

lemma str_less_irrefl [simp]: "\<not> str_less s s"
  by (induction s) auto

lemma code_of_inj: "code_of a = code_of b \<Longrightarrow> a = b"
  using of_char_eq_iff by blast

lemma str_less_trans: "str_less a b \<Longrightarrow> str_less b c \<Longrightarrow> str_less a c"
proof (induction a b arbitrary: c rule: str_less.induct)
  case (1 t)
  then show ?case by (cases c; cases t) auto
next
  case (2 a s)
  then show ?case by simp
next
  case (3 a s b t)
  then show ?case by (cases c) (auto split: if_splits)
qed

lemma str_less_linear: "str_less a b \<or> a = b \<or> str_less b a"
proof (induction a b rule: str_less.induct)
  case (1 t)
  then show ?case by (cases t) auto
next
  case (2 a s)
  then show ?case by simp
next
  case (3 a s b t)
  then show ?case using code_of_inj [of a b] nat_neq_iff [of "code_of a" "code_of b"] by (cases "a = b") auto
qed

lemma keys_sorted_Cons:
  "keys_sorted ((k, v) # m) \<longleftrightarrow> (\<forall>k'\<in>fst ` set m. str_less k k') \<and> keys_sorted m"
proof (induction m arbitrary: k v)
  case Nil
  then show ?case by simp
next
  case (Cons kv m)
  then show ?case by (cases kv) (auto intro: str_less_trans)
qed

lemma fst_obj_put: "fst ` set (obj_put k v m) = insert k (fst ` set m)"
  by (induction k v m rule: obj_put.induct) auto

lemma keys_sorted_obj_put: "keys_sorted m \<Longrightarrow> keys_sorted (obj_put k v m)"
proof (induction k v m rule: obj_put.induct)
  case (1 k v)
  then show ?case by simp
next
  case (2 k v k' w m)
  then show ?case using str_less_linear [of k k']
    by (auto simp: keys_sorted_Cons fst_obj_put intro: str_less_trans)
qed

lemma obj_put_last: "(\<forall>k'\<in>fst ` set m. str_less k' k) \<Longrightarrow> obj_put k v m = m @ [(k, v)]"
proof (induction k v m rule: obj_put.induct)
  case (1 k v)
  then show ?case by simp
next
  case (2 k v k' w m)
  then have "str_less k' k" by simp
  then have "k \<noteq> k'" "\<not> str_less k k'" using str_less_trans [of k' k k'] by auto
  then show ?case using 2 by simp
qed

text \<open>Objects with the same lookups are the same object.\<close>

lemma keys_sorted_ext: "keys_sorted m \<Longrightarrow> keys_sorted n \<Longrightarrow> map_of m = map_of n \<Longrightarrow> m = n"
proof (induction m arbitrary: n)
  case Nil
  then show ?case by (metis dom_empty dom_map_of_conv_image_fst empty_is_image map_of.simps(1) set_empty)
next
  case (Cons kv m)
  obtain k v where kv: "kv = (k, v)" by (cases kv)
  have dm: "fst ` set (kv # m) = fst ` set n"
    using Cons.prems(3) dom_map_of_conv_image_fst by metis
  then obtain k' v' n' where n: "n = (k', v') # n'" by (cases n) auto
  have less: "\<forall>x\<in>fst ` set m. str_less k x" "\<forall>x\<in>fst ` set n'. str_less k' x"
    and s: "keys_sorted m" "keys_sorted n'"
    using Cons.prems kv n by (auto simp: keys_sorted_Cons)
  have "k = k'"
  proof (rule ccontr)
    assume ne: "k \<noteq> k'"
    then have "k \<in> fst ` set n'" "k' \<in> fst ` set m" using dm kv n by auto
    then show False using less str_less_trans [of k k' k] by auto
  qed
  moreover have "v = v'" using fun_cong [OF Cons.prems(3), of k] kv n \<open>k = k'\<close> by simp
  moreover have "map_of m = map_of n'"
  proof
    fix x
    have "map_of m k = None" "map_of n' k = None"
      using less \<open>k = k'\<close> by (auto simp: map_of_eq_None_iff)
    then show "map_of m x = map_of n' x"
      using fun_cong [OF Cons.prems(3), of x] kv n \<open>k = k'\<close> by (cases "x = k") auto
  qed
  ultimately show ?case using Cons.IH [OF s] kv n by simp
qed

section \<open>Conversions\<close>

definition type_name :: "json \<Rightarrow> string" where
  "type_name j =
     (case j of JNull \<Rightarrow> ''null'' | JBool _ \<Rightarrow> ''boolean'' | JStr _ \<Rightarrow> ''string'' | JArr _ \<Rightarrow> ''array''
      | JObj _ \<Rightarrow> ''object'' | _ \<Rightarrow> ''number'')"

definition type_error :: "string \<Rightarrow> json \<Rightarrow> 'a result" where
  "type_error want j =
     throw (''[json.exception.type_error.302] type must be '' @ want @ '', but is '' @ type_name j)"

definition get_str :: "json \<Rightarrow> string result" where
  "get_str j = (case j of JStr s \<Rightarrow> ok s | _ \<Rightarrow> type_error ''string'' j)"

definition get_bool :: "json \<Rightarrow> bool result" where
  "get_bool j = (case j of JBool b \<Rightarrow> ok b | _ \<Rightarrow> type_error ''boolean'' j)"

definition double_of_int :: "int \<Rightarrow> double" where
  "double_of_int i = round_double (i < 0) (nat \<bar>i\<bar>) 1"

definition get_double :: "json \<Rightarrow> double result" where
  "get_double j =
     (case j of JInt i \<Rightarrow> ok (double_of_int i) | JFloat x \<Rightarrow> ok x | _ \<Rightarrow> type_error ''number'' j)"

text \<open>\<^verbatim>\<open>static_cast<int>\<close> of a floating-point number: towards zero.\<close>

definition dtrunc :: "double \<Rightarrow> int" where
  "dtrunc x = (case x of Fin s m e \<Rightarrow> sgn_nat s (num_of m e div den_of e) | _ \<Rightarrow> i32_min)"

definition get_int :: "json \<Rightarrow> int result" where
  "get_int j =
     (case j of JInt i \<Rightarrow> ok (to_i32 i) | JFloat x \<Rightarrow> ok (to_i32 (dtrunc x))
      | JBool b \<Rightarrow> ok (if b then 1 else 0) | _ \<Rightarrow> type_error ''number'' j)"

text \<open>\<^verbatim>\<open>j.value(k, d)\<close>: an error on anything but an object, else the member or the default.\<close>

definition value_or :: "(json \<Rightarrow> 'a result) \<Rightarrow> json \<Rightarrow> string \<Rightarrow> 'a \<Rightarrow> 'a result" where
  "value_or get j k d =
     (case j of
        JObj m \<Rightarrow> (case map_of m k of None \<Rightarrow> ok d | Some v \<Rightarrow> get v)
      | _ \<Rightarrow> throw (''[json.exception.type_error.306] cannot use value() with '' @ type_name j))"

text \<open>\<^verbatim>\<open>if (b.contains(k) && !b[k].is_null()) o = b[k].get<T>();\<close>\<close>

definition field :: "(json \<Rightarrow> 'a result) \<Rightarrow> json \<Rightarrow> string \<Rightarrow> 'a option result" where
  "field get j k =
     (case member j k of None \<Rightarrow> ok None | Some JNull \<Rightarrow> ok None
      | Some v \<Rightarrow> then_res (get v) (\<lambda>x. ok (Some x)))"

text \<open>\<^verbatim>\<open>j.contains(k) && j[k].is_string()\<close>, and \<^verbatim>\<open>v ? json(*v) : json(nullptr)\<close>.\<close>

definition str_member :: "json \<Rightarrow> string \<Rightarrow> string option" where
  "str_member j k = (case member j k of Some (JStr s) \<Rightarrow> Some s | _ \<Rightarrow> None)"

definition opt_json :: "('a \<Rightarrow> json) \<Rightarrow> 'a option \<Rightarrow> json" where
  "opt_json f v = (case v of None \<Rightarrow> JNull | Some x \<Rightarrow> f x)"

lemma get_simps [simp]:
  "get_str (JStr s) = ok s" "get_bool (JBool b) = ok b" "get_double (JFloat x) = ok x"
  by (simp_all add: get_str_def get_bool_def get_double_def)

lemma value_or_obj [simp]:
  "value_or get (JObj m) k d = (case map_of m k of None \<Rightarrow> ok d | Some v \<Rightarrow> get v)"
  by (simp add: value_or_def)

end
