(* ===== verification/NW_Sql.thy ===== *)
theory NW_Sql imports NW_Num begin

text \<open>
  The statements the database layer sends (\<^verbatim>\<open>src/db/database.cpp\<close>): their structure, the exact
  text the code builds from it with the escaping function of the client library, and the
  monad of the methods over a connection. A connection is an argument: a state of the server and
  what it replies to a statement. The scanner at the end is how the server reads a text into code
  and string literals; the texts of this program always read back as built.
\<close>

section \<open>Statements\<close>

text \<open>
  A value is a string literal the code escapes, a constant literal it writes between quotes, or
  a piece of SQL the code writes itself.
\<close>

datatype sql_val = VStr string | VLit string | VRaw string

text \<open>A condition: column, comparison as written with its blanks, value.\<close>

type_synonym sql_cond = "string \<times> string \<times> sql_val"

datatype sql_stmt =
    Insert bool string "string list" "sql_val list" "string list"
  | Update string "(string \<times> sql_val) list" "sql_cond list"
  | Delete string "sql_cond list"
  | Select "string list" string "sql_cond list" "(string \<times> bool) list" "int option"
  | Script string

abbreviation vnull :: sql_val where "vnull \<equiv> VRaw ''NULL''"
abbreviation vnow :: sql_val where "vnow \<equiv> VRaw ''UTC_TIMESTAMP()''"

definition vint :: "int \<Rightarrow> sql_val" where "vint i = VRaw (show_int i)"

text \<open>\<^verbatim>\<open>std::to_string(double)\<close> and \<^verbatim>\<open>ostream << double\<close>.\<close>

definition vdbl :: "double \<Rightarrow> sql_val" where "vdbl x = VRaw (to_string_double x)"
definition vout :: "double \<Rightarrow> sql_val" where "vout x = VRaw (ostream_double x)"

text \<open>The recurring \<^verbatim>\<open>s.empty() ? "NULL" : "'" + esc(s) + "'"\<close> and the timestamp variant.\<close>

definition vopt :: "string \<Rightarrow> sql_val" where
  "vopt s = (if s = [] then vnull else VStr s)"

definition vts :: "string \<Rightarrow> sql_val" where
  "vts s = (if s = [] then vnow else VStr s)"

section \<open>Text\<close>

fun join :: "'a list \<Rightarrow> 'a list list \<Rightarrow> 'a list" where
  "join sep [] = []"
| "join sep [x] = x"
| "join sep (x # y # r) = x @ sep @ join sep (y # r)"

definition val_text :: "(string \<Rightarrow> string) \<Rightarrow> sql_val \<Rightarrow> string" where
  "val_text esc v = (case v of VStr s \<Rightarrow> quoted (esc s) | VLit s \<Rightarrow> quoted s | VRaw r \<Rightarrow> r)"

definition cond_text :: "(string \<Rightarrow> string) \<Rightarrow> sql_cond \<Rightarrow> string" where
  "cond_text esc c = (case c of (col, cmp, v) \<Rightarrow> col @ cmp @ val_text esc v)"

definition where_text :: "(string \<Rightarrow> string) \<Rightarrow> sql_cond list \<Rightarrow> string" where
  "where_text esc cs = (if cs = [] then [] else '' WHERE '' @ join '' AND '' (map (cond_text esc) cs))"

definition order_text :: "(string \<times> bool) list \<Rightarrow> string" where
  "order_text os =
     (if os = [] then [] else '' ORDER BY '' @ join '', '' (map (\<lambda>(c, desc). if desc then c @ '' DESC'' else c) os))"

definition dup_text :: "string list \<Rightarrow> string" where
  "dup_text ups =
     (if ups = [] then []
      else '' ON DUPLICATE KEY UPDATE '' @ join '', '' (map (\<lambda>c. c @ ''=VALUES('' @ c @ '')'') ups))"

fun sql_text :: "(string \<Rightarrow> string) \<Rightarrow> sql_stmt \<Rightarrow> string" where
  "sql_text esc (Insert ign t cols vals ups) =
     ''INSERT '' @ (if ign then ''IGNORE '' else []) @ ''INTO '' @ t @ '' ('' @ join '', '' cols @ '') VALUES ('' @
     join '', '' (map (val_text esc) vals) @ '')'' @ dup_text ups"
| "sql_text esc (Update t sets conds) =
     ''UPDATE '' @ t @ '' SET '' @ join '', '' (map (\<lambda>(c, v). c @ ''='' @ val_text esc v) sets) @ where_text esc conds"
| "sql_text esc (Delete t conds) = ''DELETE FROM '' @ t @ where_text esc conds"
| "sql_text esc (Select cols t conds ord lim) =
     ''SELECT '' @ join '', '' cols @ '' FROM '' @ t @ where_text esc conds @ order_text ord @
     (case lim of None \<Rightarrow> [] | Some n \<Rightarrow> '' LIMIT '' @ show_int n)"
| "sql_text esc (Script t) = t"

section \<open>Connections\<close>

type_synonym cell = "string option"

datatype reply = Failed string | Rows "string list" "cell list list" | Done int int

text \<open>
  \<open>Rows names rows\<close> is a result set with its column names, \<open>Done affected insert_id\<close> the reply to a
  statement without one.
\<close>

type_synonym 's conn = "'s \<Rightarrow> sql_stmt \<Rightarrow> reply \<times> 's"

text \<open>The connection the program has: the text goes to the server.\<close>

definition text_conn :: "('s \<Rightarrow> string \<Rightarrow> reply \<times> 's) \<Rightarrow> (string \<Rightarrow> string) \<Rightarrow> 's conn" where
  "text_conn server esc s stmt = server s (sql_text esc stmt)"

type_synonym ('s, 'a) db = "'s \<Rightarrow> 'a result \<times> 's"

definition db_ret :: "'a \<Rightarrow> ('s, 'a) db" where
  "db_ret x s = (ok x, s)"

definition db_throw :: "string \<Rightarrow> ('s, 'a) db" where
  "db_throw e s = (throw e, s)"

definition db_bind :: "('s, 'a) db \<Rightarrow> ('a \<Rightarrow> ('s, 'b) db) \<Rightarrow> ('s, 'b) db" where
  "db_bind m f s = (case m s of (Inl e, s') \<Rightarrow> (Inl e, s') | (Inr x, s') \<Rightarrow> f x s')"

text \<open>\<^verbatim>\<open>try { m } catch (std::exception& e) { h(e.what()) }\<close>\<close>

definition db_catch :: "('s, 'a) db \<Rightarrow> (string \<Rightarrow> ('s, 'a) db) \<Rightarrow> ('s, 'a) db" where
  "db_catch m h s = (case m s of (Inl e, s') \<Rightarrow> h e s' | (Inr x, s') \<Rightarrow> (Inr x, s'))"

definition db_map :: "('a \<Rightarrow> 'b) \<Rightarrow> ('s, 'a) db \<Rightarrow> ('s, 'b) db" where
  "db_map f m = db_bind m (\<lambda>x. db_ret (f x))"

definition exec :: "'s conn \<Rightarrow> sql_stmt \<Rightarrow> ('s, reply) db" where
  "exec c stmt s =
     (case c s stmt of
        (Failed e, s') \<Rightarrow> (throw (''query failed: '' @ e), s')
      | (r, s') \<Rightarrow> (ok r, s'))"

definition run_stmt :: "'s conn \<Rightarrow> sql_stmt \<Rightarrow> ('s, unit) db" where
  "run_stmt c stmt = db_map (\<lambda>_. ()) (exec c stmt)"

text \<open>\<^verbatim>\<open>mysql_store_result\<close> after a query: no result set is an error with an empty message.\<close>

definition fetch :: "string \<Rightarrow> 's conn \<Rightarrow> sql_stmt \<Rightarrow> ('s, cell list list) db" where
  "fetch what c stmt =
     db_bind (exec c stmt) (\<lambda>r. case r of Rows _ rs \<Rightarrow> db_ret rs | _ \<Rightarrow> db_throw what)"

definition select :: "'s conn \<Rightarrow> sql_stmt \<Rightarrow> ('s, cell list list) db" where
  "select c stmt = fetch ''store_result: '' c stmt"

definition affected_rows :: "reply \<Rightarrow> int" where
  "affected_rows r = (case r of Done a _ \<Rightarrow> a | Rows _ rs \<Rightarrow> int (length rs) | Failed _ \<Rightarrow> - 1)"

definition insert_id :: "reply \<Rightarrow> int" where
  "insert_id r = (case r of Done _ i \<Rightarrow> i | _ \<Rightarrow> 0)"

section \<open>Reading cells\<close>

definition cell :: "cell list \<Rightarrow> nat \<Rightarrow> cell" where
  "cell row i = (if i < length row then row ! i else None)"

definition str_cell :: "cell list \<Rightarrow> nat \<Rightarrow> string" where
  "str_cell row i = (case cell row i of None \<Rightarrow> [] | Some s \<Rightarrow> s)"

definition ll_cell :: "cell list \<Rightarrow> nat \<Rightarrow> int" where
  "ll_cell row i = (case cell row i of None \<Rightarrow> 0 | Some s \<Rightarrow> atoll s)"

definition int_cell_or :: "int \<Rightarrow> cell list \<Rightarrow> nat \<Rightarrow> int" where
  "int_cell_or d row i = (case cell row i of None \<Rightarrow> d | Some s \<Rightarrow> atoi s)"

definition int_cell :: "cell list \<Rightarrow> nat \<Rightarrow> int option" where
  "int_cell row i = map_option atoi (cell row i)"

definition dbl_cell :: "cell list \<Rightarrow> nat \<Rightarrow> double option" where
  "dbl_cell row i = map_option atof (cell row i)"

definition dbl_cell0 :: "cell list \<Rightarrow> nat \<Rightarrow> double" where
  "dbl_cell0 row i = (case cell row i of None \<Rightarrow> dzero | Some s \<Rightarrow> atof s)"

section \<open>How the server reads a text\<close>

text \<open>Characters of code, and string literals with their contents.\<close>

datatype piece = Code char | Lit string

definition unescape :: "char \<Rightarrow> char" where
  "unescape c =
     (if c = CHR ''0'' then CHR 0x00 else if c = CHR ''n'' then CHR 0x0A else if c = CHR ''r'' then CHR 0x0D
      else if c = CHR ''Z'' then CHR 0x1A else if c = CHR ''t'' then CHR 0x09 else if c = CHR ''b'' then CHR 0x08
      else c)"

text \<open>The inside of a literal: content and rest, \<open>None\<close> when it is not closed.\<close>

fun scan_lit_body :: "string \<Rightarrow> (string \<times> string) option" where
  "scan_lit_body [] = None"
| "scan_lit_body (c # r) =
     (if c = CHR 0x27
      then (case r of
              [] \<Rightarrow> Some ([], [])
            | d # r' \<Rightarrow> if d = CHR 0x27 then map_option (\<lambda>(s, t). (CHR 0x27 # s, t)) (scan_lit_body r')
                      else Some ([], r))
      else if c = CHR 0x5C
      then (case r of [] \<Rightarrow> None | d # r' \<Rightarrow> map_option (\<lambda>(s, t). (unescape d # s, t)) (scan_lit_body r'))
      else map_option (\<lambda>(s, t). (c # s, t)) (scan_lit_body r))"

lemma scan_lit_body_length: "scan_lit_body s = Some (a, b) \<Longrightarrow> length b < length s"
  by (induction s arbitrary: a b rule: scan_lit_body.induct)
    (auto split: if_splits list.splits simp: less_Suc_eq_le, fastforce+)

function scan :: "string \<Rightarrow> piece list option" where
  "scan [] = Some []"
| "scan (c # r) =
     (if c = CHR 0x27
      then (case scan_lit_body r of
              None \<Rightarrow> None
            | Some (s, t) \<Rightarrow> map_option (\<lambda>ps. Lit s # ps) (scan t))
      else map_option (\<lambda>ps. Code c # ps) (scan r))"
  by pat_completeness auto
termination
  by (relation "measure length") (auto dest: scan_lit_body_length)

section \<open>Texts read back as built\<close>

text \<open>What the program means a statement to be: its own code, and each string as one literal.\<close>

definition code :: "string \<Rightarrow> piece list" where
  "code s = map Code s"

definition val_pieces :: "sql_val \<Rightarrow> piece list" where
  "val_pieces v = (case v of VStr s \<Rightarrow> [Lit s] | VLit s \<Rightarrow> [Lit s] | VRaw r \<Rightarrow> code r)"

definition cond_pieces :: "sql_cond \<Rightarrow> piece list" where
  "cond_pieces c = (case c of (col, cmp, v) \<Rightarrow> code col @ code cmp @ val_pieces v)"

definition where_pieces :: "sql_cond list \<Rightarrow> piece list" where
  "where_pieces cs = (if cs = [] then [] else code '' WHERE '' @ join (code '' AND '') (map cond_pieces cs))"

fun sql_pieces :: "sql_stmt \<Rightarrow> piece list" where
  "sql_pieces (Insert ign t cols vals ups) =
     code (''INSERT '' @ (if ign then ''IGNORE '' else []) @ ''INTO '' @ t @ '' ('' @ join '', '' cols @ '') VALUES ('') @
     join (code '', '') (map val_pieces vals) @ code ('')'' @ dup_text ups)"
| "sql_pieces (Update t sets conds) =
     code (''UPDATE '' @ t @ '' SET '') @
     join (code '', '') (map (\<lambda>(c, v). code (c @ ''='') @ val_pieces v) sets) @ where_pieces conds"
| "sql_pieces (Delete t conds) = code (''DELETE FROM '' @ t) @ where_pieces conds"
| "sql_pieces (Select cols t conds ord lim) =
     code (''SELECT '' @ join '', '' cols @ '' FROM '' @ t) @ where_pieces conds @ code (order_text ord) @
     code (case lim of None \<Rightarrow> [] | Some n \<Rightarrow> '' LIMIT '' @ show_int n)"
| "sql_pieces (Script t) = code t"

text \<open>
  What the escaping function promises: an escaped text between single quotes is one literal with
  the original text, whatever follows.
\<close>

definition esc_ok :: "(string \<Rightarrow> string) \<Rightarrow> bool" where
  "esc_ok esc \<longleftrightarrow> (\<forall>s rest. (rest = [] \<or> hd rest \<noteq> CHR 0x27) \<longrightarrow>
     scan_lit_body (esc s @ CHR 0x27 # rest) = Some (s, rest))"

text \<open>The code the program writes itself contains no quote.\<close>

definition plain :: "string \<Rightarrow> bool" where
  "plain s \<longleftrightarrow> CHR 0x27 \<notin> set s"

definition plain_val :: "sql_val \<Rightarrow> bool" where
  "plain_val v = (case v of VStr _ \<Rightarrow> True | VLit s \<Rightarrow> plain s \<and> CHR 0x5C \<notin> set s | VRaw r \<Rightarrow> plain r)"

definition plain_cond :: "sql_cond \<Rightarrow> bool" where
  "plain_cond c = (case c of (col, cmp, v) \<Rightarrow> plain col \<and> plain cmp \<and> plain_val v)"

fun plain_stmt :: "sql_stmt \<Rightarrow> bool" where
  "plain_stmt (Insert ign t cols vals ups) \<longleftrightarrow>
     plain t \<and> list_all plain cols \<and> list_all plain_val vals \<and> list_all plain ups"
| "plain_stmt (Update t sets conds) \<longleftrightarrow>
     plain t \<and> list_all (\<lambda>(c, v). plain c \<and> plain_val v) sets \<and> list_all plain_cond conds"
| "plain_stmt (Delete t conds) \<longleftrightarrow> plain t \<and> list_all plain_cond conds"
| "plain_stmt (Select cols t conds ord lim) \<longleftrightarrow>
     list_all plain cols \<and> plain t \<and> list_all plain_cond conds \<and> list_all (\<lambda>(c, d). plain c) ord"
| "plain_stmt (Script t) \<longleftrightarrow> plain t"

lemma plain_append [simp]: "plain (a @ b) \<longleftrightarrow> plain a \<and> plain b"
  by (simp add: plain_def)

lemma plain_Nil [simp]: "plain []"
  by (simp add: plain_def)

lemma plain_Cons [simp]: "plain (c # s) \<longleftrightarrow> c \<noteq> CHR 0x27 \<and> plain s"
  by (auto simp: plain_def)

lemma plain_join: "plain sep \<Longrightarrow> list_all plain xs \<Longrightarrow> plain (join sep xs)"
  by (induction sep xs rule: join.induct) (auto simp: plain_def)

lemma plain_show_int: "plain (show_int i)"
proof -
  have "plain (show_nat n)" for n
    using show_nat_digits [of n] by (auto simp: plain_def isdigit_def)
  moreover have "plain ''-''" by (simp add: plain_def)
  ultimately show ?thesis using plain_append [of "''-''"] by (simp add: show_int_def)
qed

text \<open>
  \<open>reads a p\<close>: the text \<open>a\<close> is read as \<open>p\<close> in front of anything that does not start with a quote;
  plain code is read so in front of anything.
\<close>

definition reads :: "string \<Rightarrow> piece list \<Rightarrow> bool" where
  "reads a p \<longleftrightarrow> (\<forall>rest ps. (rest = [] \<or> hd rest \<noteq> CHR 0x27) \<longrightarrow> scan rest = Some ps \<longrightarrow>
     scan (a @ rest) = Some (p @ ps))"

lemma scan_code: "plain a \<Longrightarrow> scan rest = Some ps \<Longrightarrow> scan (a @ rest) = Some (code a @ ps)"
  by (induction a) (auto simp: plain_def code_def)

lemma reads_code: "plain a \<Longrightarrow> reads a (code a)"
  by (simp add: reads_def scan_code)

lemma reads_code_append: "plain a \<Longrightarrow> reads b p \<Longrightarrow> reads (a @ b) (code a @ p)"
  by (simp add: reads_def scan_code)

lemma reads_append_code:
  assumes "reads a p" and "plain b" and "reads (b @ c) q" and "b \<noteq> []"
  shows "reads (a @ b @ c) (p @ q)"
  using assms by (cases b) (auto simp: reads_def plain_def)

lemma reads_Nil: "reads [] []"
  by (simp add: reads_def)

lemma scan_lit_plain:
  "plain s \<Longrightarrow> CHR 0x5C \<notin> set s \<Longrightarrow> rest = [] \<or> hd rest \<noteq> CHR 0x27 \<Longrightarrow>
   scan_lit_body (s @ CHR 0x27 # rest) = Some (s, rest)"
  by (induction s) (auto simp: plain_def split: list.splits)

lemma reads_val: "esc_ok esc \<Longrightarrow> plain_val v \<Longrightarrow> reads (val_text esc v) (val_pieces v)"
proof (cases v)
  case (VStr s)
  assume e: "esc_ok esc"
  show ?thesis
    using e by (auto simp: VStr reads_def val_text_def val_pieces_def quoted_def esc_ok_def)
next
  case (VLit s)
  assume "plain_val v"
  then show ?thesis
    by (auto simp: VLit reads_def val_text_def val_pieces_def quoted_def plain_val_def scan_lit_plain)
next
  case (VRaw r)
  assume "plain_val v"
  then show ?thesis using reads_code by (simp add: VRaw plain_val_def val_text_def val_pieces_def)
qed

lemma reads_join:
  assumes "plain sep" and "sep \<noteq> []" and "\<And>x. x \<in> set xs \<Longrightarrow> reads (f x) (g x)"
  shows "reads (join sep (map f xs)) (join (code sep) (map g xs))"
  using assms(3)
proof (induction xs rule: induct_list012)
  case 1
  show ?case by (simp add: reads_Nil)
next
  case (2 x)
  then show ?case by simp
next
  case (3 x y zs)
  have "reads (f x) (g x)" using "3.prems" by simp
  moreover have "reads (sep @ join sep (map f (y # zs))) (code sep @ join (code sep) (map g (y # zs)))"
    using "3.prems" "3.IH"(2) by (intro reads_code_append [OF assms(1)]) simp
  ultimately have "reads (f x @ sep @ join sep (map f (y # zs))) (g x @ code sep @ join (code sep) (map g (y # zs)))"
    using assms(1,2) by (intro reads_append_code)
  then show ?case by simp
qed

lemma reads_cond: "esc_ok esc \<Longrightarrow> plain_cond c \<Longrightarrow> reads (cond_text esc c) (cond_pieces c)"
  by (cases c) (auto simp: plain_cond_def cond_text_def cond_pieces_def intro!: reads_code_append reads_val)

lemma plain_strs: "plain '' WHERE ''" "plain '' AND ''" "plain '', ''" "plain ''=''"
  by (simp_all add: plain_def)

lemma reads_where:
  assumes "esc_ok esc" and "list_all plain_cond cs"
  shows "reads (where_text esc cs) (where_pieces cs)"
proof (cases "cs = []")
  case True
  then show ?thesis by (simp add: where_text_def where_pieces_def reads_Nil)
next
  case False
  have "reads (join '' AND '' (map (cond_text esc) cs)) (join (code '' AND '') (map cond_pieces cs))"
    using assms by (intro reads_join reads_cond) (auto simp: plain_strs list_all_iff)
  from reads_code_append [OF plain_strs(1) this] False show ?thesis
    by (simp add: where_text_def where_pieces_def)
qed

lemma reads_where_code:
  assumes "reads a p" and "esc_ok esc" and "list_all plain_cond cs"
  shows "reads (a @ where_text esc cs) (p @ where_pieces cs)"
proof (cases "cs = []")
  case True
  then show ?thesis using assms(1) by (simp add: where_text_def where_pieces_def)
next
  case False
  have "reads ('' WHERE '' @ join '' AND '' (map (cond_text esc) cs)) (where_pieces cs)"
    using reads_where [OF assms(2,3)] False by (simp add: where_text_def)
  from reads_append_code [OF assms(1) plain_strs(1) this] False show ?thesis by (simp add: where_text_def)
qed

lemma reads_then_code: "reads a p \<Longrightarrow> plain b \<Longrightarrow> reads (a @ b) (p @ code b)"
  using reads_append_code [of a p b "[]" "code b"] reads_code [of b]
  by (cases "b = []") (auto simp: code_def)

lemma plain_dup: "list_all plain ups \<Longrightarrow> plain (dup_text ups)"
proof -
  assume u: "list_all plain ups"
  have "plain (c @ ''=VALUES('' @ c @ '')'')" if "plain c" for c
    using that by (simp add: plain_def)
  then have "plain (join '', '' (map (\<lambda>c. c @ ''=VALUES('' @ c @ '')'') ups))"
    using u by (intro plain_join) (auto simp: plain_strs list_all_iff simp del: plain_append)
  then show ?thesis by (simp add: dup_text_def)
qed

lemma plain_order: "list_all (\<lambda>(c, d). plain c) ord \<Longrightarrow> plain (order_text ord)"
proof -
  assume u: "list_all (\<lambda>(c, d). plain c) ord"
  have "plain (if d then c @ '' DESC'' else c)" if "plain c" for c d
    using that by (simp add: plain_def)
  then have "plain (join '', '' (map (\<lambda>(c, d). if d then c @ '' DESC'' else c) ord))"
    using u by (intro plain_join) (auto simp: plain_strs list_all_iff simp del: plain_append)
  then show ?thesis by (simp add: order_text_def)
qed

lemma reads_stmt:
  assumes e: "esc_ok esc" and p: "plain_stmt stmt"
  shows "reads (sql_text esc stmt) (sql_pieces stmt)"
proof (cases stmt)
  case (Insert ign t cols vals ups)
  have v: "reads (join '', '' (map (val_text esc) vals)) (join (code '', '') (map val_pieces vals))"
    using p Insert by (intro reads_join reads_val e) (auto simp: plain_strs list_all_iff)
  have "plain ('')'' @ dup_text ups)" using p Insert plain_dup by (simp add: plain_def)
  from reads_then_code [OF v this]
  have r: "reads (join '', '' (map (val_text esc) vals) @ '')'' @ dup_text ups)
      (join (code '', '') (map val_pieces vals) @ code ('')'' @ dup_text ups))" .
  have "plain (''INSERT '' @ (if ign then ''IGNORE '' else []) @ ''INTO '' @ t @ '' ('' @ join '', '' cols @ '') VALUES ('')"
    using p Insert plain_join [OF plain_strs(3)] by (simp add: plain_def)
  from reads_code_append [OF this r] show ?thesis by (simp add: Insert)
next
  case (Update t sets conds)
  have "reads (join '', '' (map (\<lambda>(c, v). c @ ''='' @ val_text esc v) sets))
      (join (code '', '') (map (\<lambda>(c, v). code (c @ ''='') @ val_pieces v) sets))"
  proof (intro reads_join)
    fix x assume "x \<in> set sets"
    then obtain c v where x: "x = (c, v)" "plain c" "plain_val v"
      using p Update by (cases x) (auto simp: list_all_iff)
    show "reads (case x of (c, v) \<Rightarrow> c @ ''='' @ val_text esc v) (case x of (c, v) \<Rightarrow> code (c @ ''='') @ val_pieces v)"
      using reads_code_append [OF _ reads_val [OF e x(3)], of "c @ ''=''"] x by (simp add: plain_strs)
  qed (simp_all add: plain_strs)
  from reads_where_code [OF this e]
  have r: "reads (join '', '' (map (\<lambda>(c, v). c @ ''='' @ val_text esc v) sets) @ where_text esc conds)
      (join (code '', '') (map (\<lambda>(c, v). code (c @ ''='') @ val_pieces v) sets) @ where_pieces conds)"
    using p Update by simp
  have "plain (''UPDATE '' @ t @ '' SET '')" using p Update by (simp add: plain_def)
  from reads_code_append [OF this r] show ?thesis by (simp add: Update)
next
  case (Delete t conds)
  have "plain (''DELETE FROM '' @ t)" using p Delete by (simp add: plain_def)
  from reads_where_code [OF reads_code [OF this] e] p show ?thesis by (simp add: Delete)
next
  case (Select cols t conds ord lim)
  have "plain (''SELECT '' @ join '', '' cols @ '' FROM '' @ t)"
    using p Select plain_join [OF plain_strs(3)] by (simp add: plain_def)
  from reads_where_code [OF reads_code [OF this] e, of conds] p Select
  have r: "reads ((''SELECT '' @ join '', '' cols @ '' FROM '' @ t) @ where_text esc conds)
      (code (''SELECT '' @ join '', '' cols @ '' FROM '' @ t) @ where_pieces conds)" by simp
  have o: "plain (order_text ord)" using p Select plain_order by simp
  have l: "plain (case lim of None \<Rightarrow> [] | Some n \<Rightarrow> '' LIMIT '' @ show_int n)"
    using plain_show_int by (auto simp: plain_def split: option.splits)
  from reads_then_code [OF reads_then_code [OF r o] l] show ?thesis by (simp add: Select)
next
  case (Script t)
  then show ?thesis using p reads_code by simp
qed

lemma sql_text_reads: "esc_ok esc \<Longrightarrow> plain_stmt stmt \<Longrightarrow> scan (sql_text esc stmt) = Some (sql_pieces stmt)"
  using reads_stmt [of esc stmt] by (auto simp: reads_def dest: spec [of _ "[]"])



text \<open>The escaping the client library documents: a backslash before NUL, newline, return, backslash, quotes and Ctrl-Z.\<close>

definition mysql_esc_chr :: "char \<Rightarrow> string" where
  "mysql_esc_chr c =
     (if c = CHR 0x00 then [CHR 0x5C, CHR ''0''] else if c = CHR 0x0A then [CHR 0x5C, CHR ''n'']
      else if c = CHR 0x0D then [CHR 0x5C, CHR ''r''] else if c = CHR 0x1A then [CHR 0x5C, CHR ''Z'']
      else if c = CHR 0x5C \<or> c = CHR 0x27 \<or> c = CHR 0x22 then [CHR 0x5C, c] else [c])"

definition mysql_esc :: "string \<Rightarrow> string" where
  "mysql_esc s = concat (map mysql_esc_chr s)"

lemma mysql_esc_ok: "esc_ok mysql_esc"
proof -
  have "scan_lit_body (mysql_esc s @ CHR 0x27 # rest) = Some (s, rest)"
    if "rest = [] \<or> hd rest \<noteq> CHR 0x27" for s rest
    by (induction s) (use that in \<open>auto simp: mysql_esc_def mysql_esc_chr_def unescape_def split: list.splits\<close>)
  then show ?thesis by (simp add: esc_ok_def)
qed


end
