(* ===== verification/NW_Database.thy ===== *)
theory NW_Database imports NW_Sql NW_Protocol begin

text \<open>
  The methods of \<^verbatim>\<open>Database\<close> (\<^verbatim>\<open>src/db/database.cpp\<close>, records of \<^verbatim>\<open>src/db/database.hpp\<close>) over a
  connection: the statement each sends, what it makes of the reply, and every error it throws.
  Optional members are options, strings that may be NULL come back empty, as in the source.
\<close>

section \<open>Connection parameters\<close>

record DbConfig =
  dbc_host :: string
  dbc_port :: int
  dbc_user :: string
  dbc_password :: string
  dbc_database :: string

definition db_config_from_env :: "(string \<Rightarrow> string option) \<Rightarrow> DbConfig" where
  "db_config_from_env env =
     \<lparr>dbc_host = (case env ''NW_DB_HOST'' of None \<Rightarrow> ''localhost'' | Some v \<Rightarrow> v),
      dbc_port = (case env ''NW_DB_PORT'' of None \<Rightarrow> 3306 | Some v \<Rightarrow> to_u16 (atoi v)),
      dbc_user = (case env ''NW_DB_USER'' of None \<Rightarrow> ''nightwatcher'' | Some v \<Rightarrow> v),
      dbc_password = (case env ''NW_DB_PASSWORD'' of None \<Rightarrow> [] | Some v \<Rightarrow> v),
      dbc_database = (case env ''NW_DB_NAME'' of None \<Rightarrow> ''nightwatcher'' | Some v \<Rightarrow> v)\<rparr>"

text \<open>The convenience form host:port, for exactly one colon and a decimal suffix.\<close>

definition db_endpoint :: "DbConfig \<Rightarrow> string \<times> int" where
  "db_endpoint cfg =
     (let host = dbc_host cfg
      in if count_list host CHR '':'' = 1
         then case find_chr CHR '':'' host of
             None \<Rightarrow> (host, dbc_port cfg)
           | Some colon \<Rightarrow>
               let p = substr host (colon + 1)
               in if p \<noteq> [] \<and> list_all isdigit p
                  then (substr_n host 0 colon, uint (word_of_int (atoi p) :: 32 word))
                  else (host, dbc_port cfg)
         else (host, dbc_port cfg))"

section \<open>Rows and editable fields\<close>

record SensorRow =
  sn_id :: string
  sn_name :: string
  sn_site :: string
  sn_serial_number :: string
  sn_model :: string
  sn_protocol_ver :: "int option"
  sn_feature_ver :: "int option"
  sn_latitude :: "double option"
  sn_longitude :: "double option"
  sn_elevation_m :: "double option"
  sn_timezone :: string
  sn_transport :: string
  sn_address :: string
  sn_poll_interval_s :: int
  sn_status :: string
  sn_installed_at :: string
  sn_notes :: string
  sn_created_at :: string

record SensorFields =
  sf_name :: "string option"
  sf_site :: "string option"
  sf_serial_number :: "string option"
  sf_model :: "string option"
  sf_protocol_ver :: "int option"
  sf_feature_ver :: "int option"
  sf_latitude :: "double option"
  sf_longitude :: "double option"
  sf_elevation_m :: "double option"
  sf_timezone :: "string option"
  sf_transport :: "string option"
  sf_address :: "string option"
  sf_poll_interval_s :: "int option"
  sf_status :: "string option"
  sf_installed_at :: "string option"
  sf_notes :: "string option"

record WeatherStationRow =
  ws_id :: string
  ws_name :: string
  ws_site :: string
  ws_model :: string
  ws_provider :: string
  ws_config :: string
  ws_transport :: string
  ws_address :: string
  ws_latitude :: "double option"
  ws_longitude :: "double option"
  ws_elevation_m :: "double option"
  ws_timezone :: string
  ws_poll_interval_s :: int
  ws_status :: string
  ws_installed_at :: string
  ws_notes :: string
  ws_created_at :: string

record WeatherStationFields =
  wf_name :: "string option"
  wf_site :: "string option"
  wf_model :: "string option"
  wf_provider :: "string option"
  wf_config :: "string option"
  wf_transport :: "string option"
  wf_address :: "string option"
  wf_latitude :: "double option"
  wf_longitude :: "double option"
  wf_elevation_m :: "double option"
  wf_timezone :: "string option"
  wf_poll_interval_s :: "int option"
  wf_status :: "string option"
  wf_installed_at :: "string option"
  wf_notes :: "string option"

record WeatherReadingRow =
  wr_id :: int
  wr_station_id :: string
  wr_ts_utc :: string
  wr_temp_c :: "double option"
  wr_humidity_pct :: "double option"
  wr_dew_point_c :: "double option"
  wr_pressure_hpa :: "double option"
  wr_pressure_abs_hpa :: "double option"
  wr_wind_speed_ms :: "double option"
  wr_wind_gust_ms :: "double option"
  wr_wind_dir_deg :: "int option"
  wr_rain_rate_mmh :: "double option"
  wr_rain_daily_mm :: "double option"
  wr_uv_index :: "double option"
  wr_solar_wm2 :: "double option"
  wr_cloud_cover_pct :: "double option"
  wr_source :: string
  wr_raw :: string

record ExportTargetRow =
  et_id :: string
  et_sensor_id :: string
  et_name :: string
  et_target :: string
  et_config :: string
  et_schedule :: string
  et_schedule_time :: string
  et_interval_s :: "int option"
  et_schedule_day :: "int option"
  et_last_export_ts :: string
  et_status :: string
  et_notes :: string
  et_created_at :: string

record ExportTargetFields =
  ef_sensor_id :: "string option"
  ef_name :: "string option"
  ef_target :: "string option"
  ef_config :: "string option"
  ef_schedule :: "string option"
  ef_schedule_time :: "string option"
  ef_interval_s :: "int option"
  ef_schedule_day :: "int option"
  ef_status :: "string option"
  ef_notes :: "string option"

record ExportLogRow =
  el_id :: int
  el_target_id :: string
  el_ts_utc :: string
  el_from_ts :: string
  el_to_ts :: string
  el_row_count :: int
  el_file_name :: string
  el_remote_id :: string
  el_status :: string
  el_detail :: string

record TableCount =
  tc_table :: string
  tc_rows :: int
  tc_present :: bool

record EventRow =
  ev_id :: int
  ev_ts_utc :: string
  ev_device_id :: string
  ev_source :: string
  ev_level :: string
  ev_event :: string
  ev_detail :: string

record ConfigLogRow =
  cl_id :: int
  cl_ts_utc :: string
  cl_event_type :: string
  cl_light_cal_offset :: "double option"
  cl_dark_cal_period_s :: "double option"
  cl_temp_light_c :: "double option"
  cl_sensor_offset :: "double option"
  cl_temp_dark_c :: "double option"
  cl_interval_s :: "int option"
  cl_threshold :: "double option"
  cl_raw :: string
  cl_changed_by :: string
  cl_note :: string

record UserRow =
  us_id :: int
  us_username :: string
  us_password_hash :: string
  us_role :: string
  us_must_change_password :: bool
  us_created_at :: string

record SessionInfo =
  si_user_id :: int
  si_username :: string
  si_role :: string

record ReadingRow =
  rr_id :: int
  rr_sensor_id :: string
  rr_ts_utc :: string
  rr_mag_arcsec2 :: double
  rr_freq_hz :: int
  rr_period_counts :: int
  rr_period_s :: double
  rr_temp_c :: double
  rr_quality :: string
  rr_source :: string
  rr_raw_line :: string

record ExtensionRow =
  ex_name :: string
  ex_label :: string
  ex_version :: string
  ex_data_table :: string
  ex_host :: string
  ex_pid :: "int option"
  ex_status :: string
  ex_last_heartbeat :: string
  ex_started_at :: string
  ex_heartbeat_age_s :: int

record TableData =
  td_columns :: "string list"
  td_rows :: "cell list list"

section \<open>Building blocks the methods repeat\<close>

definition opt_str :: "string \<Rightarrow> string option \<Rightarrow> string \<times> sql_val option" where
  "opt_str c v = (c, map_option VStr v)"

definition opt_int :: "string \<Rightarrow> int option \<Rightarrow> string \<times> sql_val option" where
  "opt_int c v = (c, map_option vint v)"

definition opt_dbl :: "string \<Rightarrow> double option \<Rightarrow> string \<times> sql_val option" where
  "opt_dbl c v = (c, map_option vdbl v)"

definition given :: "(string \<times> sql_val option) list \<Rightarrow> (string \<times> sql_val) list" where
  "given fs = List.map_filter (\<lambda>(c, v). map_option (Pair c) v) fs"

definition by_id :: "string \<Rightarrow> sql_cond list" where
  "by_id id0 = [(''id'', ''='', VStr id0)]"

text \<open>\<^verbatim>\<open>INSERT ... ON DUPLICATE KEY UPDATE\<close> of the given fields only.\<close>

definition upsert_stmt :: "string \<Rightarrow> string \<Rightarrow> (string \<times> sql_val) list \<Rightarrow> sql_stmt" where
  "upsert_stmt t id0 sets = Insert False t (''id'' # map fst sets) (VStr id0 # map snd sets) (map fst sets)"

text \<open>\<^verbatim>\<open>if (!find(id)) return false; ... if (sets.empty()) return true; UPDATE ...; return true;\<close>\<close>

definition update_with ::
  "'s conn \<Rightarrow> string \<Rightarrow> ('s, 'r option) db \<Rightarrow> string \<Rightarrow> (string \<times> sql_val) list \<Rightarrow> ('s, bool) db" where
  "update_with c t finder id0 sets =
     db_bind finder (\<lambda>found.
       case found of
         None \<Rightarrow> db_ret False
       | Some _ \<Rightarrow>
           if sets = [] then db_ret True
           else db_bind (run_stmt c (Update t sets (by_id id0))) (\<lambda>_. db_ret True))"

definition fetch_all :: "'s conn \<Rightarrow> (cell list \<Rightarrow> 'r) \<Rightarrow> sql_stmt \<Rightarrow> ('s, 'r list) db" where
  "fetch_all c from_row stmt = db_map (map from_row) (select c stmt)"

definition first_row :: "(cell list \<Rightarrow> 'r) \<Rightarrow> cell list list \<Rightarrow> 'r option" where
  "first_row from_row rs = (case rs of [] \<Rightarrow> None | r # _ \<Rightarrow> Some (from_row r))"

definition fetch_first :: "'s conn \<Rightarrow> (cell list \<Rightarrow> 'r) \<Rightarrow> sql_stmt \<Rightarrow> ('s, 'r option) db" where
  "fetch_first c from_row stmt = db_map (first_row from_row) (select c stmt)"

definition at_least_1 :: "int \<Rightarrow> int" where
  "at_least_1 n = (if n < 1 then 1 else n)"

section \<open>Sensors\<close>

definition kSensorCols :: "string list" where
  "kSensorCols = [''id'', ''name'', ''site'', ''serial_number'', ''model'', ''protocol_ver'', ''feature_ver'',
     ''latitude'', ''longitude'', ''elevation_m'', ''timezone'', ''transport'', ''address'', ''poll_interval_s'',
     ''status'', ''installed_at'', ''notes'', ''created_at'']"

definition sensor_from_row :: "cell list \<Rightarrow> SensorRow" where
  "sensor_from_row row =
     \<lparr>sn_id = str_cell row 0, sn_name = str_cell row 1, sn_site = str_cell row 2,
      sn_serial_number = str_cell row 3, sn_model = str_cell row 4, sn_protocol_ver = int_cell row 5,
      sn_feature_ver = int_cell row 6, sn_latitude = dbl_cell row 7, sn_longitude = dbl_cell row 8,
      sn_elevation_m = dbl_cell row 9, sn_timezone = str_cell row 10, sn_transport = str_cell row 11,
      sn_address = str_cell row 12, sn_poll_interval_s = int_cell_or 300 row 13,
      sn_status = str_cell row 14, sn_installed_at = str_cell row 15, sn_notes = str_cell row 16,
      sn_created_at = str_cell row 17\<rparr>"

definition sensor_sets :: "SensorFields \<Rightarrow> (string \<times> sql_val) list" where
  "sensor_sets f = given
     [opt_str ''name'' (sf_name f), opt_str ''site'' (sf_site f),
      opt_str ''serial_number'' (sf_serial_number f), opt_str ''model'' (sf_model f),
      opt_int ''protocol_ver'' (sf_protocol_ver f), opt_int ''feature_ver'' (sf_feature_ver f),
      opt_dbl ''latitude'' (sf_latitude f), opt_dbl ''longitude'' (sf_longitude f),
      opt_dbl ''elevation_m'' (sf_elevation_m f), opt_str ''timezone'' (sf_timezone f),
      opt_str ''transport'' (sf_transport f), opt_str ''address'' (sf_address f),
      opt_int ''poll_interval_s'' (sf_poll_interval_s f), opt_str ''status'' (sf_status f),
      opt_str ''installed_at'' (sf_installed_at f), opt_str ''notes'' (sf_notes f)]"

definition upsert_sensor :: "'s conn \<Rightarrow> string \<Rightarrow> SensorFields \<Rightarrow> ('s, unit) db" where
  "upsert_sensor c id0 f = run_stmt c (upsert_stmt ''sensors'' id0 (sensor_sets f))"

definition sensors :: "'s conn \<Rightarrow> ('s, SensorRow list) db" where
  "sensors c = fetch_all c sensor_from_row (Select kSensorCols ''sensors'' [] [(''id'', False)] None)"

definition find_sensor :: "'s conn \<Rightarrow> string \<Rightarrow> ('s, SensorRow option) db" where
  "find_sensor c id0 = fetch_first c sensor_from_row (Select kSensorCols ''sensors'' (by_id id0) [] (Some 1))"

definition update_sensor :: "'s conn \<Rightarrow> string \<Rightarrow> SensorFields \<Rightarrow> ('s, bool) db" where
  "update_sensor c id0 f = update_with c ''sensors'' (find_sensor c id0) id0 (sensor_sets f)"

definition remove_sensor :: "'s conn \<Rightarrow> string \<Rightarrow> ('s, unit) db" where
  "remove_sensor c id0 = run_stmt c (Delete ''sensors'' (by_id id0))"

definition active_cond :: "sql_cond list" where
  "active_cond = [(''status'', ''='', VLit ''active'')]"

definition active_sensors :: "'s conn \<Rightarrow> ('s, SensorRow list) db" where
  "active_sensors c = fetch_all c sensor_from_row (Select kSensorCols ''sensors'' active_cond [(''id'', False)] None)"

section \<open>Events\<close>

definition insert_event :: "'s conn \<Rightarrow> string \<Rightarrow> string \<Rightarrow> string \<Rightarrow> string \<Rightarrow> string \<Rightarrow> ('s, unit) db" where
  "insert_event c source level event detail device_id =
     run_stmt c (Insert False ''events'' [''ts_utc'', ''device_id'', ''source'', ''level'', ''event'', ''detail'']
       [vnow, vopt device_id, VStr source, VStr level, VStr event, vopt detail] [])"

definition event_from_row :: "cell list \<Rightarrow> EventRow" where
  "event_from_row row =
     \<lparr>ev_id = ll_cell row 0, ev_ts_utc = str_cell row 1, ev_device_id = str_cell row 2,
      ev_source = str_cell row 3, ev_level = str_cell row 4, ev_event = str_cell row 5,
      ev_detail = str_cell row 6\<rparr>"

definition recent_events :: "'s conn \<Rightarrow> int \<Rightarrow> ('s, EventRow list) db" where
  "recent_events c limit = fetch_all c event_from_row
     (Select [''id'', ''ts_utc'', ''device_id'', ''source'', ''level'', ''event'', ''detail''] ''events'' []
       [(''id'', True)] (Some (at_least_1 limit)))"

section \<open>Readings\<close>

definition insert_reading ::
  "'s conn \<Rightarrow> string \<Rightarrow> Reading \<Rightarrow> string \<Rightarrow> string \<Rightarrow> string \<Rightarrow> ('s, int) db" where
  "insert_reading c sensor_id r ts_utc source quality =
     db_map insert_id (exec c (Insert True ''readings''
       [''sensor_id'', ''ts_utc'', ''mag_arcsec2'', ''freq_hz'', ''period_counts'', ''period_s'', ''temp_c'',
        ''quality'', ''source'', ''raw_line'']
       [VStr sensor_id, vts ts_utc, vout (rd_mag_arcsec2 r), vint (rd_freq_hz r), vint (rd_period_counts r),
        vout (rd_period_s r), vout (rd_temp_c r), VStr quality, VStr source, VStr (rd_raw r)] []))"

definition reading_from_row :: "cell list \<Rightarrow> ReadingRow" where
  "reading_from_row row =
     \<lparr>rr_id = ll_cell row 0, rr_sensor_id = str_cell row 1, rr_ts_utc = str_cell row 2,
      rr_mag_arcsec2 = dbl_cell0 row 3, rr_freq_hz = ll_cell row 4, rr_period_counts = ll_cell row 5,
      rr_period_s = dbl_cell0 row 6, rr_temp_c = dbl_cell0 row 7, rr_quality = str_cell row 8,
      rr_source = str_cell row 9, rr_raw_line = str_cell row 10\<rparr>"

definition ts_range :: "string \<Rightarrow> string \<Rightarrow> sql_cond list" where
  "ts_range from0 to0 =
     (if from0 = [] then [] else [(''ts_utc'', '' >= '', VStr from0)]) @
     (if to0 = [] then [] else [(''ts_utc'', '' <= '', VStr to0)])"

definition newest_first :: "(string \<times> bool) list" where
  "newest_first = [(''ts_utc'', True), (''id'', True)]"

definition readings_between :: "'s conn \<Rightarrow> string \<Rightarrow> string \<Rightarrow> string \<Rightarrow> int \<Rightarrow> ('s, ReadingRow list) db" where
  "readings_between c sensor_id from0 to0 limit = fetch_all c reading_from_row
     (Select [''id'', ''sensor_id'', ''ts_utc'', ''mag_arcsec2'', ''freq_hz'', ''period_counts'', ''period_s'',
        ''temp_c'', ''quality'', ''source'', ''raw_line''] ''readings''
       ((''sensor_id'', ''='', VStr sensor_id) # ts_range from0 to0) newest_first (Some (at_least_1 limit)))"

definition readings :: "'s conn \<Rightarrow> string \<Rightarrow> int \<Rightarrow> ('s, ReadingRow list) db" where
  "readings c sensor_id limit = readings_between c sensor_id [] [] limit"

definition delete_readings_before :: "'s conn \<Rightarrow> string \<Rightarrow> string \<Rightarrow> ('s, int) db" where
  "delete_readings_before c sensor_id ts_utc =
     db_map affected_rows (exec c (Delete ''readings''
       [(''sensor_id'', ''='', VStr sensor_id), (''ts_utc'', '' < '', VStr ts_utc)]))"

section \<open>Calibrations\<close>

definition insert_calibration ::
  "'s conn \<Rightarrow> string \<Rightarrow> Calibration \<Rightarrow> string \<Rightarrow> string \<Rightarrow> string \<Rightarrow> string \<Rightarrow> ('s, unit) db" where
  "insert_calibration c sensor_id cal ts_utc event_type changed_by note0 =
     run_stmt c (Insert False ''config_log''
       [''sensor_id'', ''ts_utc'', ''event_type'', ''light_cal_offset'', ''dark_cal_period_s'', ''temp_light_c'',
        ''sensor_offset'', ''temp_dark_c'', ''raw'', ''changed_by'', ''note'']
       [VStr sensor_id, vts ts_utc,
        VLit (if event_type = ''config_change'' then ''config_change'' else ''calibration''),
        vout (cal_light_cal_offset cal), vout (cal_dark_cal_period_s cal), vout (cal_temp_light_c cal),
        vout (cal_sensor_offset cal), vout (cal_temp_dark_c cal), VStr (cal_raw cal), vopt changed_by, vopt note0] [])"

definition config_log_from_row :: "cell list \<Rightarrow> ConfigLogRow" where
  "config_log_from_row row =
     \<lparr>cl_id = ll_cell row 0, cl_ts_utc = str_cell row 1, cl_event_type = str_cell row 2,
      cl_light_cal_offset = dbl_cell row 3, cl_dark_cal_period_s = dbl_cell row 4,
      cl_temp_light_c = dbl_cell row 5, cl_sensor_offset = dbl_cell row 6, cl_temp_dark_c = dbl_cell row 7,
      cl_interval_s = int_cell row 8, cl_threshold = dbl_cell row 9, cl_raw = str_cell row 10,
      cl_changed_by = str_cell row 11, cl_note = str_cell row 12\<rparr>"

definition config_log :: "'s conn \<Rightarrow> string \<Rightarrow> int \<Rightarrow> ('s, ConfigLogRow list) db" where
  "config_log c sensor_id limit = fetch_all c config_log_from_row
     (Select [''id'', ''ts_utc'', ''event_type'', ''light_cal_offset'', ''dark_cal_period_s'', ''temp_light_c'',
        ''sensor_offset'', ''temp_dark_c'', ''interval_s'', ''threshold'', ''raw'', ''changed_by'', ''note'']
       ''config_log'' [(''sensor_id'', ''='', VStr sensor_id)] [(''id'', True)] (Some (at_least_1 limit)))"

section \<open>Weather stations\<close>

definition kWeatherCols :: "string list" where
  "kWeatherCols = [''id'', ''name'', ''site'', ''model'', ''provider'', ''config'', ''transport'', ''address'',
     ''latitude'', ''longitude'', ''elevation_m'', ''timezone'', ''poll_interval_s'', ''status'',
     ''installed_at'', ''notes'', ''created_at'']"

definition weather_from_row :: "cell list \<Rightarrow> WeatherStationRow" where
  "weather_from_row row =
     \<lparr>ws_id = str_cell row 0, ws_name = str_cell row 1, ws_site = str_cell row 2, ws_model = str_cell row 3,
      ws_provider = str_cell row 4, ws_config = str_cell row 5, ws_transport = str_cell row 6,
      ws_address = str_cell row 7, ws_latitude = dbl_cell row 8, ws_longitude = dbl_cell row 9,
      ws_elevation_m = dbl_cell row 10, ws_timezone = str_cell row 11,
      ws_poll_interval_s = int_cell_or 300 row 12, ws_status = str_cell row 13,
      ws_installed_at = str_cell row 14, ws_notes = str_cell row 15, ws_created_at = str_cell row 16\<rparr>"

definition weather_sets :: "WeatherStationFields \<Rightarrow> (string \<times> sql_val) list" where
  "weather_sets f = given
     [opt_str ''name'' (wf_name f), opt_str ''site'' (wf_site f), opt_str ''model'' (wf_model f),
      opt_str ''provider'' (wf_provider f), opt_str ''config'' (wf_config f),
      opt_str ''transport'' (wf_transport f), opt_str ''address'' (wf_address f),
      opt_dbl ''latitude'' (wf_latitude f), opt_dbl ''longitude'' (wf_longitude f),
      opt_dbl ''elevation_m'' (wf_elevation_m f), opt_str ''timezone'' (wf_timezone f),
      opt_int ''poll_interval_s'' (wf_poll_interval_s f), opt_str ''status'' (wf_status f),
      opt_str ''installed_at'' (wf_installed_at f), opt_str ''notes'' (wf_notes f)]"

definition upsert_weather_station :: "'s conn \<Rightarrow> string \<Rightarrow> WeatherStationFields \<Rightarrow> ('s, unit) db" where
  "upsert_weather_station c id0 f = run_stmt c (upsert_stmt ''weather_stations'' id0 (weather_sets f))"

definition weather_stations :: "'s conn \<Rightarrow> ('s, WeatherStationRow list) db" where
  "weather_stations c = fetch_all c weather_from_row
     (Select kWeatherCols ''weather_stations'' [] [(''id'', False)] None)"

definition find_weather_station :: "'s conn \<Rightarrow> string \<Rightarrow> ('s, WeatherStationRow option) db" where
  "find_weather_station c id0 = fetch_first c weather_from_row
     (Select kWeatherCols ''weather_stations'' (by_id id0) [] (Some 1))"

definition update_weather_station :: "'s conn \<Rightarrow> string \<Rightarrow> WeatherStationFields \<Rightarrow> ('s, bool) db" where
  "update_weather_station c id0 f =
     update_with c ''weather_stations'' (find_weather_station c id0) id0 (weather_sets f)"

definition remove_weather_station :: "'s conn \<Rightarrow> string \<Rightarrow> ('s, unit) db" where
  "remove_weather_station c id0 = run_stmt c (Delete ''weather_stations'' (by_id id0))"

definition active_weather_stations :: "'s conn \<Rightarrow> ('s, WeatherStationRow list) db" where
  "active_weather_stations c = fetch_all c weather_from_row
     (Select kWeatherCols ''weather_stations'' active_cond [(''id'', False)] None)"

text \<open>\<^verbatim>\<open>sql_opt\<close>\<close>

definition vopt_dbl :: "double option \<Rightarrow> sql_val" where
  "vopt_dbl v = (case v of None \<Rightarrow> vnull | Some x \<Rightarrow> vdbl x)"

definition vopt_int :: "int option \<Rightarrow> sql_val" where
  "vopt_int v = (case v of None \<Rightarrow> vnull | Some i \<Rightarrow> vint i)"

definition kWxReadingCols :: "string list" where
  "kWxReadingCols = [''id'', ''station_id'', ''ts_utc'', ''temp_c'', ''humidity_pct'', ''dew_point_c'',
     ''pressure_hpa'', ''pressure_abs_hpa'', ''wind_speed_ms'', ''wind_gust_ms'', ''wind_dir_deg'',
     ''rain_rate_mmh'', ''rain_daily_mm'', ''uv_index'', ''solar_wm2'', ''cloud_cover_pct'', ''source'', ''raw'']"

definition wxreading_from_row :: "cell list \<Rightarrow> WeatherReadingRow" where
  "wxreading_from_row row =
     \<lparr>wr_id = ll_cell row 0, wr_station_id = str_cell row 1, wr_ts_utc = str_cell row 2,
      wr_temp_c = dbl_cell row 3, wr_humidity_pct = dbl_cell row 4, wr_dew_point_c = dbl_cell row 5,
      wr_pressure_hpa = dbl_cell row 6, wr_pressure_abs_hpa = dbl_cell row 7,
      wr_wind_speed_ms = dbl_cell row 8, wr_wind_gust_ms = dbl_cell row 9, wr_wind_dir_deg = int_cell row 10,
      wr_rain_rate_mmh = dbl_cell row 11, wr_rain_daily_mm = dbl_cell row 12, wr_uv_index = dbl_cell row 13,
      wr_solar_wm2 = dbl_cell row 14, wr_cloud_cover_pct = dbl_cell row 15, wr_source = str_cell row 16,
      wr_raw = str_cell row 17\<rparr>"

definition insert_weather_reading :: "'s conn \<Rightarrow> WeatherReadingRow \<Rightarrow> ('s, int) db" where
  "insert_weather_reading c r =
     db_map insert_id (exec c (Insert True ''weather_readings''
       [''station_id'', ''ts_utc'', ''temp_c'', ''humidity_pct'', ''dew_point_c'', ''pressure_hpa'',
        ''pressure_abs_hpa'', ''wind_speed_ms'', ''wind_gust_ms'', ''wind_dir_deg'', ''rain_rate_mmh'',
        ''rain_daily_mm'', ''uv_index'', ''solar_wm2'', ''cloud_cover_pct'', ''source'', ''raw'']
       [VStr (wr_station_id r), vts (wr_ts_utc r), vopt_dbl (wr_temp_c r), vopt_dbl (wr_humidity_pct r),
        vopt_dbl (wr_dew_point_c r), vopt_dbl (wr_pressure_hpa r), vopt_dbl (wr_pressure_abs_hpa r),
        vopt_dbl (wr_wind_speed_ms r), vopt_dbl (wr_wind_gust_ms r), vopt_int (wr_wind_dir_deg r),
        vopt_dbl (wr_rain_rate_mmh r), vopt_dbl (wr_rain_daily_mm r), vopt_dbl (wr_uv_index r),
        vopt_dbl (wr_solar_wm2 r), vopt_dbl (wr_cloud_cover_pct r),
        VStr (if wr_source r = [] then ''poll'' else wr_source r), vopt (wr_raw r)] []))"

definition weather_readings_between ::
  "'s conn \<Rightarrow> string \<Rightarrow> string \<Rightarrow> string \<Rightarrow> int \<Rightarrow> ('s, WeatherReadingRow list) db" where
  "weather_readings_between c station_id from0 to0 limit = fetch_all c wxreading_from_row
     (Select kWxReadingCols ''weather_readings''
       ((''station_id'', ''='', VStr station_id) # ts_range from0 to0) newest_first (Some (at_least_1 limit)))"

definition weather_readings :: "'s conn \<Rightarrow> string \<Rightarrow> int \<Rightarrow> ('s, WeatherReadingRow list) db" where
  "weather_readings c station_id limit = weather_readings_between c station_id [] [] limit"

section \<open>Export targets\<close>

definition kExportCols :: "string list" where
  "kExportCols = [''id'', ''sensor_id'', ''name'', ''target'', ''config'', ''schedule'', ''schedule_time'',
     ''interval_s'', ''last_export_ts'', ''status'', ''notes'', ''created_at'', ''schedule_day'']"

definition export_from_row :: "cell list \<Rightarrow> ExportTargetRow" where
  "export_from_row row =
     \<lparr>et_id = str_cell row 0, et_sensor_id = str_cell row 1, et_name = str_cell row 2,
      et_target = str_cell row 3, et_config = str_cell row 4, et_schedule = str_cell row 5,
      et_schedule_time = str_cell row 6, et_interval_s = int_cell row 7, et_schedule_day = int_cell row 12,
      et_last_export_ts = str_cell row 8, et_status = str_cell row 9, et_notes = str_cell row 10,
      et_created_at = str_cell row 11\<rparr>"

definition exportlog_from_row :: "cell list \<Rightarrow> ExportLogRow" where
  "exportlog_from_row row =
     \<lparr>el_id = ll_cell row 0, el_target_id = str_cell row 1, el_ts_utc = str_cell row 2,
      el_from_ts = str_cell row 3, el_to_ts = str_cell row 4, el_row_count = ll_cell row 5,
      el_file_name = str_cell row 6, el_remote_id = str_cell row 7, el_status = str_cell row 8,
      el_detail = str_cell row 9\<rparr>"

definition export_sets :: "ExportTargetFields \<Rightarrow> (string \<times> sql_val) list" where
  "export_sets f = given
     [opt_str ''sensor_id'' (ef_sensor_id f), opt_str ''name'' (ef_name f), opt_str ''target'' (ef_target f),
      opt_str ''config'' (ef_config f), opt_str ''schedule'' (ef_schedule f),
      opt_str ''schedule_time'' (ef_schedule_time f), opt_int ''interval_s'' (ef_interval_s f),
      opt_int ''schedule_day'' (ef_schedule_day f), opt_str ''status'' (ef_status f),
      opt_str ''notes'' (ef_notes f)]"

definition upsert_export_target :: "'s conn \<Rightarrow> string \<Rightarrow> ExportTargetFields \<Rightarrow> ('s, unit) db" where
  "upsert_export_target c id0 f = run_stmt c (upsert_stmt ''export_targets'' id0 (export_sets f))"

definition export_targets :: "'s conn \<Rightarrow> ('s, ExportTargetRow list) db" where
  "export_targets c = fetch_all c export_from_row
     (Select kExportCols ''export_targets'' [] [(''id'', False)] None)"

definition active_export_targets :: "'s conn \<Rightarrow> ('s, ExportTargetRow list) db" where
  "active_export_targets c = fetch_all c export_from_row
     (Select kExportCols ''export_targets'' active_cond [(''id'', False)] None)"

definition find_export_target :: "'s conn \<Rightarrow> string \<Rightarrow> ('s, ExportTargetRow option) db" where
  "find_export_target c id0 = fetch_first c export_from_row
     (Select kExportCols ''export_targets'' (by_id id0) [] (Some 1))"

definition update_export_target :: "'s conn \<Rightarrow> string \<Rightarrow> ExportTargetFields \<Rightarrow> ('s, bool) db" where
  "update_export_target c id0 f =
     update_with c ''export_targets'' (find_export_target c id0) id0 (export_sets f)"

definition remove_export_target :: "'s conn \<Rightarrow> string \<Rightarrow> ('s, unit) db" where
  "remove_export_target c id0 = run_stmt c (Delete ''export_targets'' (by_id id0))"

definition set_export_watermark :: "'s conn \<Rightarrow> string \<Rightarrow> string \<Rightarrow> ('s, unit) db" where
  "set_export_watermark c id0 last_export_ts =
     run_stmt c (Update ''export_targets'' [(''last_export_ts'', VStr last_export_ts)] (by_id id0))"

definition insert_export_log :: "'s conn \<Rightarrow> ExportLogRow \<Rightarrow> ('s, int) db" where
  "insert_export_log c r =
     db_map insert_id (exec c (Insert False ''export_log''
       [''target_id'', ''ts_utc'', ''from_ts'', ''to_ts'', ''row_count'', ''file_name'', ''remote_id'',
        ''status'', ''detail'']
       [VStr (el_target_id r), vts (el_ts_utc r), vopt (el_from_ts r), vopt (el_to_ts r),
        vint (el_row_count r), vopt (el_file_name r), vopt (el_remote_id r),
        VStr (if el_status r = [] then ''ok'' else el_status r), vopt (el_detail r)] []))"

definition export_log :: "'s conn \<Rightarrow> string \<Rightarrow> int \<Rightarrow> ('s, ExportLogRow list) db" where
  "export_log c target_id limit = fetch_all c exportlog_from_row
     (Select [''id'', ''target_id'', ''ts_utc'', ''from_ts'', ''to_ts'', ''row_count'', ''file_name'',
        ''remote_id'', ''status'', ''detail''] ''export_log''
       [(''target_id'', ''='', VStr target_id)] newest_first (Some (at_least_1 limit)))"

section \<open>Settings\<close>

definition get_setting :: "'s conn \<Rightarrow> string \<Rightarrow> ('s, string option) db" where
  "get_setting c name0 =
     db_map (first_row (\<lambda>row. str_cell row 0))
       (fetch ''get_setting: '' c (Select [''value''] ''settings'' [(''name'', ''='', VStr name0)] [] (Some 1)))"

definition set_setting :: "'s conn \<Rightarrow> string \<Rightarrow> string \<Rightarrow> ('s, unit) db" where
  "set_setting c name0 v =
     run_stmt c (Insert False ''settings'' [''name'', ''value''] [VStr name0, VStr v] [''value''])"

definition delete_setting :: "'s conn \<Rightarrow> string \<Rightarrow> ('s, unit) db" where
  "delete_setting c name0 = run_stmt c (Delete ''settings'' [(''name'', '' = '', VStr name0)])"

section \<open>Users and sessions\<close>

definition user_from_row :: "cell list \<Rightarrow> UserRow" where
  "user_from_row row =
     \<lparr>us_id = ll_cell row 0, us_username = str_cell row 1, us_password_hash = str_cell row 2,
      us_role = str_cell row 3, us_must_change_password = (int_cell_or 0 row 4 \<noteq> 0),
      us_created_at = str_cell row 5\<rparr>"

definition kUserCols :: "string list" where
  "kUserCols = [''id'', ''username'', ''password_hash'', ''role'', ''must_change_password'', ''created_at'']"

definition count_users :: "'s conn \<Rightarrow> ('s, int) db" where
  "count_users c =
     db_map (\<lambda>rs. case rs of [] \<Rightarrow> 0 | r # _ \<Rightarrow> ll_cell r 0) (select c (Select [''COUNT(*)''] ''users'' [] [] None))"

definition vflag :: "bool \<Rightarrow> sql_val" where
  "vflag b = (if b then VRaw ''1'' else VRaw ''0'')"

definition create_user :: "'s conn \<Rightarrow> string \<Rightarrow> string \<Rightarrow> string \<Rightarrow> bool \<Rightarrow> ('s, unit) db" where
  "create_user c username password_hash role must_change =
     run_stmt c (Insert False ''users'' [''username'', ''password_hash'', ''role'', ''must_change_password'']
       [VStr username, VStr password_hash, VStr role, vflag must_change] [])"

definition find_user :: "'s conn \<Rightarrow> string \<Rightarrow> ('s, UserRow option) db" where
  "find_user c username = fetch_first c user_from_row
     (Select kUserCols ''users'' [(''username'', ''='', VStr username)] [] (Some 1))"

definition users :: "'s conn \<Rightarrow> ('s, UserRow list) db" where
  "users c = fetch_all c user_from_row (Select kUserCols ''users'' [] [(''username'', False)] None)"

definition set_user_password :: "'s conn \<Rightarrow> string \<Rightarrow> string \<Rightarrow> bool \<Rightarrow> ('s, bool) db" where
  "set_user_password c username password_hash must_change =
     db_bind (find_user c username) (\<lambda>u.
       case u of
         None \<Rightarrow> db_ret False
       | Some _ \<Rightarrow>
           db_bind (run_stmt c (Update ''users''
             [(''password_hash'', VStr password_hash), (''must_change_password'', vflag must_change)]
             [(''username'', ''='', VStr username)])) (\<lambda>_. db_ret True))"

definition delete_user :: "'s conn \<Rightarrow> string \<Rightarrow> ('s, bool) db" where
  "delete_user c username =
     db_map (\<lambda>r. 0 < affected_rows r) (exec c (Delete ''users'' [(''username'', ''='', VStr username)]))"

definition create_session :: "'s conn \<Rightarrow> string \<Rightarrow> int \<Rightarrow> int \<Rightarrow> ('s, unit) db" where
  "create_session c token user_id ttl_seconds =
     run_stmt c (Insert False ''sessions'' [''token'', ''user_id'', ''expires_at'']
       [VStr token, vint user_id,
        VRaw (''UTC_TIMESTAMP() + INTERVAL '' @ show_int ttl_seconds @ '' SECOND'')] [])"

definition session_from_row :: "cell list \<Rightarrow> SessionInfo" where
  "session_from_row row =
     \<lparr>si_user_id = ll_cell row 0, si_username = str_cell row 1, si_role = str_cell row 2\<rparr>"

definition validate_session :: "'s conn \<Rightarrow> string \<Rightarrow> ('s, SessionInfo option) db" where
  "validate_session c token = fetch_first c session_from_row
     (Select [''u.id'', ''u.username'', ''u.role''] ''sessions s JOIN users u ON u.id = s.user_id''
       [(''s.token'', ''='', VStr token), (''s.expires_at'', '' > '', vnow)] [] (Some 1))"

definition delete_session :: "'s conn \<Rightarrow> string \<Rightarrow> ('s, unit) db" where
  "delete_session c token = run_stmt c (Delete ''sessions'' [(''token'', ''='', VStr token)])"

definition delete_expired_sessions :: "'s conn \<Rightarrow> ('s, unit) db" where
  "delete_expired_sessions c = run_stmt c (Delete ''sessions'' [(''expires_at'', '' <= '', vnow)])"

section \<open>Extensions\<close>

definition kExtCols :: "string list" where
  "kExtCols = [''name'', ''label'', ''version'', ''data_table'', ''host'', ''pid'', ''status'', ''last_heartbeat'',
     ''started_at'', ''TIMESTAMPDIFF(SECOND, last_heartbeat, UTC_TIMESTAMP())'']"

definition extension_from_row :: "cell list \<Rightarrow> ExtensionRow" where
  "extension_from_row row =
     \<lparr>ex_name = str_cell row 0, ex_label = str_cell row 1, ex_version = str_cell row 2,
      ex_data_table = str_cell row 3, ex_host = str_cell row 4, ex_pid = int_cell row 5,
      ex_status = str_cell row 6, ex_last_heartbeat = str_cell row 7, ex_started_at = str_cell row 8,
      ex_heartbeat_age_s = ll_cell row 9\<rparr>"

definition extensions :: "'s conn \<Rightarrow> ('s, ExtensionRow list) db" where
  "extensions c = fetch_all c extension_from_row (Select kExtCols ''extensions'' [] [(''name'', False)] None)"

definition find_extension :: "'s conn \<Rightarrow> string \<Rightarrow> ('s, ExtensionRow option) db" where
  "find_extension c name0 = fetch_first c extension_from_row
     (Select kExtCols ''extensions'' [(''name'', ''='', VStr name0)] [] None)"

definition backquoted :: "string \<Rightarrow> string" where
  "backquoted t = CHR 0x60 # t @ [CHR 0x60]"

definition query_recent :: "'s conn \<Rightarrow> string \<Rightarrow> int \<Rightarrow> ('s, TableData) db" where
  "query_recent c t limit =
     db_bind (exec c (Select [''*''] (backquoted t) [] [(''id'', True)] (Some (min 5000 (at_least_1 limit)))))
       (\<lambda>r. case r of
            Rows names rs \<Rightarrow> db_ret \<lparr>td_columns = names, td_rows = rs\<rparr>
          | _ \<Rightarrow> db_throw ''store_result: '')"

section \<open>Schema\<close>

definition known_tables :: "string list" where
  "known_tables = [''sensors'', ''readings'', ''config_log'', ''events'', ''weather_stations'', ''weather_readings'',
     ''users'', ''sessions'', ''export_targets'', ''export_log'', ''settings'', ''extensions'']"

fun count_tables :: "'s conn \<Rightarrow> string list \<Rightarrow> string list \<Rightarrow> ('s, TableCount list) db" where
  "count_tables c present [] = db_ret []"
| "count_tables c present (t # ts) =
     db_bind
       (if t \<in> set present
        then db_map (\<lambda>r. case r of Rows _ (row # _) \<Rightarrow> ll_cell row 0 | _ \<Rightarrow> 0)
               (exec c (Select [''COUNT(*)''] (backquoted t) [] [] None))
        else db_ret 0)
       (\<lambda>n. db_map (\<lambda>rest. \<lparr>tc_table = t, tc_rows = n, tc_present = (t \<in> set present)\<rparr> # rest)
              (count_tables c present ts))"

definition schema_status :: "'s conn \<Rightarrow> ('s, TableCount list) db" where
  "schema_status c =
     db_bind (select c (Select [''table_name''] ''information_schema.tables''
         [(''table_schema'', '' = '', VRaw ''DATABASE()'')] [] None))
       (\<lambda>rs. count_tables c (List.map_filter (\<lambda>r. cell r 0) rs) known_tables)"

text \<open>Statements of a script: comments cut, split at semicolons, blanks stripped, empty ones dropped.\<close>

definition script_blank :: "char \<Rightarrow> bool" where
  "script_blank ch \<longleftrightarrow> ch = CHR '' '' \<or> ch = CHR 0x09 \<or> ch = CHR 0x0D \<or> ch = CHR 0x0A"

definition strip_comment :: "string \<Rightarrow> string" where
  "strip_comment line = (case find_str ''--'' line of None \<Rightarrow> line | Some p \<Rightarrow> take p line)"

definition strip_blanks :: "(char \<Rightarrow> bool) \<Rightarrow> string \<Rightarrow> string" where
  "strip_blanks p s = rstrip p (dropWhile p s)"

fun split_stmts :: "string \<Rightarrow> string \<Rightarrow> string list" where
  "split_stmts acc [] = [acc]"
| "split_stmts acc (ch # r) = (if ch = CHR '';'' then acc # split_stmts [] r else split_stmts (acc @ [ch]) r)"

definition script_statements :: "string \<Rightarrow> string list" where
  "script_statements sql =
     (let cleaned = concat (map (\<lambda>l. strip_comment l @ [CHR 0x0A]) (getline_split sql CHR 0x0A))
      in filter (\<lambda>s. s \<noteq> []) (map (strip_blanks script_blank) (split_stmts [] cleaned)))"

fun exec_all :: "'s conn \<Rightarrow> string list \<Rightarrow> ('s, unit) db" where
  "exec_all c [] = db_ret ()"
| "exec_all c (t # ts) = db_bind (exec c (Script t)) (\<lambda>_. exec_all c ts)"

definition run_schema_script :: "'s conn \<Rightarrow> string \<Rightarrow> ('s, unit) db" where
  "run_schema_script c sql = exec_all c (script_statements sql)"

section \<open>Backup and restore\<close>

definition one_line :: "string \<Rightarrow> string" where
  "one_line s = map (\<lambda>ch. if ch = CHR 0x0A \<or> ch = CHR 0x0D then CHR '' '' else ch) s"

definition cell_text :: "(string \<Rightarrow> string) \<Rightarrow> cell \<Rightarrow> string" where
  "cell_text esc v = (case v of None \<Rightarrow> ''NULL'' | Some s \<Rightarrow> quoted (esc s))"

definition row_text :: "(string \<Rightarrow> string) \<Rightarrow> cell list \<Rightarrow> string" where
  "row_text esc row = ''('' @ join '','' (map (cell_text esc) row) @ '')''"

text \<open>Rows in batches of 100, one multi-row insert per line.\<close>

fun dump_rows :: "(string \<Rightarrow> string) \<Rightarrow> string \<Rightarrow> nat \<Rightarrow> cell list list \<Rightarrow> string" where
  "dump_rows esc t n [] = (if 0 < n then '';'' @ [CHR 0x0A] else [])"
| "dump_rows esc t n (row # rows) =
     (if n = 0 then ''INSERT INTO '' @ backquoted t @ '' VALUES '' else '','') @ row_text esc row @
     (if n + 1 = 100 then '';'' @ [CHR 0x0A] @ dump_rows esc t 0 rows else dump_rows esc t (n + 1) rows)"

definition dump_create :: "string \<Rightarrow> string \<Rightarrow> string" where
  "dump_create t create =
     ''DROP TABLE IF EXISTS '' @ backquoted t @ '';'' @ [CHR 0x0A] @
     (if create = [] then [] else one_line create @ '';'' @ [CHR 0x0A])"

fun dump_tables :: "'s conn \<Rightarrow> (string \<Rightarrow> string) \<Rightarrow> string list \<Rightarrow> ('s, string) db" where
  "dump_tables c esc [] = db_ret []"
| "dump_tables c esc (t # ts) =
     db_bind (exec c (Script (''SHOW CREATE TABLE '' @ backquoted t))) (\<lambda>cr.
     db_bind (fetch (''dump '' @ t @ '': '') c (Script (''SELECT * FROM '' @ backquoted t))) (\<lambda>rows.
       db_map (\<lambda>rest. dump_create t (case cr of Rows _ (r # _) \<Rightarrow> str_cell r 1 | _ \<Rightarrow> []) @
                dump_rows esc t 0 rows @ rest)
         (dump_tables c esc ts)))"

definition dump_header :: string where
  "dump_header = ''-- NightWatcher database backup'' @ [CHR 0x0A] @ ''-- Restore with: nwdb restore <file>'' @
     [CHR 0x0A] @ ''SET NAMES utf8mb4;'' @ [CHR 0x0A] @ ''SET FOREIGN_KEY_CHECKS=0;'' @ [CHR 0x0A]"

definition dump_sql :: "'s conn \<Rightarrow> (string \<Rightarrow> string) \<Rightarrow> ('s, string) db" where
  "dump_sql c esc =
     db_bind (fetch ''SHOW TABLES: '' c (Script ''SHOW TABLES'')) (\<lambda>rs.
       db_map (\<lambda>body. dump_header @ body @ ''SET FOREIGN_KEY_CHECKS=1;'' @ [CHR 0x0A])
         (dump_tables c esc (List.map_filter (\<lambda>r. cell r 0) rs)))"

definition line_blank :: "char \<Rightarrow> bool" where
  "line_blank ch \<longleftrightarrow> ch = CHR '' '' \<or> ch = CHR 0x09 \<or> ch = CHR 0x0D"

text \<open>The statement of one line of a backup, if it has one.\<close>

definition restore_line :: "string \<Rightarrow> string option" where
  "restore_line line =
     (let t = strip_blanks line_blank line
      in if t = [] then None
         else if take 2 (dropWhile line_blank line) = ''--'' then None
         else if last t = CHR '';'' then (if length t = 1 then None else Some (butlast t))
         else Some t)"

fun restore_lines :: "'s conn \<Rightarrow> int \<Rightarrow> string list \<Rightarrow> ('s, int) db" where
  "restore_lines c n [] = db_ret n"
| "restore_lines c n (l # ls) =
     (case restore_line l of
        None \<Rightarrow> restore_lines c n ls
      | Some t \<Rightarrow> db_bind (exec c (Script t)) (\<lambda>_. restore_lines c (n + 1) ls))"

definition restore_sql :: "'s conn \<Rightarrow> string \<Rightarrow> ('s, int) db" where
  "restore_sql c txt = restore_lines c 0 (getline_split txt CHR 0x0A)"

section \<open>A backup restores as the statements it was made of\<close>

type_synonym table_dump = "string \<times> string \<times> cell list list"

fun in_batches :: "nat \<Rightarrow> 'a list \<Rightarrow> 'a list list" where
  "in_batches k [] = []"
| "in_batches k (x # xs) = (x # take (k - 1) xs) # in_batches k (drop (k - 1) xs)"

definition insert_text :: "(string \<Rightarrow> string) \<Rightarrow> string \<Rightarrow> cell list list \<Rightarrow> string" where
  "insert_text esc t rows = ''INSERT INTO '' @ backquoted t @ '' VALUES '' @ join '','' (map (row_text esc) rows)"

definition table_stmts :: "(string \<Rightarrow> string) \<Rightarrow> table_dump \<Rightarrow> string list" where
  "table_stmts esc td = (case td of (t, create, rows) \<Rightarrow>
     (''DROP TABLE IF EXISTS '' @ backquoted t) # (if create = [] then [] else [one_line create]) @
     map (insert_text esc t) (in_batches 100 rows))"

definition dump_stmts :: "(string \<Rightarrow> string) \<Rightarrow> table_dump list \<Rightarrow> string list" where
  "dump_stmts esc tabs =
     [''SET NAMES utf8mb4'', ''SET FOREIGN_KEY_CHECKS=0''] @ concat (map (table_stmts esc) tabs) @
     [''SET FOREIGN_KEY_CHECKS=1'']"

abbreviation stmt_line :: "string \<Rightarrow> string" where
  "stmt_line t \<equiv> (t @ '';'') @ [CHR 0x0A]"

lemma join_snoc_rows:
  "join '','' (map f (r # rs)) = f r @ concat (map (\<lambda>x. '','' @ f x) rs)"
  by (induction rs arbitrary: r) auto

lemma dump_rows_rest:
  "0 < n \<Longrightarrow> n < 100 \<Longrightarrow>
   dump_rows esc t n rows = concat (map (\<lambda>x. '','' @ row_text esc x) (take (100 - n) rows)) @ '';'' @ [CHR 0x0A] @
     dump_rows esc t 0 (drop (100 - n) rows)"
proof (induction rows arbitrary: n)
  case Nil
  then show ?case by simp
next
  case (Cons row rows)
  show ?case
  proof (cases "n + 1 = 100")
    case True
    then show ?thesis using Cons.prems by simp
  next
    case False
    then have "100 - n = Suc (100 - (n + 1))" using Cons.prems by simp
    then show ?thesis using Cons.IH [of "n + 1"] Cons.prems False by simp
  qed
qed

lemma dump_rows_batches:
  "dump_rows esc t 0 rows = concat (map (\<lambda>b. stmt_line (insert_text esc t b)) (in_batches 100 rows))"
proof (induction "100 :: nat" rows rule: in_batches.induct)
  case 1
  then show ?case by simp
next
  case (2 x xs)
  have "dump_rows esc t 1 xs = concat (map (\<lambda>x. '','' @ row_text esc x) (take 99 xs)) @ '';'' @ [CHR 0x0A] @
     dump_rows esc t 0 (drop 99 xs)"
    using dump_rows_rest [of 1] by simp
  then show ?case
    using 2 join_snoc_rows [of "row_text esc" x "take 99 xs"] by (simp add: insert_text_def)
qed

definition dump_table_text :: "(string \<Rightarrow> string) \<Rightarrow> table_dump \<Rightarrow> string" where
  "dump_table_text esc td = concat (map stmt_line (table_stmts esc td))"

lemma dump_table_text_eq:
  "dump_create t create @ dump_rows esc t 0 rows = dump_table_text esc (t, create, rows)"
  by (simp add: dump_create_def dump_rows_batches dump_table_text_def table_stmts_def comp_def)

lemma dump_tables_ok:
  "dump_tables c esc ts s = (Inr out, s') \<Longrightarrow>
   \<exists>tabs. map fst tabs = ts \<and> out = concat (map (dump_table_text esc) tabs)"
proof (induction ts arbitrary: s out s')
  case Nil
  then show ?case by (simp add: db_ret_def)
next
  case (Cons t ts)
  then obtain cr s1 rows s2 rest where
    r: "dump_tables c esc ts s2 = (Inr rest, s')"
    and x: "out = dump_create t (case cr of Rows _ (r # _) \<Rightarrow> str_cell r 1 | _ \<Rightarrow> []) @ dump_rows esc t 0 rows @ rest"
    by (auto simp: db_bind_def db_map_def db_ret_def split: prod.splits sum.splits)
  from Cons.IH [OF r] obtain tabs where "map fst tabs = ts" "rest = concat (map (dump_table_text esc) tabs)" by blast
  then show ?case
    using x dump_table_text_eq [of t "case cr of Rows _ (r # _) \<Rightarrow> str_cell r 1 | _ \<Rightarrow> []" esc rows]
    by (intro exI [of _ "(t, (case cr of Rows _ (r # _) \<Rightarrow> str_cell r 1 | _ \<Rightarrow> []), rows) # tabs"]) simp
qed

lemma restore_lines_exec:
  "restore_lines c n ls = db_map (\<lambda>_. n + int (length (List.map_filter restore_line ls))) (exec_all c (List.map_filter restore_line ls))"
proof (induction ls arbitrary: n)
  case Nil
  then show ?case by (simp add: map_filter_simps db_map_def db_bind_def db_ret_def fun_eq_iff)
next
  case (Cons l ls)
  show ?case
    by (cases "restore_line l")
      (auto simp: map_filter_simps Cons.IH db_map_def db_bind_def fun_eq_iff db_ret_def add.assoc split: prod.splits sum.splits)
qed

definition starts_ok :: "string \<Rightarrow> bool" where
  "starts_ok t \<longleftrightarrow> t \<noteq> [] \<and> \<not> line_blank (hd t) \<and> hd t \<noteq> CHR ''-''"

lemma restore_stmt_line: "starts_ok t \<Longrightarrow> restore_line (t @ '';'') = Some t"
proof -
  assume t: "starts_ok t"
  then obtain c r where c: "t = c # r" "\<not> line_blank c" "c \<noteq> CHR ''-''" by (cases t) (auto simp: starts_ok_def)
  have "strip_blanks line_blank (t @ '';'') = t @ '';''"
    using c rstrip_snoc_keep [of line_blank "CHR '';''" t] by (simp add: strip_blanks_def line_blank_def)
  then show ?thesis using c by (simp add: restore_line_def Let_def)
qed

lemma one_line_no_nl: "CHR 0x0A \<notin> set (one_line s)"
  by (auto simp: one_line_def)

lemma join_set: "x \<in> set (join sep xs) \<Longrightarrow> x \<in> set sep \<or> (\<exists>y\<in>set xs. x \<in> set y)"
  by (induction sep xs rule: join.induct) auto

lemma insert_text_no_nl:
  assumes "\<And>s. CHR 0x0A \<notin> set (esc s)" and "CHR 0x0A \<notin> set t"
  shows "CHR 0x0A \<notin> set (insert_text esc t rows)"
proof -
  have "CHR 0x0A \<notin> set (cell_text esc v)" for v
    using assms(1) by (auto simp: cell_text_def quoted_def split: option.splits)
  then have "CHR 0x0A \<notin> set (row_text esc row)" for row
    by (auto simp: row_text_def dest!: join_set)
  then show ?thesis
    using assms(2) by (auto simp: insert_text_def backquoted_def dest!: join_set)
qed

definition clean_table :: "table_dump \<Rightarrow> bool" where
  "clean_table td \<longleftrightarrow> (case td of (t, create, rows) \<Rightarrow>
     CHR 0x0A \<notin> set t \<and> (create = [] \<or> starts_with ''CREATE '' create))"

lemma table_stmts_lines:
  assumes "\<And>s. CHR 0x0A \<notin> set (esc s)" and "clean_table td" and "t \<in> set (table_stmts esc td)"
  shows "starts_ok t \<and> CHR 0x0A \<notin> set t"
proof -
  obtain n create rows where td: "td = (n, create, rows)" by (cases td) auto
  have c: "starts_ok (one_line create)" if "create \<noteq> []"
    using that assms(2) by (auto simp: clean_table_def td starts_with_iff one_line_def starts_ok_def line_blank_def)
  have n: "CHR 0x0A \<notin> set n" using assms(2) by (simp add: clean_table_def td)
  have i: "starts_ok (insert_text esc n b)" for b
    by (simp add: insert_text_def starts_ok_def line_blank_def)
  show ?thesis
    using assms(3) c n one_line_no_nl i insert_text_no_nl [OF assms(1) n]
    by (auto simp: table_stmts_def td starts_ok_def line_blank_def backquoted_def split: if_splits)
qed

lemma map_filter_all: "(\<And>x. x \<in> set xs \<Longrightarrow> f (g x) = Some x) \<Longrightarrow> List.map_filter f (map g xs) = xs"
  by (induction xs) (auto simp: map_filter_simps)

lemma getline_stmt_lines:
  assumes "\<And>t. t \<in> set ts \<Longrightarrow> CHR 0x0A \<notin> set t"
  shows "getline_split (concat (map stmt_line ts)) CHR 0x0A = map (\<lambda>t. t @ '';'') ts"
  using assms by (induction ts) (simp_all add: getline_split_step [where xs = "_ @ '';''", simplified])

definition dump_text :: "(string \<Rightarrow> string) \<Rightarrow> table_dump list \<Rightarrow> string" where
  "dump_text esc tabs = dump_header @ concat (map (dump_table_text esc) tabs) @ ''SET FOREIGN_KEY_CHECKS=1;'' @ [CHR 0x0A]"

lemma dump_sql_text:
  "dump_sql c esc s = (Inr out, s') \<Longrightarrow> \<exists>tabs. out = dump_text esc tabs"
proof -
  assume "dump_sql c esc s = (Inr out, s')"
  then obtain ts s1 body s2 where t: "dump_tables c esc ts s1 = (Inr body, s2)"
    and x: "out = dump_header @ body @ ''SET FOREIGN_KEY_CHECKS=1;'' @ [CHR 0x0A]"
    by (auto simp: dump_sql_def db_bind_def db_map_def db_ret_def split: prod.splits sum.splits)
  from dump_tables_ok [OF t] x show ?thesis by (auto simp: dump_text_def)
qed

lemma dump_text_lines:
  "dump_text esc tabs = (''-- NightWatcher database backup'' @ [CHR 0x0A]) @ (''-- Restore with: nwdb restore <file>'' @ [CHR 0x0A]) @
     concat (map stmt_line (dump_stmts esc tabs))"
proof -
  have "concat (map (dump_table_text esc) tabs) = concat (map stmt_line (concat (map (table_stmts esc) tabs)))"
    by (induction tabs) (simp_all add: dump_table_text_def)
  then show ?thesis by (simp add: dump_text_def dump_header_def dump_stmts_def)
qed

lemma restore_dump_text:
  assumes nl: "\<And>s. CHR 0x0A \<notin> set (esc s)" and clean: "list_all clean_table tabs"
  shows "restore_sql c (dump_text esc tabs) = db_map (\<lambda>_. int (length (dump_stmts esc tabs))) (exec_all c (dump_stmts esc tabs))"
proof -
  let ?st = "dump_stmts esc tabs"
  have ok: "starts_ok t \<and> CHR 0x0A \<notin> set t" if t: "t \<in> set ?st" for t
  proof -
    consider "t \<in> {''SET NAMES utf8mb4'', ''SET FOREIGN_KEY_CHECKS=0'', ''SET FOREIGN_KEY_CHECKS=1''}"
      | td where "td \<in> set tabs" "t \<in> set (table_stmts esc td)"
      using t by (auto simp: dump_stmts_def)
    then show ?thesis
    proof cases
      case 1
      then show ?thesis by (auto simp: starts_ok_def line_blank_def)
    next
      case 2
      then show ?thesis using clean table_stmts_lines [where esc = esc and td = td and t = t] nl by (simp add: list_all_iff)
    qed
  qed
  have "getline_split (dump_text esc tabs) CHR 0x0A =
      ''-- NightWatcher database backup'' # ''-- Restore with: nwdb restore <file>'' # map (\<lambda>t. t @ '';'') ?st"
    using getline_stmt_lines [of ?st] ok getline_split_step [of "CHR 0x0A" "''-- NightWatcher database backup''"]
      getline_split_step [of "CHR 0x0A" "''-- Restore with: nwdb restore <file>''"] by (simp add: dump_text_lines)
  moreover have "restore_line ''-- NightWatcher database backup'' = None" "restore_line ''-- Restore with: nwdb restore <file>'' = None"
    by (simp_all add: restore_line_def Let_def line_blank_def strip_blanks_def rstrip_def)
  moreover have "List.map_filter restore_line (map (\<lambda>t. t @ '';'') ?st) = ?st"
    using ok restore_stmt_line by (intro map_filter_all) auto
  ultimately show ?thesis by (simp add: map_filter_simps restore_sql_def restore_lines_exec)
qed

lemma mysql_esc_no_nl: "CHR 0x0A \<notin> set (mysql_esc s)"
  by (auto simp: mysql_esc_def mysql_esc_chr_def split: if_splits)

text \<open>A connection to a database of one table with one row.\<close>

definition one_table :: "unit conn" where
  "one_table s stmt =
     (if stmt = Script ''SHOW TABLES'' then (Rows [''t''] [[Some ''settings'']], s)
      else if stmt = Script (''SELECT * FROM '' @ backquoted ''settings'')
           then (Rows [''name'', ''value''] [[Some (CHR 0x0A # ''x''), None]], s)
      else (Rows [] [], s))"

lemma one_table_replies:
  "fetch what one_table (Script ''SHOW TABLES'') s = (Inr [[Some ''settings'']], s)"
  "fetch what one_table (Script (''SELECT * FROM '' @ backquoted ''settings'')) s = (Inr [[Some (CHR 0x0A # ''x''), None]], s)"
  "exec one_table (Script (''SHOW CREATE TABLE '' @ backquoted ''settings'')) s = (Inr (Rows [] []), s)"
  by (simp_all add: one_table_def fetch_def exec_def db_bind_def db_ret_def backquoted_def)

lemma dump_one:
  assumes "fetch ''SHOW TABLES: '' c (Script ''SHOW TABLES'') s = (Inr [[Some t]], s1)"
    and "exec c (Script (''SHOW CREATE TABLE '' @ backquoted t)) s1 = (Inr (Rows ns []), s2)"
    and "fetch (''dump '' @ t @ '': '') c (Script (''SELECT * FROM '' @ backquoted t)) s2 = (Inr rows, s3)"
  shows "dump_sql c esc s = (Inr (dump_text esc [(t, [], rows)]), s3)"
proof -
  have "dump_tables c esc [t] s1 = (Inr (dump_table_text esc (t, [], rows)), s3)"
    using assms(2,3) dump_table_text_eq [of t "[]" esc rows] by (simp add: db_bind_def db_map_def db_ret_def)
  then show ?thesis
    using assms(1) by (simp add: dump_sql_def db_bind_def db_map_def db_ret_def map_filter_simps cell_def dump_text_def del: dump_tables.simps)
qed



section \<open>Only readable statements are sent\<close>

text \<open>A connection that refuses every statement a predicate rejects.\<close>

definition guarded :: "(sql_stmt \<Rightarrow> bool) \<Rightarrow> 's conn \<Rightarrow> 's conn" where
  "guarded p c s stmt = (if p stmt then c s stmt else (Failed ''refused'', s))"

definition readable :: "(string \<Rightarrow> string) \<Rightarrow> sql_stmt \<Rightarrow> bool" where
  "readable esc stmt \<longleftrightarrow> scan (sql_text esc stmt) = Some (sql_pieces stmt)"

lemma plain_readable: "esc_ok esc \<Longrightarrow> plain_stmt stmt \<Longrightarrow> readable esc stmt"
  by (simp add: readable_def sql_text_reads)

lemma exec_guarded: "p stmt \<Longrightarrow> exec (guarded p c) stmt = exec c stmt"
  by (rule ext) (simp add: exec_def guarded_def)

lemma run_guarded: "p stmt \<Longrightarrow> run_stmt (guarded p c) stmt = run_stmt c stmt"
  by (simp add: run_stmt_def exec_guarded)

lemma fetch_guarded: "p stmt \<Longrightarrow> fetch w (guarded p c) stmt = fetch w c stmt"
  by (simp add: fetch_def exec_guarded)

lemma fetch_all_guarded: "p stmt \<Longrightarrow> fetch_all (guarded p c) f stmt = fetch_all c f stmt"
  by (simp add: fetch_all_def select_def fetch_guarded)

lemma fetch_first_guarded: "p stmt \<Longrightarrow> fetch_first (guarded p c) f stmt = fetch_first c f stmt"
  by (simp add: fetch_first_def select_def fetch_guarded)

lemma show_nat_plain: "plain (show_nat n)"
  using show_nat_digits [of n] by (auto simp: plain_def isdigit_def)

lemma vint_plain [simp]: "plain_val (vint i)"
  by (simp add: vint_def plain_val_def plain_show_int)

lemma decimal_body_plain: "plain (decimal_body p n)"
proof -
  have "plain (pad0 w (show_nat k))" for w k
    using pad0_digits [OF show_nat_digits, of w k] by (auto simp: plain_def isdigit_def)
  moreover have "plain (CHR ''.'' # s) \<longleftrightarrow> plain s" for s by (simp add: plain_def)
  moreover have "plain []" by (simp add: plain_def)
  ultimately show ?thesis by (simp add: decimal_body_def show_nat_plain)
qed

lemma plain_replicate: "c \<noteq> CHR 0x27 \<Longrightarrow> plain (replicate n c)"
  by (simp add: plain_def)

lemma plain_rstrip: "plain s \<Longrightarrow> plain (rstrip p s)"
  using set_dropWhileD [of _ p "rev s"] by (auto simp: plain_def rstrip_def)

lemma plain_lits: "plain ''inf''" "plain ''nan''" "plain ''-''" "plain ''+''" "plain '' ''" "plain ''0''" "plain ''e''" "plain []"
  by (simp_all add: plain_def)

lemma vdbl_plain [simp]: "plain_val (vdbl x)"
  by (cases x) (auto simp: vdbl_def plain_val_def to_string_double_def printf_f_def Let_def sign_str_def pad0_def
      pad_spaces_def decimal_body_plain plain_replicate plain_lits)

lemma vout_plain [simp]: "plain_val (vout x)"
proof -
  have "plain (strip_zeros (decimal_body p n))" for p n
    by (simp add: strip_zeros_def plain_rstrip decimal_body_plain)
  then show ?thesis
    by (cases x) (auto simp: vout_def plain_val_def ostream_double_def pad0_def show_nat_plain plain_replicate plain_lits
        split: prod.splits)
qed

lemma vals_plain [simp]:
  "plain_val (VStr s)" "plain_val (vopt s)" "plain_val (vts s)" "plain_val vnull" "plain_val vnow"
  "plain_val (vflag b)" "plain_val (vopt_dbl d)" "plain_val (vopt_int i)"
  by (auto simp: plain_val_def vopt_def vts_def vflag_def plain_def vopt_dbl_def vopt_int_def
      split: option.splits) (use vdbl_plain vint_plain in \<open>auto simp: plain_val_def plain_def\<close>)

lemma given_plain:
  assumes "\<forall>(c, v)\<in>set fs. plain c \<and> (\<forall>x. v = Some x \<longrightarrow> plain_val x)"
  shows "list_all (\<lambda>(c, v). plain c \<and> plain_val v) (given fs)"
  using assms by (induction fs) (auto simp: given_def map_filter_simps split: option.splits)

lemma opt_plain: "plain c \<Longrightarrow> (case opt_str c v of (c, v) \<Rightarrow> plain c \<and> (\<forall>x. v = Some x \<longrightarrow> plain_val x))"
  "plain c \<Longrightarrow> (case opt_int c i of (c, v) \<Rightarrow> plain c \<and> (\<forall>x. v = Some x \<longrightarrow> plain_val x))"
  "plain c \<Longrightarrow> (case opt_dbl c d of (c, v) \<Rightarrow> plain c \<and> (\<forall>x. v = Some x \<longrightarrow> plain_val x))"
  by (auto simp: opt_str_def opt_int_def opt_dbl_def)

lemma sets_plain:
  "list_all (\<lambda>(c, v). plain c \<and> plain_val v) (sensor_sets f)"
  "list_all (\<lambda>(c, v). plain c \<and> plain_val v) (weather_sets g)"
  "list_all (\<lambda>(c, v). plain c \<and> plain_val v) (export_sets h)"
  unfolding sensor_sets_def weather_sets_def export_sets_def
  by (rule given_plain; simp only: list.set ball_simps; intro conjI ballI TrueI opt_plain; simp add: plain_def)+

lemma by_id_plain [simp]: "list_all plain_cond (by_id i)"
  by (simp add: by_id_def plain_cond_def plain_def)

lemma upsert_plain:
  "plain t \<Longrightarrow> list_all (\<lambda>(c, v). plain c \<and> plain_val v) sets \<Longrightarrow> plain_stmt (upsert_stmt t i sets)"
  by (auto simp: upsert_stmt_def list_all_iff plain_def)


lemma cols_plain:
  "list_all plain kSensorCols" "list_all plain kWeatherCols" "list_all plain kWxReadingCols"
  "list_all plain kExportCols" "list_all plain kUserCols" "list_all plain kExtCols"
  by (simp_all add: kSensorCols_def kWeatherCols_def kWxReadingCols_def kExportCols_def kUserCols_def kExtCols_def)

lemma conds_plain:
  "list_all plain_cond active_cond" "list_all plain_cond (ts_range a b)" "list_all (\<lambda>(c, d). plain c) newest_first"
  by (simp_all add: active_cond_def ts_range_def newest_first_def plain_cond_def plain_val_def)

lemma update_with_guarded:
  assumes "finder' = finder" and "p (Update t sets (by_id i))"
  shows "update_with (guarded p c) t finder' i sets = update_with c t finder i sets"
  using run_guarded [of p "Update t sets (by_id i)" c, OF assms(2)] unfolding update_with_def assms(1) by simp

lemmas plain_all = cols_plain conds_plain plain_cond_def upsert_plain sets_plain plain_show_int

definition checked :: "(string \<Rightarrow> string) \<Rightarrow> 's conn \<Rightarrow> 's conn" where
  "checked esc c = guarded (readable esc) c"



section \<open>Connecting\<close>

text \<open>
  The constructor: \<open>init\<close> says whether \<^verbatim>\<open>mysql_init\<close> gave a handle; \<open>connect host user password
  database port\<close> is \<^verbatim>\<open>mysql_real_connect\<close>, with the text of \<^verbatim>\<open>mysql_error\<close> when it fails.
\<close>

definition db_connect ::
  "bool \<Rightarrow> (string \<Rightarrow> string \<Rightarrow> string \<Rightarrow> string \<Rightarrow> int \<Rightarrow> 's \<Rightarrow> string option \<times> 's) \<Rightarrow> DbConfig \<Rightarrow> ('s, unit) db" where
  "db_connect init connect cfg s =
     (if \<not> init then (throw ''mysql_init failed'', s)
      else case db_endpoint cfg of (host, port) \<Rightarrow>
        (case connect host (dbc_user cfg) (dbc_password cfg) (dbc_database cfg) port s of
           (None, s') \<Rightarrow> (ok (), s')
         | (Some err, s') \<Rightarrow>
             (throw (''cannot connect to MariaDB ('' @ dbc_user cfg @ ''@'' @ host @ '':'' @ show_int port @ ''/'' @
                dbc_database cfg @ ''): '' @ err), s')))"

text \<open>The password is in no error message: the message depends on it only through the server's text.\<close>

lemma connect_error_hides_password:
  assumes "connect = (\<lambda>h u p d n s. (Some err, s))"
  shows "db_connect init connect (cfg\<lparr>dbc_password := p\<rparr>) s = db_connect init connect cfg s"
proof -
  have "db_endpoint (cfg\<lparr>dbc_password := p\<rparr>) = db_endpoint cfg"
    by (simp add: db_endpoint_def Let_def split: option.split)
  then show ?thesis by (simp add: db_connect_def assms)
qed

end
