(* ===== verification/NW_Dsn.thy ===== *)
theory NW_Dsn imports NW_Json NW_Time NW_Database begin

text \<open>
  The community data file of the Dark Sky Network (\<^verbatim>\<open>src/export/dsn_format.cpp\<close>): header
  values from the configuration, the rows and the file name.
\<close>

section \<open>What an export works on\<close>

record ExportContext =
  xc_sensor :: SensorRow
  xc_readings :: "ReadingRow list"
  xc_weather :: "WeatherReadingRow list"
  xc_from_ts :: string
  xc_to_ts :: string

text \<open>\<^verbatim>\<open>config_json.empty() ? json::object() : json::parse(config_json)\<close>\<close>

definition config_object :: "json_parser \<Rightarrow> string \<Rightarrow> json result" where
  "config_object parse config = (if config = [] then ok (JObj []) else parse config)"

definition cfg_or :: "json \<Rightarrow> string \<Rightarrow> string \<Rightarrow> string" where
  "cfg_or cfg k fallback =
     (case str_member cfg k of Some v \<Rightarrow> if v \<noteq> [] then v else fallback | None \<Rightarrow> fallback)"

definition trim_zeros :: "string \<Rightarrow> string" where
  "trim_zeros s =
     (if find_chr CHR ''.'' s = None then s
      else let t = rstrip (\<lambda>c. c = CHR ''0'') s
           in if t \<noteq> [] \<and> last t = CHR ''.'' then butlast t else t)"

definition serial_int :: "string \<Rightarrow> string" where
  "serial_int s = (if s = [] then s else if list_all isdigit s then show_int (atoll s) else s)"

text \<open>\<^verbatim>\<open>snprintf\<close> into a buffer of \<open>n\<close> bytes.\<close>

definition snprintf :: "nat \<Rightarrow> string \<Rightarrow> string" where
  "snprintf n s = take (n - 1) s"

definition fmt_msas :: "double \<Rightarrow> string" where
  "fmt_msas v = trim_zeros (snprintf 32 (printf_f NoFlag 0 2 v))"

definition printf_plus_d :: "int \<Rightarrow> string" where
  "printf_plus_d i = (if i < 0 then show_int i else CHR ''+'' # show_int i)"

definition or_zero :: "double option \<Rightarrow> double" where
  "or_zero v = (case v of None \<Rightarrow> dzero | Some x \<Rightarrow> x)"

definition position_text :: "SensorRow \<Rightarrow> string" where
  "position_text s = snprintf 96
     (printf_f PlusFlag 0 4 (or_zero (sn_latitude s)) @ '', '' @
      printf_f PlusFlag 0 4 (or_zero (sn_longitude s)) @ '', '' @
      printf_plus_d (to_i32 (lround (or_zero (sn_elevation_m s)))))"

definition kEol :: string where "kEol = [CHR 0x0D, CHR 0x0A]"

definition dsn_tz :: "json \<Rightarrow> SensorRow \<Rightarrow> string" where
  "dsn_tz cfg s = cfg_or cfg ''timezone'' (sn_timezone s)"

definition dsn_header :: "json \<Rightarrow> SensorRow \<Rightarrow> string list" where
  "dsn_header cfg s =
     [''# Community Standard Skyglow Data Format 1.0'',
      ''# URL: http://www.darksky.org/NSBM/sdf1.0.pdf'',
      ''# Number of header lines: 35'',
      ''# This data is released under the following license: ODbL 1.0 '' @
        ''http://opendatacommons.org/licenses/odbl/summary/'',
      ''# Device type: '' @ cfg_or cfg ''device_type'' (if sn_model s = [] then ''SQM-LE/LU'' else sn_model s),
      ''# Instrument ID: '' @ cfg_or cfg ''instrument_id'' (sn_id s),
      ''# Data supplier: '' @ cfg_or cfg ''data_supplier'' [],
      ''# Location name: '' @ cfg_or cfg ''location_name'' (if sn_site s = [] then sn_name s else sn_site s),
      ''# Position (lat, lon, elev(m)): '' @ position_text s,
      ''# Local timezone: '' @ dsn_tz cfg s,
      ''# Time Synchronization: '' @ cfg_or cfg ''time_sync'' ''NTP'',
      ''# Moving / Stationary position: STATIONARY'',
      ''# Moving / Fixed look direction: FIXED'',
      ''# Number of channels: 1'',
      ''# Filters per channel: '' @ cfg_or cfg ''filter'' ''HOYA CM-500'',
      ''# Measurement direction per channel: 0, 0'',
      ''# Field of view (degrees): '' @ cfg_or cfg ''fov'' ''20'',
      ''# Number of fields per line: 6'',
      ''# SQM serial number: '' @ serial_int (sn_serial_number s),
      ''# SQM firmware version: '' @ cfg_or cfg ''firmware'' [],
      ''# SQM cover offset value: '' @ cfg_or cfg ''cover_offset'' ''0'',
      ''# SQM readout test ix: '' @ cfg_or cfg ''ix_test'' [],
      ''# SQM readout test rx: '' @ cfg_or cfg ''rx_test'' [],
      ''# SQM readout test cx: '' @ cfg_or cfg ''cx_test'' [],
      ''# Comment: '' @ cfg_or cfg ''comment'' ''Data acquired by NightWatcher2'',
      ''# Comment: '', ''# Comment: '', ''# Comment: '', ''# Comment: '',
      ''# blank line 30'', ''# blank line 31'', ''# blank line 32'',
      ''# UTC Date & Time, Local Date & Time, Temperature, Counts, Frequency, MSAS'',
      ''# YYYY-MM-DDTHH:mm:ss.fff;YYYY-MM-DDTHH:mm:ss.fff;Celsius;number;Hz;mag/arcsec^2'',
      ''# END OF HEADER'']"

definition dsn_times :: "zoneinfo \<Rightarrow> string \<Rightarrow> string \<Rightarrow> string \<times> string" where
  "dsn_times zi tz ts =
     (case parse_sql_utc ts of
        None \<Rightarrow> (ts, ts)
      | Some t \<Rightarrow> (fmt_iso_ms (gmtime t), fmt_iso_ms (local_tm zi t tz)))"

definition dsn_row :: "zoneinfo \<Rightarrow> string \<Rightarrow> bool \<Rightarrow> ReadingRow \<Rightarrow> string" where
  "dsn_row zi tz include_cf r =
     (case dsn_times zi tz (rr_ts_utc r) of (utc_iso, loc_iso) \<Rightarrow>
        utc_iso @ '';'' @ loc_iso @ '';'' @ snprintf 16 (printf_f NoFlag 0 1 (rr_temp_c r)) @ '';'' @
        (if include_cf then show_int (rr_period_counts r) else []) @ '';'' @
        (if include_cf then show_int (rr_freq_hz r) else []) @ '';'' @ fmt_msas (rr_mag_arcsec2 r))"

definition format_dsn_dat :: "json_parser \<Rightarrow> zoneinfo \<Rightarrow> ExportContext \<Rightarrow> string \<Rightarrow> string result" where
  "format_dsn_dat parse zi ctx config =
     then_res (config_object parse config) (\<lambda>cfg.
     then_res (value_or get_bool cfg ''include_counts_freq'' False) (\<lambda>include_cf.
       ok (concat (map (\<lambda>h. h @ kEol) (dsn_header cfg (xc_sensor ctx))) @
           concat (map (\<lambda>r. dsn_row zi (dsn_tz cfg (xc_sensor ctx)) include_cf r @ kEol) (xc_readings ctx)))))"

text \<open>The file is named after the local month its window ends in.\<close>

definition dsn_when :: "ExportContext \<Rightarrow> string" where
  "dsn_when ctx =
     (let w = xc_to_ts ctx;
          w = (if w = [] \<and> xc_readings ctx \<noteq> [] then rr_ts_utc (last (xc_readings ctx)) else w)
      in if w = [] then xc_from_ts ctx else w)"

definition dsn_file_name :: "json_parser \<Rightarrow> zoneinfo \<Rightarrow> ExportContext \<Rightarrow> string \<Rightarrow> string result" where
  "dsn_file_name parse zi ctx config =
     then_res (config_object parse config) (\<lambda>cfg.
       let site_id = cfg_or cfg ''site_id'' (sn_id (xc_sensor ctx));
           supplier = cfg_or cfg ''supplier'' [];
           ym = local_ym zi (dsn_when ctx) (dsn_tz cfg (xc_sensor ctx));
           yymm = (if 7 \<le> length ym then substr ym 2 else ''00-00'')
       in ok (site_id @ (if supplier \<noteq> [] then ''_'' @ supplier else []) @ ''_'' @ yymm @ ''.dat''))"

section \<open>Shape of the file\<close>

definition num_chr :: "char \<Rightarrow> bool" where
  "num_chr c \<longleftrightarrow> isdigit c \<or> c \<in> set ''+-. infa''"

lemma num_chr_not: "num_chr c \<Longrightarrow> c \<noteq> CHR 0x0A \<and> c \<noteq> CHR '';'' \<and> c \<noteq> CHR 0x0D"
  by (auto simp: num_chr_def isdigit_def)

lemma printf_f_chrs: "c \<in> set (printf_f fl w p x) \<Longrightarrow> num_chr c"
proof -
  have nat: "\<forall>c\<in>set (show_nat n). num_chr c" for n
    using show_nat_digits by (auto simp: num_chr_def)
  have zero: "num_chr CHR ''0''" by (simp add: num_chr_def)
  have pad: "\<forall>c\<in>set s. num_chr c \<Longrightarrow> \<forall>c\<in>set (pad0 k s). num_chr c" for k s
    using zero by (auto simp: pad0_def)
  have body: "\<forall>c\<in>set (decimal_body p n). num_chr c" for n
    using nat pad [OF nat] by (auto simp: decimal_body_def) (simp add: num_chr_def)
  have sg: "\<forall>c\<in>set (sign_str fl b). num_chr c" for b
    by (cases fl) (auto simp: sign_str_def num_chr_def)
  have lits: "num_chr CHR '' ''" "num_chr CHR ''i''" "num_chr CHR ''n''" "num_chr CHR ''f''" "num_chr CHR ''a''"
    by (simp_all add: num_chr_def)
  assume "c \<in> set (printf_f fl w p x)"
  then show ?thesis
    using body pad [OF body] sg lits
    by (cases x) (auto simp: printf_f_def Let_def pad_spaces_def split: if_splits)
qed

lemma show_int_chrs: "c \<in> set (show_int i) \<Longrightarrow> num_chr c"
  using show_nat_digits by (auto simp: show_int_def num_chr_def split: if_splits)

lemma set_trim_zeros: "set (trim_zeros s) \<subseteq> set s"
proof -
  have "set (rstrip p s) \<subseteq> set s" for p
    using rstrip_prefix [of s p] by (metis Un_iff set_append subsetI)
  then show ?thesis by (auto simp: trim_zeros_def Let_def dest: in_set_butlastD)
qed

lemma trim_zeros_nonempty:
  assumes "s \<noteq> []" and "hd s \<noteq> CHR ''.''"
  shows "trim_zeros s \<noteq> []"
proof (cases "find_chr CHR ''.'' s")
  case None
  then show ?thesis using assms by (simp add: trim_zeros_def)
next
  case (Some k)
  define t where "t = rstrip (\<lambda>c. c = CHR ''0'') s"
  obtain u where u: "s = t @ u" "\<forall>c\<in>set u. c = CHR ''0''"
    using rstrip_prefix [of s "\<lambda>c. c = CHR ''0''"] unfolding t_def by blast
  have "find_chr CHR ''.'' s \<noteq> None" using Some by simp
  then have "CHR ''.'' \<in> set s" by (simp add: find_chr_None_iff)
  moreover have "CHR ''.'' \<notin> set u"
  proof
    assume "CHR ''.'' \<in> set u"
    from bspec [OF u(2) this] show False by simp
  qed
  ultimately have d: "CHR ''.'' \<in> set t" by (simp add: u(1))
  show ?thesis
  proof (cases t)
    case Nil
    then show ?thesis using d by simp
  next
    case (Cons a r)
    then have "a \<noteq> CHR ''.''" using assms(2) u(1) by simp
    then have "r \<noteq> []" using d Cons by auto
    then show ?thesis using Some Cons unfolding trim_zeros_def Let_def t_def [symmetric] by simp
  qed
qed

lemma fmt_msas_nonempty: "fmt_msas v \<noteq> []"
proof -
  have sn: "\<exists>a r. show_nat n = a # r \<and> isdigit a" for n
    using show_nat_digits [of n] show_nat_nonempty [of n] by (cases "show_nat n") auto
  have "\<exists>a r. printf_f NoFlag 0 2 v = a # r \<and> a \<noteq> CHR ''.''"
  proof (cases v)
    case (Fin s m e)
    obtain a r where "show_nat (scale10 2 m e div 10 ^ 2) = a # r" "isdigit a" using sn by blast
    then show ?thesis
      by (cases s) (auto simp: Fin printf_f_def Let_def pad0_def decimal_body_def sign_str_def isdigit_def)
  next
    case (Inf s)
    then show ?thesis by (cases s) (auto simp: printf_f_def pad_spaces_def sign_str_def)
  next
    case NaN
    then show ?thesis by (auto simp: printf_f_def pad_spaces_def sign_str_def)
  qed
  then obtain a r where p: "printf_f NoFlag 0 2 v = a # r" "a \<noteq> CHR ''.''" by blast
  then have "snprintf 32 (printf_f NoFlag 0 2 v) \<noteq> []" "hd (snprintf 32 (printf_f NoFlag 0 2 v)) \<noteq> CHR ''.''"
    by (simp_all add: snprintf_def)
  then show ?thesis unfolding fmt_msas_def by (rule trim_zeros_nonempty)
qed

lemma fmt_msas_chrs: "c \<in> set (fmt_msas v) \<Longrightarrow> num_chr c"
  using set_trim_zeros by (auto simp: fmt_msas_def snprintf_def dest: in_set_takeD printf_f_chrs)

definition field_text :: "string \<Rightarrow> bool" where
  "field_text s \<longleftrightarrow> CHR '';'' \<notin> set s \<and> CHR 0x0A \<notin> set s"

lemma printf_d0_digits: "c \<in> set (printf_d0 w i) \<Longrightarrow> isdigit c \<or> c = CHR ''-''"
  using pad0_digits [OF show_nat_digits] by (auto simp: printf_d0_def split: if_splits)

lemma iso_field_text: "field_text (fmt_iso_ms t)"
proof -
  have "c \<noteq> CHR '';'' \<and> c \<noteq> CHR 0x0A" if "c \<in> set (printf_d0 w i)" for c w i
    using printf_d0_digits [OF that] by (auto simp: isdigit_def)
  then show ?thesis by (auto simp: field_text_def fmt_iso_ms_def date_text_def clock_text_def)
qed

lemma num_field_text: "(\<And>c. c \<in> set s \<Longrightarrow> num_chr c) \<Longrightarrow> field_text s"
  using num_chr_not by (auto simp: field_text_def)

lemma dsn_times_field_text:
  "field_text ts \<Longrightarrow> dsn_times zi tz ts = (u, l) \<Longrightarrow> field_text u \<and> field_text l"
  by (auto simp: dsn_times_def iso_field_text split: option.splits)

lemma six_fields:
  assumes "CHR '';'' \<notin> set (a @ b @ c @ d @ e @ f)" and "f \<noteq> []"
  shows "getline_split (a @ '';'' @ b @ '';'' @ c @ '';'' @ d @ '';'' @ e @ '';'' @ f) CHR '';'' = [a, b, c, d, e, f]"
  using assms by (simp add: getline_split_step getline_split_last)

lemma dsn_row_fields:
  assumes "field_text (rr_ts_utc r)"
  shows "length (getline_split (dsn_row zi tz cf r) CHR '';'') = 6 \<and>
    list_all field_text (getline_split (dsn_row zi tz cf r) CHR '';'') \<and> CHR 0x0A \<notin> set (dsn_row zi tz cf r)"
proof -
  obtain u l where ul: "dsn_times zi tz (rr_ts_utc r) = (u, l)" by (cases "dsn_times zi tz (rr_ts_utc r)")
  define t where "t = snprintf 16 (printf_f NoFlag 0 1 (rr_temp_c r))"
  define a where "a = (if cf then show_int (rr_period_counts r) else [])"
  define b where "b = (if cf then show_int (rr_freq_hz r) else [])"
  have f: "field_text u" "field_text l" using dsn_times_field_text [OF assms ul] by simp_all
  have n: "field_text t" "field_text a" "field_text b" "field_text (fmt_msas (rr_mag_arcsec2 r))"
    by (auto intro!: num_field_text simp: t_def a_def b_def snprintf_def
        dest: in_set_takeD printf_f_chrs show_int_chrs fmt_msas_chrs split: if_splits)
  have row: "dsn_row zi tz cf r = u @ '';'' @ l @ '';'' @ t @ '';'' @ a @ '';'' @ b @ '';'' @ fmt_msas (rr_mag_arcsec2 r)"
    by (simp add: dsn_row_def ul t_def a_def b_def)
  have "getline_split (dsn_row zi tz cf r) CHR '';'' = [u, l, t, a, b, fmt_msas (rr_mag_arcsec2 r)]"
    unfolding row using f n by (intro six_fields) (auto simp: field_text_def fmt_msas_nonempty)
  then show ?thesis using f n by (simp add: row field_text_def)
qed

lemma getline_split_crlf_lines:
  "(\<And>l. l \<in> set ls \<Longrightarrow> CHR 0x0A \<notin> set l) \<Longrightarrow>
   getline_split (concat (map (\<lambda>l. l @ kEol) ls)) CHR 0x0A = map (\<lambda>l. l @ [CHR 0x0D]) ls"
proof (induction ls)
  case Nil
  then show ?case by simp
next
  case (Cons l ls)
  have "getline_split ((l @ [CHR 0x0D]) @ CHR 0x0A # concat (map (\<lambda>l. l @ kEol) ls)) CHR 0x0A =
      (l @ [CHR 0x0D]) # getline_split (concat (map (\<lambda>l. l @ kEol) ls)) CHR 0x0A"
    using Cons.prems by (intro getline_split_step) simp
  then show ?case using Cons by (simp add: kEol_def)
qed

definition one_liner :: "string \<Rightarrow> bool" where
  "one_liner s \<longleftrightarrow> CHR 0x0A \<notin> set s"

definition site_clean :: "json \<Rightarrow> SensorRow \<Rightarrow> bool" where
  "site_clean cfg s \<longleftrightarrow>
     list_all one_liner [sn_id s, sn_name s, sn_site s, sn_model s, sn_serial_number s, sn_timezone s] \<and>
     (\<forall>(k, v)\<in>set (members cfg). case v of JStr t \<Rightarrow> one_liner t | _ \<Rightarrow> True)"

lemma cfg_or_one_liner:
  assumes "site_clean cfg s" and "one_liner d"
  shows "one_liner (cfg_or cfg k d)"
proof (cases "str_member cfg k")
  case None
  then show ?thesis using assms by (simp add: cfg_or_def)
next
  case (Some v)
  then have "(k, JStr v) \<in> set (members cfg)"
    by (cases cfg) (auto simp: str_member_def member_def members_def dest: map_of_SomeD split: option.splits json.splits)
  then have "one_liner v" using assms(1) by (auto simp: site_clean_def)
  then show ?thesis using assms(2) by (simp add: cfg_or_def Some)
qed

lemma header_lines:
  assumes "site_clean cfg s"
  shows "length (dsn_header cfg s) = 35 \<and> (\<forall>h\<in>set (dsn_header cfg s). one_liner h)"
proof -
  have c: "one_liner (cfg_or cfg k d)" if "one_liner d" for k d
    using cfg_or_one_liner [OF assms that] .
  have f: "one_liner (sn_id s)" "one_liner (sn_name s)" "one_liner (sn_site s)" "one_liner (sn_model s)"
    "one_liner (sn_serial_number s)" "one_liner (sn_timezone s)"
    using assms by (simp_all add: site_clean_def)
  have ap: "one_liner (a @ b) \<longleftrightarrow> one_liner a \<and> one_liner b" for a b by (auto simp: one_liner_def)
  have num: "one_liner t" if "\<And>c. c \<in> set t \<Longrightarrow> num_chr c" for t
    using that num_chr_not by (auto simp: one_liner_def)
  have "one_liner (position_text s)"
    using num_chr_not [of "CHR 0x0A"] by (auto simp: position_text_def snprintf_def one_liner_def printf_plus_d_def
        dest!: in_set_takeD printf_f_chrs show_int_chrs split: if_splits)
  moreover have "one_liner (serial_int (sn_serial_number s))"
    using f(5) num [of "show_int (atoll (sn_serial_number s))"] show_int_chrs by (auto simp: serial_int_def)
  moreover have "one_liner (dsn_tz cfg s)" unfolding dsn_tz_def by (rule c [OF f(6)])
  ultimately show ?thesis
    using c [of "''SQM-LE/LU''"] c [OF f(4)] c [OF f(1)] c [of "[]"] c [of "''NTP''"] c [OF f(2)] c [OF f(3)]
      c [of "''HOYA CM-500''"] c [of "''20''"] c [of "''0''"] c [of "''Data acquired by NightWatcher2''"] f
    unfolding dsn_header_def
    by (simp add: ap del: append_Cons append_Nil) (simp add: one_liner_def split: if_splits)
qed


definition demo_reading :: ReadingRow where
  "demo_reading = \<lparr>rr_id = 1, rr_sensor_id = ''s1'', rr_ts_utc = ''2026-07-19 03:45:42'',
     rr_mag_arcsec2 = Fin False 157 (- 3), rr_freq_hz = 12, rr_period_counts = 40, rr_period_s = dzero,
     rr_temp_c = dzero, rr_quality = ''ok'', rr_source = ''poll'', rr_raw_line = []\<rparr>"

definition demo_sensor :: SensorRow where
  "demo_sensor = sensor_from_row [Some ''s1'', Some ''Roof'', None, Some ''00007141'']"

definition utc_zone :: zoneinfo where
  "utc_zone = \<lparr>zi_off = \<lambda>_ _. 0, zi_mk = \<lambda>_ t. t\<rparr>"


end
