(* ===== verification/NW_Drive.thy ===== *)
theory NW_Drive imports NW_Json NW_Database NW_Time begin

text \<open>
  What the networked parts ask of the world, and the Google Drive client
  (\<^verbatim>\<open>src/export/gdrive.cpp\<close>): URL and token encodings, the authentication an export target's
  configuration gives, and the create-or-update of a file by name. One HTTP exchange, the JSON
  reader and printer, base64, signing and the clock are fields of the record \<open>services\<close>.
\<close>

section \<open>Services\<close>

text \<open>\<open>hq_verify\<close> tells whether the certificate of the server is checked.\<close>

record http_req =
  hq_method :: string
  hq_base :: string
  hq_path :: string
  hq_headers :: "(string \<times> string) list"
  hq_body :: string
  hq_ctype :: string
  hq_verify :: bool

text \<open>\<^verbatim>\<open>httplib::Result\<close>: no response (the error's name), or status and body.\<close>

datatype http_result = HttpError string | HttpResponse int string

datatype write_outcome = Written | CannotOpen | WriteFailed

record 's services =
  sv_parse :: json_parser
  sv_dump :: json_printer
  sv_http :: "http_req \<Rightarrow> 's \<Rightarrow> http_result \<times> 's"
  sv_write :: "string \<Rightarrow> string \<Rightarrow> 's \<Rightarrow> write_outcome \<times> 's"
  sv_now :: "'s \<Rightarrow> int"
  sv_zone :: zoneinfo
  sv_b64 :: "string \<Rightarrow> string"
  sv_sign :: "string \<Rightarrow> string \<Rightarrow> string result"

definition http_get :: "string \<Rightarrow> string \<Rightarrow> (string \<times> string) list \<Rightarrow> http_req" where
  "http_get base path headers =
     \<lparr>hq_method = ''GET'', hq_base = base, hq_path = path, hq_headers = headers, hq_body = [], hq_ctype = [],
      hq_verify = True\<rparr>"

definition http_send :: "string \<Rightarrow> string \<Rightarrow> string \<Rightarrow> (string \<times> string) list \<Rightarrow> string \<Rightarrow> string \<Rightarrow> http_req" where
  "http_send meth base path headers body ctype =
     \<lparr>hq_method = meth, hq_base = base, hq_path = path, hq_headers = headers, hq_body = body, hq_ctype = ctype,
      hq_verify = True\<rparr>"

text \<open>A result as a computation.\<close>

definition db_lift :: "'a result \<Rightarrow> ('s, 'a) db" where
  "db_lift r s = (r, s)"

definition success :: "int \<Rightarrow> bool" where
  "success status \<longleftrightarrow> 200 \<le> status \<and> status < 300"

section \<open>Encodings\<close>

definition hex_upper :: "nat \<Rightarrow> char" where
  "hex_upper n = ''0123456789ABCDEF'' ! n"

definition url_safe :: "char \<Rightarrow> bool" where
  "url_safe c \<longleftrightarrow> isalnum c \<or> c = CHR ''-'' \<or> c = CHR ''_'' \<or> c = CHR ''.'' \<or> c = CHR ''~''"

definition url_encode :: "string \<Rightarrow> string" where
  "url_encode s = concat (map (\<lambda>c.
     if url_safe c then [c] else [CHR ''%'', hex_upper (code_of c div 16), hex_upper (code_of c mod 16)]) s)"

definition b64_chr :: "char \<Rightarrow> char" where
  "b64_chr c = (if c = CHR ''+'' then CHR ''-'' else if c = CHR ''/'' then CHR ''_'' else c)"

definition base64url :: "'s services \<Rightarrow> string \<Rightarrow> string" where
  "base64url sv data =
     rstrip (\<lambda>c. c = CHR ''='') (map b64_chr (if data = [] then [] else sv_b64 sv data))"

text \<open>The two copies of \<^verbatim>\<open>split_url\<close>, of the Drive client and of the exporters.\<close>

definition drive_split_url :: "string \<Rightarrow> string \<times> string" where
  "drive_split_url url =
     (let start = (case find_str ''://'' url of None \<Rightarrow> 0 | Some p \<Rightarrow> p + 3)
      in case find_chr_from CHR ''/'' url start of
           None \<Rightarrow> (url, ''/'')
         | Some slash \<Rightarrow> (substr_n url 0 slash, substr url slash))"

definition split_url :: "string \<Rightarrow> string \<times> string" where
  "split_url url =
     (case (case find_str ''://'' url of
              None \<Rightarrow> find_chr CHR ''/'' url
            | Some scheme \<Rightarrow> find_chr_from CHR ''/'' url (scheme + 3)) of
        None \<Rightarrow> (url, ''/'')
      | Some slash \<Rightarrow> (substr_n url 0 slash, substr url slash))"

section \<open>Requests\<close>

definition check_response :: "http_result \<Rightarrow> string \<Rightarrow> string result" where
  "check_response res what =
     (case res of
        HttpError e \<Rightarrow> throw (what @ '' failed: '' @ e)
      | HttpResponse status body \<Rightarrow>
          if success status then ok body
          else throw (what @ '': HTTP '' @ show_int status @ '' '' @ take 300 body))"

definition http_checked :: "'s services \<Rightarrow> http_req \<Rightarrow> string \<Rightarrow> ('s, string) db" where
  "http_checked sv req what s = (case sv_http sv req s of (res, s') \<Rightarrow> (check_response res what, s'))"

definition post_form :: "'s services \<Rightarrow> string \<Rightarrow> string \<Rightarrow> ('s, json) db" where
  "post_form sv url body =
     (case drive_split_url url of (base, path) \<Rightarrow>
        db_bind (http_checked sv (http_send ''POST'' base path [] body ''application/x-www-form-urlencoded'')
                   (''token request to '' @ base))
          (\<lambda>b. db_lift (sv_parse sv b)))"

definition service_account_jwt ::
  "'s services \<Rightarrow> string \<Rightarrow> string \<Rightarrow> string \<Rightarrow> string \<Rightarrow> int \<Rightarrow> int \<Rightarrow> string result" where
  "service_account_jwt sv client_email private_key scope aud iat exp =
     (let hdr = obj [(''alg'', JStr ''RS256''), (''typ'', JStr ''JWT'')];
          claims = obj [(''iss'', JStr client_email), (''scope'', JStr scope), (''aud'', JStr aud),
                        (''iat'', JInt iat), (''exp'', JInt exp)];
          signing_input = base64url sv (sv_dump sv hdr) @ ''.'' @ base64url sv (sv_dump sv claims)
      in then_res (sv_sign sv signing_input private_key) (\<lambda>sig.
           ok (signing_input @ ''.'' @ base64url sv sig)))"

record DriveAuth =
  da_mode :: string
  da_client_email :: string
  da_private_key :: string
  da_client_id :: string
  da_client_secret :: string
  da_refresh_token :: string
  da_token_uri :: string

definition drive_auth_default :: DriveAuth where
  "drive_auth_default =
     \<lparr>da_mode = [], da_client_email = [], da_private_key = [], da_client_id = [], da_client_secret = [],
      da_refresh_token = [], da_token_uri = ''https://oauth2.googleapis.com/token''\<rparr>"

definition access_token_of :: "'s services \<Rightarrow> string \<Rightarrow> json \<Rightarrow> string result" where
  "access_token_of sv what j =
     (case member j ''access_token'' of
        None \<Rightarrow> throw (what @ '' token response missing access_token: '' @ take 200 (sv_dump sv j))
      | Some t \<Rightarrow> get_str t)"

definition access_token :: "'s services \<Rightarrow> DriveAuth \<Rightarrow> ('s, string) db" where
  "access_token sv a s =
     (if da_mode a = ''service_account''
      then let now = sv_now sv s
           in db_bind (db_lift (service_account_jwt sv (da_client_email a) (da_private_key a)
                                  ''https://www.googleapis.com/auth/drive'' (da_token_uri a) now (now + 3600)))
                (\<lambda>jwt. db_bind (post_form sv (da_token_uri a)
                    (''grant_type='' @ url_encode ''urn:ietf:params:oauth:grant-type:jwt-bearer'' @
                     ''&assertion='' @ url_encode jwt))
                  (\<lambda>j. db_lift (access_token_of sv ''service-account'' j))) s
      else if da_mode a = ''oauth''
      then db_bind (post_form sv (da_token_uri a)
               (''client_id='' @ url_encode (da_client_id a) @ ''&client_secret='' @ url_encode (da_client_secret a) @
                ''&refresh_token='' @ url_encode (da_refresh_token a) @ ''&grant_type=refresh_token''))
             (\<lambda>j. db_lift (access_token_of sv ''oauth'' j)) s
      else (throw ''drive auth mode must be service_account or oauth'', s))"

section \<open>Files in a folder\<close>

definition drive_base :: string where "drive_base = ''https://www.googleapis.com''"

definition search_path :: "string \<Rightarrow> string \<Rightarrow> string" where
  "search_path folder name0 =
     ''/drive/v3/files?q='' @
     url_encode (''name = '' @ quoted name0 @ '' and '' @ quoted folder @ '' in parents and trashed = false'') @
     ''&fields='' @ url_encode ''files(id,name)'' @ ''&spaces=drive'' @
     ''&supportsAllDrives=true&includeItemsFromAllDrives=true''"

definition existing_id :: "json \<Rightarrow> string result" where
  "existing_id sj =
     (case member sj ''files'' of Some (JArr (f # _)) \<Rightarrow> value_or get_str f ''id'' [] | _ \<Rightarrow> ok [])"

definition crlf :: string where "crlf = [CHR 0x0D, CHR 0x0A]"

definition multipart_body :: "string \<Rightarrow> string \<Rightarrow> string \<Rightarrow> string" where
  "multipart_body meta mime content =
     (let boundary = ''nwexport_boundary_dsn''
      in ''--'' @ boundary @ crlf @ ''Content-Type: application/json; charset=UTF-8'' @ crlf @ crlf @
         meta @ crlf @ ''--'' @ boundary @ crlf @ ''Content-Type: '' @ mime @ crlf @ crlf @
         content @ crlf @ ''--'' @ boundary @ ''--'')"

definition drive_update :: "string \<Rightarrow> (string \<times> string) list \<Rightarrow> string \<Rightarrow> string \<Rightarrow> http_req" where
  "drive_update existing hdr content mime =
     http_send ''PATCH'' drive_base
       (''/upload/drive/v3/files/'' @ existing @ ''?uploadType=media&supportsAllDrives=true'') hdr content mime"

definition drive_create :: "'s services \<Rightarrow> string \<Rightarrow> string \<Rightarrow> (string \<times> string) list \<Rightarrow> string \<Rightarrow> string \<Rightarrow> http_req" where
  "drive_create sv folder name0 hdr content mime =
     http_send ''POST'' drive_base ''/upload/drive/v3/files?uploadType=multipart&supportsAllDrives=true'' hdr
       (multipart_body (sv_dump sv (obj [(''name'', JStr name0), (''parents'', JArr [JStr folder])])) mime content)
       ''multipart/related; boundary=nwexport_boundary_dsn''"

definition upload_or_update ::
  "'s services \<Rightarrow> DriveAuth \<Rightarrow> string \<Rightarrow> string \<Rightarrow> string \<Rightarrow> string \<Rightarrow> ('s, string) db" where
  "upload_or_update sv a folder name0 content mime =
     db_bind (access_token sv a) (\<lambda>tok.
       let hdr = [(''Authorization'', ''Bearer '' @ tok)]
       in db_bind (http_checked sv (http_get drive_base (search_path folder name0) hdr) ''drive file search'') (\<lambda>b.
          db_bind (db_lift (then_res (sv_parse sv b) existing_id)) (\<lambda>existing.
            if existing \<noteq> []
            then db_map (\<lambda>_. existing) (http_checked sv (drive_update existing hdr content mime) ''drive file update'')
            else db_bind (http_checked sv (drive_create sv folder name0 hdr content mime) ''drive file create'')
                   (\<lambda>cb. db_lift (then_res (sv_parse sv cb) (\<lambda>cj. value_or get_str cj ''id'' []))))))"

section \<open>Authentication from a configuration\<close>

definition auth_object :: "json \<Rightarrow> json" where
  "auth_object cfg =
     (case member cfg ''auth'' of Some a \<Rightarrow> if is_object a then a else cfg | None \<Rightarrow> cfg)"

definition auth_mode :: "json \<Rightarrow> string result" where
  "auth_mode a =
     then_res (value_or get_str a ''mode'' []) (\<lambda>m.
       ok (if m \<noteq> [] then m else if has a ''private_key'' then ''service_account''
           else if has a ''refresh_token'' then ''oauth'' else []))"

definition service_auth :: "json \<Rightarrow> DriveAuth \<Rightarrow> DriveAuth result" where
  "service_auth a d =
     then_res (value_or get_str a ''client_email'' []) (\<lambda>email.
     then_res (value_or get_str a ''private_key'' []) (\<lambda>key.
       if email = [] \<or> key = [] then throw ''service_account auth requires client_email and private_key''
       else ok (d\<lparr>da_client_email := email, da_private_key := key\<rparr>)))"

definition oauth_auth :: "json \<Rightarrow> DriveAuth \<Rightarrow> DriveAuth result" where
  "oauth_auth a d =
     then_res (value_or get_str a ''client_id'' []) (\<lambda>cid.
     then_res (value_or get_str a ''client_secret'' []) (\<lambda>secret.
     then_res (value_or get_str a ''refresh_token'' []) (\<lambda>rt.
       if cid = [] \<or> secret = [] \<or> rt = []
       then throw ''oauth auth requires client_id, client_secret, and refresh_token''
       else ok (d\<lparr>da_client_id := cid, da_client_secret := secret, da_refresh_token := rt\<rparr>))))"

definition drive_auth_from_config :: "json_parser \<Rightarrow> string \<Rightarrow> DriveAuth result" where
  "drive_auth_from_config parse config =
     then_res (if config = [] then ok (JObj []) else parse config) (\<lambda>cfg.
       let a = auth_object cfg
       in then_res (auth_mode a) (\<lambda>m.
            let d = drive_auth_default\<lparr>da_mode := m,
                      da_token_uri := (case str_member a ''token_uri'' of
                        Some u \<Rightarrow> if u \<noteq> [] then u else da_token_uri drive_auth_default
                      | None \<Rightarrow> da_token_uri drive_auth_default)\<rparr>
            in if m = ''service_account'' then service_auth a d
               else if m = ''oauth'' then oauth_auth a d
               else throw (''drive auth: set '' @ [CHR 0x22] @ ''mode'' @ [CHR 0x22] @ '' to service_account or oauth'')))"

section \<open>The consent flow\<close>

definition oauth_consent_url :: "string \<Rightarrow> string \<Rightarrow> string \<Rightarrow> string" where
  "oauth_consent_url client_id redirect_uri scope =
     ''https://accounts.google.com/o/oauth2/v2/auth?client_id='' @ url_encode client_id @
     ''&redirect_uri='' @ url_encode redirect_uri @ ''&response_type=code&scope='' @ url_encode scope @
     ''&access_type=offline&prompt=consent''"

definition oauth_exchange_code ::
  "'s services \<Rightarrow> string \<Rightarrow> string \<Rightarrow> string \<Rightarrow> string \<Rightarrow> ('s, string) db" where
  "oauth_exchange_code sv client_id client_secret auth_code redirect_uri =
     db_bind (post_form sv ''https://oauth2.googleapis.com/token''
         (''code='' @ url_encode auth_code @ ''&client_id='' @ url_encode client_id @ ''&client_secret='' @
          url_encode client_secret @ ''&redirect_uri='' @ url_encode redirect_uri @ ''&grant_type=authorization_code''))
       (\<lambda>j. db_lift (value_or get_str j ''refresh_token'' []))"

text \<open>The helper program \<^verbatim>\<open>nwexport-auth\<close> (\<^verbatim>\<open>src/cli/gdrive_auth.cpp\<close>).\<close>

definition plus_space :: "char \<Rightarrow> char" where
  "plus_space c = (if c = CHR ''+'' then CHR '' '' else c)"

fun url_decode :: "string \<Rightarrow> string result" where
  "url_decode [] = ok []"
| "url_decode [c] = ok [plus_space c]"
| "url_decode [c, a] = then_res (url_decode [a]) (\<lambda>t. ok (plus_space c # t))"
| "url_decode (c # a # b # r) =
     (if c = CHR ''%''
      then then_res (stoi16 [a, b]) (\<lambda>v. then_res (url_decode r) (\<lambda>t. ok (char_of (nat (v mod 256)) # t)))
      else then_res (url_decode (a # b # r)) (\<lambda>t. ok (plus_space c # t)))"

definition line_end :: "char \<Rightarrow> bool" where
  "line_end c \<longleftrightarrow> c = CHR 0x0A \<or> c = CHR 0x0D \<or> c = CHR '' ''"

definition extract_code :: "string \<Rightarrow> string result" where
  "extract_code inp =
     (let inp = (case find_str ''code='' inp of
             None \<Rightarrow> inp
           | Some p \<Rightarrow>
               let rest = substr inp (p + 5)
               in case find_chr CHR ''&'' rest of None \<Rightarrow> rest | Some amp \<Rightarrow> substr_n rest 0 amp)
      in url_decode (dropWhile (\<lambda>c. c = CHR '' '') (rstrip line_end inp)))"

record auth_args =
  aa_client_id :: string
  aa_client_secret :: string
  aa_redirect :: string

fun parse_auth_args :: "auth_args \<Rightarrow> string list \<Rightarrow> auth_args" where
  "parse_auth_args opts [] = opts"
| "parse_auth_args opts (a # r) =
     (case r of
        v # r' \<Rightarrow>
          if a = ''--client-id'' then parse_auth_args (opts\<lparr>aa_client_id := v\<rparr>) r'
          else if a = ''--client-secret'' then parse_auth_args (opts\<lparr>aa_client_secret := v\<rparr>) r'
          else if a = ''--redirect'' then parse_auth_args (opts\<lparr>aa_redirect := v\<rparr>) r'
          else if a = ''-h'' \<or> a = ''--help'' then opts\<lparr>aa_client_id := []\<rparr>
          else parse_auth_args opts r
      | [] \<Rightarrow> if a = ''-h'' \<or> a = ''--help'' then opts\<lparr>aa_client_id := []\<rparr> else opts)"

text \<open>The outcome of a run: an exit code, or the refresh token that is printed; an exception
  outside the \<^verbatim>\<open>try\<close> block ends the program.\<close>

datatype auth_outcome = AuthExit int | AuthToken string | AuthAbort string

definition gdrive_auth_main :: "'s services \<Rightarrow> string list \<Rightarrow> string \<Rightarrow> 's \<Rightarrow> auth_outcome \<times> 's" where
  "gdrive_auth_main sv args line s =
     (let a = parse_auth_args \<lparr>aa_client_id = [], aa_client_secret = [], aa_redirect = ''http://127.0.0.1''\<rparr> args
      in if aa_client_id a = [] \<or> aa_client_secret a = [] then (AuthExit 2, s)
         else case extract_code line of
             Inl e \<Rightarrow> (AuthAbort e, s)
           | Inr cd \<Rightarrow>
               if cd = [] then (AuthExit 1, s)
               else case oauth_exchange_code sv (aa_client_id a) (aa_client_secret a) cd (aa_redirect a) s of
                   (Inl e, s') \<Rightarrow> (AuthExit 1, s')
                 | (Inr refresh, s') \<Rightarrow> if refresh = [] then (AuthExit 1, s') else (AuthToken refresh, s'))"

section \<open>What a computation keeps\<close>

text \<open>\<open>keeps I m\<close>: a run of \<open>m\<close> from a state with \<open>I\<close> ends in one, whatever it returns or throws.\<close>

named_theorems keeps_intro \<open>computations that keep an invariant\<close>

definition keeps :: "('s \<Rightarrow> bool) \<Rightarrow> ('s, 'a) db \<Rightarrow> bool" where
  "keeps I m \<longleftrightarrow> (\<forall>s. I s \<longrightarrow> I (snd (m s)))"

lemma keepsD: "keeps I m \<Longrightarrow> I s \<Longrightarrow> m s = (r, s') \<Longrightarrow> I s'"
  by (metis keeps_def snd_conv)

lemma keeps_basic [keeps_intro]:
  "keeps I (db_ret x)" "keeps I (db_throw e)" "keeps I (db_lift r)"
  by (simp_all add: keeps_def db_ret_def db_throw_def db_lift_def)

lemma keeps_bind [keeps_intro]: "keeps I m \<Longrightarrow> (\<And>x. keeps I (f x)) \<Longrightarrow> keeps I (db_bind m f)"
  by (auto simp: keeps_def db_bind_def split: prod.splits sum.splits)

lemma keeps_map [keeps_intro]: "keeps I m \<Longrightarrow> keeps I (db_map f m)"
  unfolding db_map_def by (intro keeps_intro)

lemma keeps_catch [keeps_intro]: "keeps I m \<Longrightarrow> (\<And>e. keeps I (h e)) \<Longrightarrow> keeps I (db_catch m h)"
  by (auto simp: keeps_def db_catch_def split: prod.splits sum.splits)

text \<open>A connection on which the statements \<open>p\<close> keep \<open>I\<close>.\<close>

definition conn_keeps :: "('s \<Rightarrow> bool) \<Rightarrow> (sql_stmt \<Rightarrow> bool) \<Rightarrow> 's conn \<Rightarrow> bool" where
  "conn_keeps I p c \<longleftrightarrow> (\<forall>s stmt. I s \<longrightarrow> p stmt \<longrightarrow> I (snd (c s stmt)))"

lemma keeps_exec: "conn_keeps I p c \<Longrightarrow> p stmt \<Longrightarrow> keeps I (exec c stmt)"
proof -
  assume a: "conn_keeps I p c" "p stmt"
  have "snd (exec c stmt s) = snd (c s stmt)" for s
    by (auto simp: exec_def split: prod.splits reply.splits)
  then show ?thesis using a by (simp add: keeps_def conn_keeps_def)
qed

lemma keeps_run_stmt: "conn_keeps I p c \<Longrightarrow> p stmt \<Longrightarrow> keeps I (run_stmt c stmt)"
  unfolding run_stmt_def by (rule keeps_map, erule keeps_exec, assumption)

lemma keeps_fetch: "conn_keeps I p c \<Longrightarrow> p stmt \<Longrightarrow> keeps I (fetch w c stmt)"
  unfolding fetch_def by (rule keeps_bind, erule keeps_exec, assumption) (auto split: reply.splits intro: keeps_intro)

lemma keeps_fetch_all: "conn_keeps I p c \<Longrightarrow> p stmt \<Longrightarrow> keeps I (fetch_all c f stmt)"
  unfolding fetch_all_def select_def by (rule keeps_map, erule keeps_fetch, assumption)

lemma keeps_fetch_first: "conn_keeps I p c \<Longrightarrow> p stmt \<Longrightarrow> keeps I (fetch_first c f stmt)"
  unfolding fetch_first_def select_def by (rule keeps_map, erule keeps_fetch, assumption)

lemmas keeps_sql = keeps_exec keeps_run_stmt keeps_fetch keeps_fetch_all keeps_fetch_first

definition services_keep :: "('s \<Rightarrow> bool) \<Rightarrow> 's services \<Rightarrow> bool" where
  "services_keep I sv \<longleftrightarrow>
     (\<forall>s r. I s \<longrightarrow> I (snd (sv_http sv r s))) \<and> (\<forall>s p t. I s \<longrightarrow> I (snd (sv_write sv p t s)))"

lemma keeps_http_checked: "services_keep I sv \<Longrightarrow> keeps I (http_checked sv req what)"
  by (auto simp: services_keep_def keeps_def http_checked_def split: prod.splits)
    (metis snd_conv)

lemma keeps_post_form: "services_keep I sv \<Longrightarrow> keeps I (post_form sv url body)"
  unfolding post_form_def by (auto split: prod.split intro!: keeps_intro keeps_http_checked)

lemma keeps_access_token:
  assumes "services_keep I sv"
  shows "keeps I (access_token sv a)"
proof -
  have "keeps I (db_bind (db_lift r) (\<lambda>jwt. db_bind (post_form sv u (b jwt)) (\<lambda>j. db_lift (f j))))" for r u b f
    by (intro keeps_intro keeps_post_form assms)
  note service = this [unfolded keeps_def, rule_format]
  have "keeps I (db_bind (post_form sv u b) (\<lambda>j. db_lift (f j)))" for u b f
    by (intro keeps_intro keeps_post_form assms)
  note oauth = this [unfolded keeps_def, rule_format]
  show ?thesis unfolding keeps_def access_token_def Let_def by (auto intro: service oauth simp del: append_Cons)
qed

lemma keeps_upload: "services_keep I sv \<Longrightarrow> keeps I (upload_or_update sv a folder n content mime)"
  unfolding upload_or_update_def Let_def
  by (intro keeps_bind keeps_access_token) (auto intro!: keeps_intro keeps_http_checked)

section \<open>Encodings read back\<close>

lemma hex_upper_value: "n < 16 \<Longrightarrow> isxdigit (hex_upper n) \<and> xdigit_val (hex_upper n) = n \<and> \<not> isspace (hex_upper n) \<and>
   hex_upper n \<noteq> CHR ''-'' \<and> hex_upper n \<noteq> CHR ''+''"
proof -
  assume n: "n < 16"
  have "\<forall>k\<in>set [0..<16]. isxdigit (hex_upper k) \<and> xdigit_val (hex_upper k) = k \<and> \<not> isspace (hex_upper k) \<and>
     hex_upper k \<noteq> CHR ''-'' \<and> hex_upper k \<noteq> CHR ''+''"
    by (simp add: upt_rec [of _ 16] hex_upper_def isxdigit_def xdigit_val_def isdigit_def isspace_def)
  then show ?thesis using n by simp
qed

lemma code_of_less: "code_of c < 256"
  by (metis char_of_char mod_less_divisor of_char_of zero_less_numeral)

lemma stoi16_upper:
  assumes "a < 16" and "b < 16"
  shows "stoi16 [hex_upper a, hex_upper b] = Inr (int (16 * a + b))"
proof -
  let ?s = "[hex_upper a, hex_upper b]"
  have "int (16 * a + b) \<le> 2 ^ 31 - 1" using assms by simp
  moreover have "strip_sign ?s = (False, ?s)" "dropWhile isspace ?s = ?s" "\<not> hex_prefix ?s" "takeWhile isxdigit ?s = ?s"
    using hex_upper_value [OF assms(1)] hex_upper_value [OF assms(2)] by (simp_all add: strip_sign_def hex_prefix_def)
  moreover have "xdigits_val ?s = 16 * a + b"
    using hex_upper_value [OF assms(1)] hex_upper_value [OF assms(2)] by (simp add: xdigits_val_def)
  ultimately show ?thesis by (simp add: stoi16_def sgn_nat_def i32_min_def i32_max_def)
qed

lemma url_decode_plain: "c \<noteq> CHR ''%'' \<Longrightarrow> url_decode (c # r) = then_res (url_decode r) (\<lambda>t. ok (plus_space c # t))"
  by (cases "c # r" rule: url_decode.cases) auto

lemma url_safe_not: "url_safe c \<Longrightarrow> c \<noteq> CHR ''%'' \<and> c \<noteq> CHR ''+''"
  by (auto simp: url_safe_def char_class_defs)

lemma code_div_mod: "code_of c div 16 < 16" "code_of c mod 16 < 16" "16 * (code_of c div 16) + code_of c mod 16 = code_of c"
proof -
  have "code_of c < 256" by (rule code_of_less)
  then show "code_of c div 16 < 16" by (intro less_mult_imp_div_less) simp
qed simp_all

lemma url_encode_decode:
  "url_decode (url_encode s) = Inr s \<and> (\<forall>c\<in>set (url_encode s). url_safe c \<or> c = CHR ''%'')"
proof (induction s)
  case Nil
  then show ?case by (simp add: url_encode_def)
next
  case (Cons c s)
  have hex: "url_safe (hex_upper n)" if "n < 16" for n
    using hex_upper_value [OF that] by (auto simp: url_safe_def isxdigit_def char_class_defs)
  show ?case
  proof (cases "url_safe c")
    case True
    then show ?thesis
      using Cons url_safe_not [OF True] url_decode_plain [of c "url_encode s"] by (simp add: url_encode_def plus_space_def)
  next
    case False
    have "stoi16 [hex_upper (code_of c div 16), hex_upper (code_of c mod 16)] = Inr (int (code_of c))"
      using stoi16_upper [OF code_div_mod(1,2) [of c]] code_div_mod(3) [of c] by simp
    moreover have "int (code_of c) mod 256 = int (code_of c)" using code_of_less [of c] by simp
    ultimately show ?thesis
      using Cons hex [OF code_div_mod(1) [of c]] hex [OF code_div_mod(2) [of c]] False by (simp add: url_encode_def)
  qed
qed

text \<open>
  Every string survives URL encoding and decoding, and an encoded string has only letters,
  digits, \<open>- _ . ~\<close> and percent triples, so a value cannot leave its query parameter.
\<close>

theorem url_encode_round_trip:
  "url_decode (url_encode s) = Inr s \<and> set (url_encode s) \<subseteq> insert (CHR ''%'') {c. url_safe c}"
  using url_encode_decode [of s] by blast

text \<open>
  The Drive client and the exporters take a URL apart the same way, and the parts are the URL
  unless it has no path.
\<close>

theorem split_url_same:
  "drive_split_url url = split_url url \<and>
   (fst (split_url url) @ snd (split_url url) = url \<or> split_url url = (url, ''/''))"
proof -
  have "find_chr_from c s 0 = find_chr c s" for c s
    by (simp add: find_chr_from_def option.map_ident)
  then have "drive_split_url url = split_url url"
    by (simp add: drive_split_url_def split_url_def split: option.splits)
  moreover have "fst (split_url url) @ snd (split_url url) = url \<or> split_url url = (url, ''/'')"
    by (auto simp: split_url_def substr_def substr_n_def split: option.splits)
  ultimately show ?thesis ..
qed

section \<open>RS256\<close>

text \<open>
  The OpenSSL calls of \<^verbatim>\<open>rs256_sign\<close>: the memory buffer, reading the PEM key, the digest context with
  its initialisation, feeding the data, and the two calls for length and signature.
\<close>

record 'k sign_ops =
  so_bio :: bool
  so_key :: "string \<Rightarrow> 'k option"
  so_ctx :: bool
  so_init :: "'k \<Rightarrow> bool"
  so_update :: "'k \<Rightarrow> string \<Rightarrow> bool"
  so_length :: "'k \<Rightarrow> string \<Rightarrow> nat option"
  so_final :: "'k \<Rightarrow> string \<Rightarrow> string option"

definition rs256_sign :: "'k sign_ops \<Rightarrow> string \<Rightarrow> string \<Rightarrow> string result" where
  "rs256_sign ops data pem =
     (if \<not> so_bio ops then throw ''out of memory''
      else case so_key ops pem of
        None \<Rightarrow> throw ''invalid service-account private key (PEM expected)''
      | Some k \<Rightarrow>
          if so_ctx ops \<and> so_init ops k \<and> so_update ops k data \<and> so_length ops k data \<noteq> None
          then (case so_final ops k data of Some sig \<Rightarrow> ok sig | None \<Rightarrow> throw ''RS256 signing failed'')
          else throw ''RS256 signing failed'')"

end
