(* ===== verification/NW_Export.thy ===== *)
theory NW_Export imports NW_Dsn NW_Drive begin

text \<open>
  The exporters (\<^verbatim>\<open>src/export/exporter.cpp\<close>) and the one-shot driver \<^verbatim>\<open>run_export\<close>
  (\<^verbatim>\<open>src/export/export_runner.cpp\<close>): which readings a target still has to get, how they are
  sent, what is logged, and when the watermark moves.
\<close>

section \<open>Exporters\<close>

datatype windowing = Monthly | Incremental

record ExportResult =
  xr_file_name :: string
  xr_remote_id :: string
  xr_row_count :: int

datatype exporter = DsnExporter string | WebhookExporter string

definition exporter_windowing :: "exporter \<Rightarrow> windowing" where
  "exporter_windowing e = (case e of DsnExporter _ \<Rightarrow> Monthly | WebhookExporter _ \<Rightarrow> Incremental)"

definition make_exporter :: "json_parser \<Rightarrow> string \<Rightarrow> string \<Rightarrow> exporter result" where
  "make_exporter parse target config =
     (if config \<noteq> [] \<and> \<not> is_ok (parse config) then throw (target @ '': invalid config JSON'')
      else if target = ''dsn'' then ok (DsnExporter config)
      else if target = ''webhook'' then ok (WebhookExporter config)
      else if target = ''globeatnight'' then throw ''globeatnight exporter is not implemented yet''
      else throw (''unknown export target: '' @ target))"

definition write_outbox :: "'s services \<Rightarrow> string \<Rightarrow> string \<Rightarrow> ('s, string) db" where
  "write_outbox sv path content s =
     (case sv_write sv path content s of
        (CannotOpen, s') \<Rightarrow> (throw (''cannot open export file for writing: '' @ path), s')
      | (WriteFailed, s') \<Rightarrow> (throw (''failed writing export file: '' @ path), s')
      | (Written, s') \<Rightarrow> (ok (''file://'' @ path), s'))"

definition dsn_run :: "'s services \<Rightarrow> string \<Rightarrow> ExportContext \<Rightarrow> ('s, ExportResult) db" where
  "dsn_run sv config ctx =
     db_bind (db_lift (format_dsn_dat (sv_parse sv) (sv_zone sv) ctx config)) (\<lambda>content.
     db_bind (db_lift (dsn_file_name (sv_parse sv) (sv_zone sv) ctx config)) (\<lambda>file_name.
     db_bind (db_lift (config_object (sv_parse sv) config)) (\<lambda>cfg.
     db_bind (db_lift (value_or get_str cfg ''outbox_dir'' [])) (\<lambda>outbox.
       let res = (\<lambda>rid. \<lparr>xr_file_name = file_name, xr_remote_id = rid,
                        xr_row_count = int (length (xc_readings ctx))\<rparr>)
       in if outbox \<noteq> [] then db_map res (write_outbox sv (outbox @ ''/'' @ file_name) content)
          else db_bind (db_lift (value_or get_str cfg ''drive_folder_id'' [])) (\<lambda>folder.
            if folder \<noteq> []
            then db_bind (db_lift (drive_auth_from_config (sv_parse sv) config)) (\<lambda>a.
                   db_map res (upload_or_update sv a folder file_name content ''text/plain''))
            else db_throw ''dsn export has no destination: set drive_folder_id or outbox_dir'')))))"

subsection \<open>The webhook\<close>

definition double_json :: "double option \<Rightarrow> json" where
  "double_json v = opt_json JFloat v"

definition sensor_meta :: "SensorRow \<Rightarrow> json" where
  "sensor_meta s =
     obj ([(''id'', JStr (sn_id s))] @
       (if sn_name s = [] then [] else [(''name'', JStr (sn_name s))]) @
       [(''latitude'', double_json (sn_latitude s)), (''longitude'', double_json (sn_longitude s)),
        (''elevation_m'', double_json (sn_elevation_m s))] @
       (if sn_timezone s = [] then [] else [(''timezone'', JStr (sn_timezone s))]))"

definition ambient_json :: "WeatherReadingRow list \<Rightarrow> json list" where
  "ambient_json ws = List.map_filter (\<lambda>w.
     map_option (\<lambda>t. obj [(''ts_utc'', JStr (wr_ts_utc w)), (''temp_c'', JFloat t)]) (wr_temp_c w)) ws"

definition reading_json :: "ReadingRow \<Rightarrow> json" where
  "reading_json r =
     obj [(''ts_utc'', JStr (rr_ts_utc r)), (''mag_arcsec2'', JFloat (rr_mag_arcsec2 r)),
          (''temp_c'', JFloat (rr_temp_c r)), (''quality'', JStr (rr_quality r))]"

definition batch_json :: "string \<Rightarrow> json \<Rightarrow> json list \<Rightarrow> ReadingRow list \<Rightarrow> json" where
  "batch_json site_id meta warr rs =
     obj ([(''site_id'', JStr site_id), (''sensor'', meta), (''readings'', JArr (map reading_json rs))] @
       (if warr = [] then [] else [(''weather'', JArr warr)]))"

definition check_webhook :: "string \<Rightarrow> http_result \<Rightarrow> unit result" where
  "check_webhook url res =
     (case res of
        HttpError e \<Rightarrow> throw (''webhook POST to '' @ url @ '' failed: '' @ e)
      | HttpResponse status body \<Rightarrow>
          if success status then ok ()
          else throw (''webhook POST returned HTTP '' @ show_int status @ '': '' @ body))"

text \<open>\<open>for (i = 0; i < rs.size(); i += batch)\<close>\<close>

function batches :: "nat \<Rightarrow> 'a list \<Rightarrow> 'a list list" where
  "batches b rs = (if rs = [] \<or> b = 0 then [] else take b rs # batches b (drop b rs))"
  by auto
termination by (relation "measure (\<lambda>(b, rs). length rs)") auto

declare batches.simps [simp del]

fun post_batches ::
  "'s services \<Rightarrow> string \<Rightarrow> (ReadingRow list \<Rightarrow> http_req) \<Rightarrow> ReadingRow list list \<Rightarrow> ('s, unit) db" where
  "post_batches sv url req [] = db_ret ()"
| "post_batches sv url req (b # bs) =
     (\<lambda>s. case sv_http sv (req b) s of (res, s') \<Rightarrow>
        db_bind (db_lift (check_webhook url res)) (\<lambda>_. post_batches sv url req bs) s')"

record hook_config =
  hk_url :: string
  hk_token :: string
  hk_site_id :: string
  hk_insecure :: bool
  hk_batch :: int

definition hook_config_of :: "json \<Rightarrow> string \<Rightarrow> hook_config result" where
  "hook_config_of cfg sensor_id =
     then_res (value_or get_str cfg ''url'' []) (\<lambda>url.
       if url = [] then throw (''webhook export requires a '' @ quoted ''url'')
       else then_res (value_or get_str cfg ''token'' []) (\<lambda>tok.
            then_res (value_or get_str cfg ''site_id'' sensor_id) (\<lambda>site.
            then_res (value_or get_bool cfg ''insecure'' False) (\<lambda>insecure.
            then_res (value_or get_int cfg ''batch'' 2000) (\<lambda>batch.
              ok \<lparr>hk_url = url, hk_token = tok, hk_site_id = site, hk_insecure = insecure,
                  hk_batch = (if batch < 1 then 2000 else batch)\<rparr>)))))"

definition hook_request :: "'s services \<Rightarrow> hook_config \<Rightarrow> json \<Rightarrow> json list \<Rightarrow> ReadingRow list \<Rightarrow> http_req" where
  "hook_request sv hk meta warr b =
     (case split_url (hk_url hk) of (base, path) \<Rightarrow>
        (http_send ''POST'' base path
          (if hk_token hk = [] then [] else [(''Authorization'', ''Bearer '' @ hk_token hk)])
          (sv_dump sv (batch_json (hk_site_id hk) meta warr b)) ''application/json'')\<lparr>hq_verify := \<not> hk_insecure hk\<rparr>)"

definition webhook_run :: "'s services \<Rightarrow> string \<Rightarrow> ExportContext \<Rightarrow> ('s, ExportResult) db" where
  "webhook_run sv config ctx =
     db_bind (db_lift (config_object (sv_parse sv) config)) (\<lambda>cfg.
     db_bind (db_lift (hook_config_of cfg (sn_id (xc_sensor ctx)))) (\<lambda>hk.
       db_map (\<lambda>_. \<lparr>xr_file_name = ''webhook'', xr_remote_id = hk_url hk,
                    xr_row_count = int (length (xc_readings ctx))\<rparr>)
         (post_batches sv (hk_url hk)
            (hook_request sv hk (sensor_meta (xc_sensor ctx)) (ambient_json (xc_weather ctx)))
            (batches (nat (hk_batch hk)) (xc_readings ctx)))))"

definition exporter_run :: "'s services \<Rightarrow> exporter \<Rightarrow> ExportContext \<Rightarrow> ('s, ExportResult) db" where
  "exporter_run sv e ctx =
     (case e of DsnExporter c \<Rightarrow> dsn_run sv c ctx | WebhookExporter c \<Rightarrow> webhook_run sv c ctx)"

section \<open>One export run\<close>

definition kMaxRows :: int where "kMaxRows = 200000"

record ExportRunResult =
  xn_files :: int
  xn_rows :: int
  xn_last_ts :: string
  xn_file_names :: "string list"

definition run_nothing :: ExportRunResult where
  "run_nothing = \<lparr>xn_files = 0, xn_rows = 0, xn_last_ts = [], xn_file_names = []\<rparr>"

text \<open>The station whose temperatures accompany the readings.\<close>

definition same_site :: "string \<Rightarrow> WeatherStationRow list \<Rightarrow> string" where
  "same_site site ws = (case filter (\<lambda>w. ws_site w = site) ws of [] \<Rightarrow> [] | w # _ \<Rightarrow> ws_id w)"

definition sole_station :: "WeatherStationRow list \<Rightarrow> string" where
  "sole_station ws = (case ws of [w] \<Rightarrow> ws_id w | _ \<Rightarrow> [])"

definition collect_ambient :: "'s conn \<Rightarrow> SensorRow \<Rightarrow> string \<Rightarrow> string \<Rightarrow> ('s, WeatherReadingRow list) db" where
  "collect_ambient c sensor from_ts to_ts =
     db_bind (if sn_site sensor = [] then db_ret [] else db_map (same_site (sn_site sensor)) (weather_stations c)) (\<lambda>sid.
     db_bind (if sid = [] then db_map sole_station (active_weather_stations c) else db_ret sid) (\<lambda>sid.
       if sid = [] then db_ret [] else weather_readings_between c sid from_ts to_ts kMaxRows))"

definition run_tz :: "json_parser \<Rightarrow> SensorRow \<Rightarrow> string \<Rightarrow> string" where
  "run_tz parse sensor config =
     (if config = [] then sn_timezone sensor
      else case parse config of
          Inl _ \<Rightarrow> sn_timezone sensor
        | Inr cfg \<Rightarrow> (case str_member cfg ''timezone'' of Some tz \<Rightarrow> tz | None \<Rightarrow> sn_timezone sensor))"

text \<open>The readings newer than the watermark, newest first as the query returns them.\<close>

definition drop_exported :: "string \<Rightarrow> ReadingRow list \<Rightarrow> ReadingRow list" where
  "drop_exported wm rs = (if wm = [] then rs else filter (\<lambda>r. str_less wm (rr_ts_utc r)) rs)"

definition newest_ts :: "ReadingRow list \<Rightarrow> string" where
  "newest_ts rs = foldl (\<lambda>m r. if str_less m (rr_ts_utc r) then rr_ts_utc r else m) [] rs"

definition log_of :: "ExportTargetRow \<Rightarrow> string \<Rightarrow> string \<Rightarrow> ExportLogRow" where
  "log_of t from_ts to_ts =
     \<lparr>el_id = 0, el_target_id = et_id t, el_ts_utc = [], el_from_ts = from_ts, el_to_ts = to_ts,
      el_row_count = 0, el_file_name = [], el_remote_id = [], el_status = [], el_detail = []\<rparr>"

definition log_result :: "ExportLogRow \<Rightarrow> ExportResult \<Rightarrow> ExportLogRow" where
  "log_result l res = l\<lparr>el_row_count := xr_row_count res, el_file_name := xr_file_name res,
     el_remote_id := xr_remote_id res, el_status := (if 0 < xr_row_count res then ''ok'' else ''empty'')\<rparr>"

text \<open>The \<^verbatim>\<open>catch\<close> branch: an error row, best effort, and the exception again.\<close>

definition log_failure :: "'s conn \<Rightarrow> ExportLogRow \<Rightarrow> string \<Rightarrow> ('s, 'a) db" where
  "log_failure c l e s =
     (throw e, snd (insert_export_log c (l\<lparr>el_status := ''error'', el_detail := e\<rparr>) s))"

definition add_result :: "ExportRunResult \<Rightarrow> ExportResult \<Rightarrow> ExportRunResult" where
  "add_result sm res = sm\<lparr>xn_files := xn_files sm + 1, xn_rows := xn_rows sm + xr_row_count res,
     xn_file_names := xn_file_names sm @ [xr_file_name res]\<rparr>"

definition export_once ::
  "'s conn \<Rightarrow> ('s, ExportResult) db \<Rightarrow> ExportLogRow \<Rightarrow> ExportRunResult \<Rightarrow> ('s, ExportRunResult) db" where
  "export_once c run l sm s =
     (case run s of
        (Inl e, s') \<Rightarrow> log_failure c l e s'
      | (Inr res, s') \<Rightarrow>
          (case insert_export_log c (log_result l res) s' of
             (Inl e, s'') \<Rightarrow> log_failure c (log_result l res) e s''
           | (Inr _, s'') \<Rightarrow> (ok (add_result sm res), s'')))"

definition finish_run :: "'s conn \<Rightarrow> string \<Rightarrow> string \<Rightarrow> ExportRunResult \<Rightarrow> ('s, ExportRunResult) db" where
  "finish_run c target_id newest sm =
     db_map (\<lambda>_. sm\<lparr>xn_last_ts := newest\<rparr>) (set_export_watermark c target_id newest)"

definition run_incremental ::
  "'s conn \<Rightarrow> 's services \<Rightarrow> exporter \<Rightarrow> ExportTargetRow \<Rightarrow> SensorRow \<Rightarrow> string \<Rightarrow> ReadingRow list \<Rightarrow> ('s, ExportRunResult) db" where
  "run_incremental c sv e t sensor now fresh =
     db_bind (collect_ambient c sensor (et_last_export_ts t) now) (\<lambda>weather.
     db_bind (export_once c
         (exporter_run sv e \<lparr>xc_sensor = sensor, xc_readings = rev fresh, xc_weather = weather,
                            xc_from_ts = et_last_export_ts t, xc_to_ts = now\<rparr>)
         (log_of t (et_last_export_ts t) now) run_nothing)
       (finish_run c (et_id t) (newest_ts fresh)))"

text \<open>\<^verbatim>\<open>std::set<std::string>\<close>: ascending, each once.\<close>

fun set_insert :: "string \<Rightarrow> string list \<Rightarrow> string list" where
  "set_insert x [] = [x]"
| "set_insert x (y # ys) = (if x = y then y # ys else if str_less x y then x # y # ys else y # set_insert x ys)"

definition months_of :: "zoneinfo \<Rightarrow> string \<Rightarrow> ReadingRow list \<Rightarrow> string list" where
  "months_of zi tz fresh = foldl (\<lambda>m r. set_insert (local_ym zi (rr_ts_utc r) tz) m) [] fresh"

definition month_ref :: "zoneinfo \<Rightarrow> string \<Rightarrow> ReadingRow list \<Rightarrow> string \<Rightarrow> string" where
  "month_ref zi tz fresh ym =
     (case filter (\<lambda>r. local_ym zi (rr_ts_utc r) tz = ym) fresh of [] \<Rightarrow> [] | r # _ \<Rightarrow> rr_ts_utc r)"

fun run_months ::
  "'s conn \<Rightarrow> 's services \<Rightarrow> exporter \<Rightarrow> ExportTargetRow \<Rightarrow> SensorRow \<Rightarrow> string \<Rightarrow> ReadingRow list \<Rightarrow>
   string list \<Rightarrow> ExportRunResult \<Rightarrow> ('s, ExportRunResult) db" where
  "run_months c sv e t sensor tz fresh [] sm = db_ret sm"
| "run_months c sv e t sensor tz fresh (ym # yms) sm =
     (case local_month_bounds_utc (sv_zone sv) (month_ref (sv_zone sv) tz fresh ym) tz of (from_utc, to_utc) \<Rightarrow>
        db_bind (readings_between c (et_sensor_id t) from_utc to_utc kMaxRows) (\<lambda>rows.
        db_bind (export_once c
            (exporter_run sv e \<lparr>xc_sensor = sensor, xc_readings = rev rows, xc_weather = [],
                               xc_from_ts = from_utc, xc_to_ts = to_utc\<rparr>)
            (log_of t from_utc to_utc) sm)
          (run_months c sv e t sensor tz fresh yms)))"

definition send_fresh ::
  "'s conn \<Rightarrow> 's services \<Rightarrow> ExportTargetRow \<Rightarrow> SensorRow \<Rightarrow> string \<Rightarrow> ReadingRow list \<Rightarrow> ('s, ExportRunResult) db" where
  "send_fresh c sv t sensor now fresh =
     (if fresh = [] then db_ret run_nothing
      else db_bind (db_lift (make_exporter (sv_parse sv) (et_target t) (et_config t))) (\<lambda>e.
        case exporter_windowing e of
          Incremental \<Rightarrow> run_incremental c sv e t sensor now fresh
        | Monthly \<Rightarrow>
            let tz = run_tz (sv_parse sv) sensor (et_config t)
            in db_bind (run_months c sv e t sensor tz fresh (months_of (sv_zone sv) tz fresh) run_nothing)
                 (finish_run c (et_id t) (newest_ts fresh))))"

definition run_export :: "'s conn \<Rightarrow> 's services \<Rightarrow> ExportTargetRow \<Rightarrow> ('s, ExportRunResult) db" where
  "run_export c sv t =
     db_bind (find_sensor c (et_sensor_id t)) (\<lambda>found.
       case found of
         None \<Rightarrow> db_throw (''export target '' @ et_id t @ '': no such sensor '' @ quoted (et_sensor_id t))
       | Some sensor \<Rightarrow> (\<lambda>s.
           let now = fmt_sql_utc (sv_now sv s)
           in db_bind (db_map (drop_exported (et_last_export_ts t))
                         (readings_between c (et_sensor_id t) (et_last_export_ts t) now kMaxRows))
                (send_fresh c sv t sensor now) s))"

section \<open>The watermark\<close>

definition keeps_failing :: "('s \<Rightarrow> bool) \<Rightarrow> ('s, 'a) db \<Rightarrow> bool" where
  "keeps_failing I m \<longleftrightarrow> (\<forall>s e s'. I s \<longrightarrow> m s = (Inl e, s') \<longrightarrow> I s')"

lemma keeps_failing_of: "keeps I m \<Longrightarrow> keeps_failing I m"
  by (auto simp: keeps_failing_def dest: keepsD)

lemma keeps_failing_bind: "keeps I m \<Longrightarrow> (\<And>x. keeps_failing I (f x)) \<Longrightarrow> keeps_failing I (db_bind m f)"
  by (auto simp: keeps_failing_def db_bind_def dest: keepsD split: prod.splits sum.splits)

definition moves_watermark :: "sql_stmt \<Rightarrow> bool" where
  "moves_watermark stmt = (case stmt of Update _ sets _ \<Rightarrow> list_ex (\<lambda>(col, _). col = ''last_export_ts'') sets
     | Script _ \<Rightarrow> True | _ \<Rightarrow> False)"

abbreviation other_stmts :: "sql_stmt \<Rightarrow> bool" where
  "other_stmts stmt \<equiv> \<not> moves_watermark stmt"

lemma keeps_log: "conn_keeps I other_stmts c \<Longrightarrow> keeps I (insert_export_log c l)"
  unfolding insert_export_log_def by (rule keeps_map, erule keeps_exec) (simp add: moves_watermark_def)

lemma keeps_rows: "conn_keeps I other_stmts c \<Longrightarrow> keeps I (readings_between c i a b n)"
  unfolding readings_between_def by (erule keeps_fetch_all) (simp add: moves_watermark_def)

lemma keeps_ambient: "conn_keeps I other_stmts c \<Longrightarrow> keeps I (collect_ambient c sensor a b)"
  unfolding collect_ambient_def weather_stations_def active_weather_stations_def weather_readings_between_def
  by (intro keeps_bind) (auto intro!: keeps_intro keeps_fetch_all simp: moves_watermark_def)

lemma keeps_http:
  assumes "services_keep I sv" and "\<And>res. keeps I (f res)"
  shows "keeps I (\<lambda>s. case sv_http sv r s of (res, s') \<Rightarrow> f res s')"
  unfolding keeps_def
proof (intro allI impI)
  fix s assume "I s"
  then have "I (snd (sv_http sv r s))" using assms(1) by (simp add: services_keep_def)
  then show "I (snd (case sv_http sv r s of (res, s') \<Rightarrow> f res s'))"
    using assms(2) by (cases "sv_http sv r s") (simp add: keeps_def)
qed

lemma keeps_post_batches: "services_keep I sv \<Longrightarrow> keeps I (post_batches sv url req bs)"
proof (induction bs)
  case Nil
  then show ?case by (simp add: keeps_intro)
next
  case (Cons b bs)
  show ?case
    unfolding post_batches.simps by (intro keeps_http keeps_intro Cons.IH Cons.prems)
qed

lemma keeps_exporter: "services_keep I sv \<Longrightarrow> keeps I (exporter_run sv e ctx)"
proof -
  assume sv: "services_keep I sv"
  have "keeps I (write_outbox sv p t)" for p t
  proof -
    have "snd (write_outbox sv p t s) = snd (sv_write sv p t s)" for s
      by (auto simp: write_outbox_def split: prod.splits write_outcome.splits)
    then show ?thesis using sv by (simp add: keeps_def services_keep_def)
  qed
  then have "keeps I (dsn_run sv cfg ctx)" for cfg
    unfolding dsn_run_def Let_def by (auto intro!: keeps_intro keeps_upload sv)
  moreover have "keeps I (webhook_run sv cfg ctx)" for cfg
    unfolding webhook_run_def by (intro keeps_intro keeps_post_batches sv)
  ultimately show ?thesis by (cases e) (simp_all add: exporter_run_def)
qed

lemma keeps_export_once:
  assumes "conn_keeps I other_stmts c" and "keeps I run"
  shows "keeps I (export_once c run l sm)"
  unfolding keeps_def
proof (intro allI impI)
  fix s assume "I s"
  note log = keeps_log [OF assms(1), unfolded keeps_def, rule_format]
  obtain r s1 where r: "run s = (r, s1)" by fastforce
  have s1: "I s1" using keepsD [OF assms(2) \<open>I s\<close> r] .
  show "I (snd (export_once c run l sm s))"
  proof (cases r)
    case (Inl e)
    then show ?thesis using log [OF s1] by (simp add: export_once_def r log_failure_def)
  next
    case (Inr res)
    obtain q s2 where q: "insert_export_log c (log_result l res) s1 = (q, s2)" by fastforce
    have "I s2" using log [OF s1, of "log_result l res"] q by simp
    then show ?thesis using log by (cases q) (simp_all add: export_once_def r Inr q log_failure_def)
  qed
qed

lemma keeps_months:
  assumes "conn_keeps I other_stmts c" and "services_keep I sv"
  shows "keeps I (run_months c sv e t sensor tz fresh yms sm)"
  by (induction yms arbitrary: sm)
    (auto split: prod.split intro!: keeps_intro keeps_rows keeps_export_once keeps_exporter assms)

lemma failing_finish:
  assumes "\<And>s stmt e s'. I s \<Longrightarrow> c s stmt = (Failed e, s') \<Longrightarrow> I s'"
  shows "keeps_failing I (finish_run c i n sm)"
  using assms
  by (auto simp: keeps_failing_def finish_run_def set_export_watermark_def run_stmt_def db_map_def db_bind_def exec_def
      db_ret_def split: prod.splits sum.splits reply.splits)

text \<open>
  C8. An export run that fails, at whatever point, leaves the watermark where it was: whatever only
  a successful update of the watermark can change is as before, so nothing is taken for exported
  that was not.
\<close>

theorem failed_export_keeps_watermark:
  assumes conn: "conn_keeps I other_stmts c" and sv: "services_keep I sv"
    and refused: "\<And>s stmt e s'. I s \<Longrightarrow> c s stmt = (Failed e, s') \<Longrightarrow> I s'"
    and "I s" and "run_export c sv t s = (Inl e, s')"
  shows "I s'"
proof -
  have fin: "keeps_failing I (run_incremental c sv x t sensor now fresh)" for x sensor now fresh
    unfolding run_incremental_def
    by (intro keeps_failing_bind keeps_ambient keeps_export_once keeps_exporter failing_finish conn sv) (rule refused)
  have mon: "keeps_failing I (db_bind (run_months c sv x t sensor tz fresh yms sm) (finish_run c i n))"
    for x sensor tz fresh yms sm i n
    by (intro keeps_failing_bind keeps_months failing_finish conn sv) (rule refused)
  have "keeps_failing I (send_fresh c sv t sensor now fresh)" for sensor now fresh
    unfolding send_fresh_def Let_def
    by (split if_split, intro conjI impI keeps_failing_of [OF keeps_basic(1)] keeps_failing_bind [OF keeps_basic(3)])
      (simp split: windowing.split add: fin mon)
  then have "keeps_failing I (db_bind (db_map g (readings_between c i a b n)) (send_fresh c sv t sensor now))" for g i a b n sensor now
    by (intro keeps_failing_bind keeps_map keeps_rows conn)
  then have "keeps_failing I (\<lambda>s. db_bind (db_map g (readings_between c i a (b s) n)) (send_fresh c sv t sensor (b s)) s)"
    for g i a b n sensor
    unfolding keeps_failing_def by blast
  then have "keeps_failing I (run_export c sv t)"
    unfolding run_export_def find_sensor_def Let_def
    by (intro keeps_failing_bind keeps_fetch_first [OF conn])
      (auto split: option.split intro: keeps_failing_of keeps_intro simp: moves_watermark_def)
  then show ?thesis using assms(4,5) by (auto simp: keeps_failing_def)
qed

definition demo_target :: ExportTargetRow where
  "demo_target = \<lparr>et_id = ''x1'', et_sensor_id = ''s1'', et_name = [], et_target = ''webhook'', et_config = [],
     et_schedule = ''interval'', et_schedule_time = [], et_interval_s = None, et_schedule_day = None,
     et_last_export_ts = ''2026-07-18 00:00:00'', et_status = ''active'', et_notes = [], et_created_at = []\<rparr>"

text \<open>A database whose state is the watermark, with one sensor that has one reading and no weather.\<close>

definition demo_conn :: "string conn" where
  "demo_conn wm stmt =
     (case stmt of
        Select _ t _ _ _ \<Rightarrow>
          (if t = ''sensors'' then Rows [] [[Some ''s1'']]
           else if t = ''readings'' then Rows [] [[Some ''7'', Some ''s1'', Some ''2026-07-19 03:45:42'']]
           else Rows [] [], wm)
      | Update _ [(col, VStr v)] _ \<Rightarrow> (Done 1 0, if col = ''last_export_ts'' then v else wm)
      | _ \<Rightarrow> (Done 1 1, wm))"

definition demo_services :: "(http_req \<Rightarrow> 's \<Rightarrow> http_result \<times> 's) \<Rightarrow> json \<Rightarrow> 's services" where
  "demo_services http cfg = \<lparr>sv_parse = (\<lambda>_. ok cfg), sv_dump = (\<lambda>_. []), sv_http = http,
     sv_write = (\<lambda>_ _ s. (Written, s)), sv_now = (\<lambda>_. 0), sv_zone = utc_zone, sv_b64 = (\<lambda>_. []),
     sv_sign = (\<lambda>_ _. throw ''no key'')\<rparr>"

lemma demo_fetch:
  "find_sensor demo_conn ''s1'' wm = (Inr (Some (sensor_from_row [Some ''s1''])), wm)"
  "readings_between demo_conn ''s1'' a b n wm =
     (Inr [reading_from_row [Some ''7'', Some ''s1'', Some ''2026-07-19 03:45:42'']], wm)"
  by (simp_all add: find_sensor_def readings_between_def fetch_first_def fetch_all_def select_def fetch_def exec_def
      demo_conn_def db_map_def db_bind_def db_ret_def first_row_def)

theorem failed_export_keeps_watermark_witness:
  "fst (run_export demo_conn (demo_services (\<lambda>_ s. (HttpError ''down'', s)) (JObj [])) demo_target ''2026-07-18 00:00:00'') =
     Inl (''webhook export requires a '' @ quoted ''url'') \<and>
   snd (run_export demo_conn (demo_services (\<lambda>_ s. (HttpError ''down'', s)) (JObj [])) demo_target ''2026-07-18 00:00:00'') =
     ''2026-07-18 00:00:00''"
proof -
  let ?sv = "demo_services (\<lambda>_ s. (HttpError ''down'', s)) (JObj [])"
  let ?r = "run_export demo_conn ?sv demo_target ''2026-07-18 00:00:00''"
  have fst: "fst ?r = Inl (''webhook export requires a '' @ quoted ''url'')"
    by (simp add: run_export_def send_fresh_def demo_fetch db_bind_def demo_target_def db_map_def db_ret_def Let_def drop_exported_def
        reading_from_row_def str_cell_def cell_def make_exporter_def db_lift_def exporter_windowing_def run_incremental_def
        collect_ambient_def sensor_from_row_def active_weather_stations_def fetch_all_def select_def fetch_def exec_def
        demo_conn_def sole_station_def export_once_def exporter_run_def webhook_run_def config_object_def
        hook_config_of_def log_failure_def numeral_nat)
  have e: "\<And>a. fst a = Inl e \<Longrightarrow> a = (Inl e, snd a)" for e by auto
  have conn: "conn_keeps (\<lambda>w. w = ''2026-07-18 00:00:00'') other_stmts demo_conn"
    by (auto simp: conn_keeps_def demo_conn_def moves_watermark_def split: sql_stmt.splits list.splits prod.splits sql_val.splits)
  have sv: "services_keep (\<lambda>w. w = ''2026-07-18 00:00:00'') ?sv"
    by (simp add: services_keep_def demo_services_def)
  have "snd (demo_conn w stmt) = w" if "fst (demo_conn w stmt) = Failed x" for w stmt x
    using that by (auto simp: demo_conn_def split: sql_stmt.splits list.splits prod.splits sql_val.splits)
  then have ref: "\<And>w stmt x w'. w = ''2026-07-18 00:00:00'' \<Longrightarrow> demo_conn w stmt = (Failed x, w') \<Longrightarrow> w' = ''2026-07-18 00:00:00''"
    by (metis fst_conv snd_conv)
  show ?thesis
    by (intro conjI fst failed_export_keeps_watermark [OF conn sv ref refl e [OF fst]])
qed

subsection \<open>A successful run moves it to the newest reading\<close>

lemma newest_acc:
  fixes a :: string
  defines "f \<equiv> \<lambda>m r. if str_less m (rr_ts_utc r) then rr_ts_utc r else m"
  shows "\<not> str_less (foldl f a rs) a \<and> (\<forall>r\<in>set rs. \<not> str_less (foldl f a rs) (rr_ts_utc r)) \<and>
    (foldl f a rs = a \<or> foldl f a rs \<in> rr_ts_utc ` set rs)"
proof (induction rs arbitrary: a)
  case Nil
  then show ?case by simp
next
  case (Cons r rs)
  have step: "foldl f a (r # rs) = foldl f (f a r) rs" by simp
  have up: "\<not> str_less (f a r) a" "\<not> str_less (f a r) (rr_ts_utc r)"
    using str_less_trans [of a "rr_ts_utc r" a] by (auto simp: f_def)
  have trans: "\<not> str_less x z" if "\<not> str_less x y" "\<not> str_less y z" for x y z
    using that str_less_linear [of x y] str_less_linear [of y z] str_less_trans by metis
  have "foldl f (f a r) rs = a \<or> foldl f (f a r) rs \<in> rr_ts_utc ` set (r # rs)"
    using Cons.IH [of "f a r"] by (auto simp: f_def)
  then show ?case
    using Cons.IH [of "f a r"] up trans unfolding step by (metis set_ConsD)
qed

lemma newest_ts_max: "r \<in> set rs \<Longrightarrow> \<not> str_less (newest_ts rs) (rr_ts_utc r)"
  using newest_acc [where a = "[]" and rs = rs] unfolding newest_ts_def by blast

lemma newest_ts_above:
  assumes "rs \<noteq> []" and "\<forall>r\<in>set rs. str_less wm (rr_ts_utc r)"
  shows "str_less wm (newest_ts rs)"
proof -
  obtain r where r: "r \<in> set rs" using assms(1) by (cases rs) auto
  have "str_less wm (rr_ts_utc r)" using assms(2) r by blast
  moreover have "newest_ts rs = rr_ts_utc r \<or> str_less (rr_ts_utc r) (newest_ts rs)"
    using newest_ts_max [OF r] str_less_linear by metis
  ultimately show ?thesis using str_less_trans by metis
qed

lemma drop_exported_above: "wm \<noteq> [] \<Longrightarrow> \<forall>r\<in>set (drop_exported wm rs). str_less wm (rr_ts_utc r)"
  by (simp add: drop_exported_def)

lemma drop_exported_rest: "r \<in> set rs \<Longrightarrow> r \<notin> set (drop_exported wm rs) \<Longrightarrow> \<not> str_less wm (rr_ts_utc r)"
  by (auto simp: drop_exported_def split: if_splits)

lemma finish_run_Inr:
  "finish_run c i n sm s = (Inr r, s') \<Longrightarrow> r = sm\<lparr>xn_last_ts := n\<rparr> \<and> set_export_watermark c i n s = (Inr (), s')"
  by (auto simp: finish_run_def db_map_def db_bind_def db_ret_def split: prod.splits sum.splits)

lemma db_bind_Inr: "db_bind m f s = (Inr y, s') \<longleftrightarrow> (\<exists>x s1. m s = (Inr x, s1) \<and> f x s1 = (Inr y, s'))"
  by (auto simp: db_bind_def split: prod.splits sum.splits)


lemma post_batches_one: "post_batches sv url req [b] s = (case sv_http sv (req b) s of (res, s') \<Rightarrow> (check_webhook url res, s'))"
  by (auto simp: db_bind_def db_lift_def db_ret_def split: prod.splits sum.splits)

lemma demo_send:
  "exporter_run (demo_services (\<lambda>_ s. (HttpResponse 200 [], s)) (JObj [(''url'', JStr ''http://h/x'')]))
     (WebhookExporter ''{}'') \<lparr>xc_sensor = sn, xc_readings = [x], xc_weather = w, xc_from_ts = a, xc_to_ts = b\<rparr> s =
   (Inr \<lparr>xr_file_name = ''webhook'', xr_remote_id = ''http://h/x'', xr_row_count = 1\<rparr>, s)"
  by (simp add: exporter_run_def webhook_run_def db_bind_def db_map_def db_lift_def db_ret_def config_object_def
      demo_services_def hook_config_of_def batches.simps check_webhook_def success_def get_int_def)

lemma demo_log: "insert_export_log demo_conn l s = (Inr 1, s)"
  by (simp add: insert_export_log_def exec_def demo_conn_def db_map_def db_bind_def db_ret_def insert_id_def)

lemma demo_ambient: "collect_ambient demo_conn (sensor_from_row [Some ''s1'']) a b s = (Inr [], s)"
  by (simp add: collect_ambient_def sensor_from_row_def active_weather_stations_def fetch_all_def select_def fetch_def exec_def
      demo_conn_def sole_station_def db_map_def db_bind_def db_ret_def str_cell_def cell_def)

lemma demo_run:
  "run_export demo_conn (demo_services (\<lambda>_ s. (HttpResponse 200 [], s)) (JObj [(''url'', JStr ''http://h/x'')]))
     (demo_target\<lparr>et_config := ''{}''\<rparr>) ''2026-07-18 00:00:00'' =
   (Inr \<lparr>xn_files = 1, xn_rows = 1, xn_last_ts = ''2026-07-19 03:45:42'', xn_file_names = [''webhook'']\<rparr>, ''2026-07-19 03:45:42'')"
proof -
  let ?sv = "demo_services (\<lambda>_ s. (HttpResponse 200 [], s)) (JObj [(''url'', JStr ''http://h/x'')]) :: string services"
  let ?x = "reading_from_row [Some ''7'', Some ''s1'', Some ''2026-07-19 03:45:42'']"
  have ts: "rr_ts_utc ?x = ''2026-07-19 03:45:42''" by (simp add: reading_from_row_def str_cell_def cell_def)
  have mk: "make_exporter (sv_parse ?sv) ''webhook'' ''{}'' = Inr (WebhookExporter ''{}'')"
    by (simp add: make_exporter_def demo_services_def)
  have once: "export_once demo_conn (exporter_run ?sv (WebhookExporter ''{}'')
       \<lparr>xc_sensor = sn, xc_readings = rev [?x], xc_weather = w, xc_from_ts = a, xc_to_ts = b\<rparr>) l run_nothing s =
     (Inr \<lparr>xn_files = 1, xn_rows = 1, xn_last_ts = [], xn_file_names = [''webhook'']\<rparr>, s)" for sn w a b l s
    by (simp add: export_once_def demo_send demo_log add_result_def run_nothing_def)
  have "send_fresh demo_conn ?sv (demo_target\<lparr>et_config := ''{}''\<rparr>) (sensor_from_row [Some ''s1'']) now [?x] s =
     (Inr \<lparr>xn_files = 1, xn_rows = 1, xn_last_ts = ''2026-07-19 03:45:42'', xn_file_names = [''webhook'']\<rparr>,
      ''2026-07-19 03:45:42'')" for now s
    using mk once
    by (simp add: send_fresh_def demo_target_def db_bind_def db_lift_def exporter_windowing_def run_incremental_def demo_ambient
        finish_run_def newest_ts_def ts set_export_watermark_def run_stmt_def exec_def demo_conn_def db_map_def db_ret_def)
  moreover have "drop_exported ''2026-07-18 00:00:00'' [?x] = [?x]" by (simp add: drop_exported_def ts)
  ultimately show ?thesis
    by (simp add: run_export_def demo_target_def demo_fetch db_bind_def db_map_def db_ret_def Let_def)
qed


section \<open>What a webhook is sent\<close>

lemma batches_concat: "0 < b \<Longrightarrow> concat (batches b rs) = rs"
  by (induction b rs rule: batches.induct) (simp add: batches.simps)

lemma batches_size: "x \<in> set (batches b rs) \<Longrightarrow> x \<noteq> [] \<and> length x \<le> b"
proof (induction b rs rule: batches.induct)
  case (1 b rs)
  then show ?case by (subst (asm) (2) batches.simps) (auto split: if_splits)
qed

text \<open>Services that also record every HTTP request made.\<close>

definition recorded :: "'s services \<Rightarrow> ('s \<times> http_req list) services" where
  "recorded sv =
     \<lparr>sv_parse = sv_parse sv, sv_dump = sv_dump sv,
      sv_http = (\<lambda>r (s, l). case sv_http sv r s of (res, s') \<Rightarrow> (res, s', l @ [r])),
      sv_write = (\<lambda>p t (s, l). case sv_write sv p t s of (o', s') \<Rightarrow> (o', s', l)),
      sv_now = (\<lambda>(s, l). sv_now sv s), sv_zone = sv_zone sv, sv_b64 = sv_b64 sv, sv_sign = sv_sign sv\<rparr>"

lemma recorded_simps [simp]: "sv_parse (recorded sv) = sv_parse sv" "sv_dump (recorded sv) = sv_dump sv"
  by (simp_all add: recorded_def)

lemma post_batches_recorded:
  "post_batches (recorded sv) url req bs (s, l) = (r, s', l') \<Longrightarrow>
   \<exists>k. l' = l @ map req (take k bs) \<and> k \<le> length bs \<and> (is_ok r \<longrightarrow> k = length bs) \<and> (bs \<noteq> [] \<longrightarrow> 0 < k)"
proof (induction bs arbitrary: s l)
  case Nil
  then show ?case by (simp add: db_ret_def)
next
  case (Cons b bs)
  obtain res s1 where h: "sv_http sv (req b) s = (res, s1)" by fastforce
  have step: "db_bind (db_lift (check_webhook url res)) (\<lambda>_. post_batches (recorded sv) url req bs) (s1, l @ [req b]) = (r, s', l')"
    using Cons.prems h by (simp add: recorded_def)
  show ?case
  proof (cases "check_webhook url res")
    case (Inl e)
    then have "r = Inl e \<and> l' = l @ [req b]" using step by (simp add: db_bind_def db_lift_def)
    then show ?thesis by (intro exI [of _ 1]) simp
  next
    case (Inr u)
    then have "post_batches (recorded sv) url req bs (s1, l @ [req b]) = (r, s', l')"
      using step by (simp add: db_bind_def db_lift_def)
    from Cons.IH [OF this] obtain k where
      "l' = (l @ [req b]) @ map req (take k bs)" "k \<le> length bs" "is_ok r \<longrightarrow> k = length bs" by blast
    then show ?thesis by (intro exI [of _ "Suc k"]) simp
  qed
qed

lemma hook_batch_pos: "hook_config_of cfg i = Inr hk \<Longrightarrow> 0 < hk_batch hk"
  by (auto simp: hook_config_of_def res_simps split: if_splits)

text \<open>
  C34. A webhook run that succeeds has posted every reading of its window exactly once, in order, in
  batches of the configured size, and counts them all; one that fails has posted the first
  batches only, none twice.
\<close>

theorem webhook_posts_each_reading_once:
  assumes cfg: "config_object (sv_parse sv) config = Inr cfg" and hk: "hook_config_of cfg (sn_id (xc_sensor ctx)) = Inr hk"
    and run: "webhook_run (recorded sv) config ctx (s, []) = (r, s', sent)"
  shows "\<exists>bs k. concat bs = xc_readings ctx \<and> (\<forall>b\<in>set bs. b \<noteq> [] \<and> int (length b) \<le> hk_batch hk) \<and>
     sent = map (hook_request sv hk (sensor_meta (xc_sensor ctx)) (ambient_json (xc_weather ctx))) (take k bs) \<and>
     (is_ok r \<longrightarrow> k = length bs \<and> r = Inr \<lparr>xr_file_name = ''webhook'', xr_remote_id = hk_url hk,
        xr_row_count = int (length (xc_readings ctx))\<rparr>)"
proof -
  let ?bs = "batches (nat (hk_batch hk)) (xc_readings ctx)"
  let ?req = "hook_request sv hk (sensor_meta (xc_sensor ctx)) (ambient_json (xc_weather ctx))"
  have pos: "0 < hk_batch hk" by (rule hook_batch_pos [OF hk])
  have req: "hook_request (recorded sv) hk meta w = hook_request sv hk meta w" for meta w
    by (rule ext) (simp add: hook_request_def)
  obtain q where post: "post_batches (recorded sv) (hk_url hk) ?req ?bs (s, []) = (q, s', sent)"
    and r: "r = (case q of Inl e \<Rightarrow> Inl e | Inr _ \<Rightarrow> Inr \<lparr>xr_file_name = ''webhook'', xr_remote_id = hk_url hk,
        xr_row_count = int (length (xc_readings ctx))\<rparr>)"
    using run cfg hk
    by (auto simp: webhook_run_def db_bind_def db_lift_def db_map_def db_ret_def req
        split: prod.splits sum.splits simp del: post_batches.simps)
  from post_batches_recorded [OF post] obtain k where k: "sent = map ?req (take k ?bs)" "is_ok q \<longrightarrow> k = length ?bs"
    by auto
  have "concat ?bs = xc_readings ctx" "\<forall>b\<in>set ?bs. b \<noteq> [] \<and> int (length b) \<le> hk_batch hk"
    using batches_concat [of "nat (hk_batch hk)"] batches_size [of _ "nat (hk_batch hk)" "xc_readings ctx"] pos by fastforce+
  then show ?thesis using k r by (intro exI [of _ ?bs] exI [of _ k]) (cases q; simp)
qed

theorem webhook_posts_each_reading_once_witness:
  "\<exists>bs k. concat bs = [demo_reading] \<and> (\<forall>b\<in>set bs. b \<noteq> [] \<and> int (length b) \<le> 2000) \<and> length (take k bs) = 1"
proof -
  let ?sv = "demo_services (\<lambda>_ s. (HttpError ''refused'', s)) (JObj [(''url'', JStr ''http://h/x'')]) :: unit services"
  let ?ctx = "\<lparr>xc_sensor = demo_sensor, xc_readings = [demo_reading], xc_weather = [], xc_from_ts = [], xc_to_ts = []\<rparr>"
  let ?hk = "\<lparr>hk_url = ''http://h/x'', hk_token = [], hk_site_id = ''s1'', hk_insecure = False, hk_batch = 2000\<rparr>"
  have cfg: "config_object (sv_parse ?sv) ''{}'' = Inr (JObj [(''url'', JStr ''http://h/x'')])"
    by (simp add: config_object_def demo_services_def)
  have hk: "hook_config_of (JObj [(''url'', JStr ''http://h/x'')]) (sn_id (xc_sensor ?ctx)) = Inr ?hk"
    by (simp add: hook_config_of_def demo_sensor_def sensor_from_row_def str_cell_def cell_def)
  obtain r s' sent where run: "webhook_run (recorded ?sv) ''{}'' ?ctx ((), []) = (r, s', sent)"
    by (metis prod_cases3)
  have one: "length sent = 1"
    using run cfg hk
    by (auto simp: webhook_run_def db_bind_def db_lift_def db_map_def db_ret_def batches.simps [of _ "[demo_reading]"]
        batches.simps [of _ "[]"] recorded_def demo_services_def check_webhook_def)
  obtain bs k where "concat bs = [demo_reading]" "\<forall>b\<in>set bs. b \<noteq> [] \<and> int (length b) \<le> 2000"
    "sent = map (hook_request ?sv ?hk (sensor_meta demo_sensor) (ambient_json [])) (take k bs)"
    using webhook_posts_each_reading_once [OF cfg hk run] by auto
  then show ?thesis using one by (intro exI [of _ bs] exI [of _ k]) (simp del: length_take)
qed

section \<open>The months of a run\<close>

lemma set_insert_set [simp]: "set (set_insert x xs) = insert x (set xs)"
  by (induction xs) auto

lemma set_insert_sorted: "sorted_wrt str_less xs \<Longrightarrow> sorted_wrt str_less (set_insert x xs)"
proof (induction xs)
  case Nil
  then show ?case by simp
next
  case (Cons y ys)
  then show ?case using str_less_linear [of x y] by (auto intro: str_less_trans)
qed

lemma months_of_acc:
  fixes acc :: "string list" and zi :: zoneinfo and tz :: string
  defines "f \<equiv> \<lambda>m r. set_insert (local_ym zi (rr_ts_utc r) tz) m"
  shows "set (foldl f acc rs) = set acc \<union> (\<lambda>r. local_ym zi (rr_ts_utc r) tz) ` set rs \<and>
    (sorted_wrt str_less acc \<longrightarrow> sorted_wrt str_less (foldl f acc rs))"
  by (induction rs arbitrary: acc) (auto simp: f_def set_insert_sorted)

lemma months_of_set: "set (months_of zi tz rs) = (\<lambda>r. local_ym zi (rr_ts_utc r) tz) ` set rs"
  and months_of_sorted: "sorted_wrt str_less (months_of zi tz rs)"
  using months_of_acc [of zi tz "[]" rs] by (simp_all add: months_of_def)

lemma month_ref_in:
  assumes "ym \<in> set (months_of zi tz rs)"
  obtains r where "r \<in> set rs" "month_ref zi tz rs ym = rr_ts_utc r" "local_ym zi (rr_ts_utc r) tz = ym"
proof -
  obtain x where "x \<in> set rs" "local_ym zi (rr_ts_utc x) tz = ym" using assms by (auto simp: months_of_set)
  then have "filter (\<lambda>r. local_ym zi (rr_ts_utc r) tz = ym) rs \<noteq> []" by (auto simp: filter_empty_conv)
  then obtain r rest where f: "filter (\<lambda>r. local_ym zi (rr_ts_utc r) tz = ym) rs = r # rest"
    by (metis list.exhaust)
  have "r \<in> set (filter (\<lambda>r. local_ym zi (rr_ts_utc r) tz = ym) rs)" unfolding f by simp
  then have "r \<in> set rs \<and> local_ym zi (rr_ts_utc r) tz = ym" by (simp only: set_filter mem_Collect_eq)
  then show thesis using that [of r] f by (simp add: month_ref_def)
qed

lemma ym_text_inj:
  assumes e: "printf_d0 4 y @ ''-'' @ printf_d0 2 m = printf_d0 4 y' @ ''-'' @ printf_d0 2 m'"
    and b: "0 \<le> y" "y \<le> 9999" "0 \<le> y'" "y' \<le> 9999" "0 \<le> m" "m \<le> 99" "0 \<le> m'" "m' \<le> 99"
  shows "y = y' \<and> m = m'"
proof -
  have s: "scan_int (printf_d0 4 y @ ''-'' @ printf_d0 2 m) = Some (y, ''-'' @ printf_d0 2 m)" if "0 \<le> y" "y \<le> 9999" for y m
    using that by (intro scan_int_printf) (simp_all add: i32_max_def isdigit_seps)
  have "Some (y, ''-'' @ printf_d0 2 m) = Some (y', ''-'' @ printf_d0 2 m')"
    by (rule trans [OF trans [OF s [OF b(1,2), symmetric] arg_cong [OF e, of scan_int]] s [OF b(3,4)]])
  then have y: "y = y'" and m: "printf_d0 2 m = printf_d0 2 m'"
    unfolding option.inject prod.inject same_append_eq by blast+
  have "scan_int (printf_d0 2 m @ []) = Some (m, [])" if "0 \<le> m" "m \<le> 99" for m
    using that by (intro scan_int_printf) (simp_all add: i32_max_def)
  then have "Some (m, [] :: string) = Some (m', [])" using b m by (metis append_Nil2)
  then show ?thesis using y by simp
qed

lemma ym_text:
  assumes z: "steady zi tz k" and "in_calendar (t + k)" "in_calendar (u + k)"
    and p: "parse_sql_utc x = Some t" "parse_sql_utc y = Some u"
    and e: "local_ym zi x tz = local_ym zi y tz"
  shows "month_index (local_tm zi t tz) = month_index (local_tm zi u tz)"
proof -
  have b: "0 \<le> tm_year (gmtime (t + k)) + 1900 \<and> tm_year (gmtime (t + k)) + 1900 \<le> 9999"
    "0 \<le> tm_year (gmtime (u + k)) + 1900 \<and> tm_year (gmtime (u + k)) + 1900 \<le> 9999"
    using in_calendar_year [OF assms(2)] in_calendar_year [OF assms(3)] by simp_all
  have m: "0 \<le> tm_mon (gmtime x) + 1 \<and> tm_mon (gmtime x) + 1 \<le> 99" for x
    using gmtime_small_fields [of x] gmtime_date(1,2) [of x] by simp
  have "tm_year (gmtime (t + k)) + 1900 = tm_year (gmtime (u + k)) + 1900 \<and> tm_mon (gmtime (t + k)) + 1 = tm_mon (gmtime (u + k)) + 1"
    using e b m [of "t + k"] m [of "u + k"]
    by (intro ym_text_inj) (simp_all add: local_ym_def p Let_def steady_local [OF z])
  then show ?thesis by (simp add: steady_local [OF z] month_index_def)
qed


definition row_at :: "int \<Rightarrow> ReadingRow" where
  "row_at t = (reading_from_row [])\<lparr>rr_id := t, rr_ts_utc := fmt_sql_utc t\<rparr>"


end
