(* ===== verification/NW_Weather.thy ===== *)
theory NW_Weather imports NW_Drive begin

text \<open>
  Weather providers (\<^verbatim>\<open>src/weather/provider.cpp\<close>): what a request to each service is, how an
  observation becomes a row in metric units, and every error on the way.
\<close>

section \<open>Requests\<close>

definition https_get :: "'s services \<Rightarrow> string \<Rightarrow> string \<Rightarrow> ('s, string) db" where
  "https_get sv host path_and_query s =
     (case sv_http sv (http_get (''https://'' @ host) path_and_query []) s of
        (HttpError e, s') \<Rightarrow> (throw (''request to '' @ host @ '' failed: '' @ e), s')
      | (HttpResponse status body, s') \<Rightarrow>
          if success status then (ok body, s')
          else (throw (''HTTP '' @ show_int status @ '' from '' @ host @ '': '' @ take 200 body), s'))"

section \<open>Observations\<close>

definition jnum :: "json \<Rightarrow> string \<Rightarrow> double option" where
  "jnum j k =
     (case member j k of
        Some v \<Rightarrow> (case get_double v of Inr x \<Rightarrow> if is_number v then Some x else None | Inl _ \<Rightarrow> None)
      | None \<Rightarrow> None)"

definition iso_to_sql :: "json \<Rightarrow> string \<Rightarrow> string" where
  "iso_to_sql j k =
     (case str_member j k of
        Some dt \<Rightarrow> if 19 \<le> length dt then (take 19 dt)[10 := CHR '' ''] else []
      | None \<Rightarrow> [])"

definition no_reading :: WeatherReadingRow where
  "no_reading =
     \<lparr>wr_id = 0, wr_station_id = [], wr_ts_utc = [], wr_temp_c = None, wr_humidity_pct = None,
      wr_dew_point_c = None, wr_pressure_hpa = None, wr_pressure_abs_hpa = None, wr_wind_speed_ms = None,
      wr_wind_gust_ms = None, wr_wind_dir_deg = None, wr_rain_rate_mmh = None, wr_rain_daily_mm = None,
      wr_uv_index = None, wr_solar_wm2 = None, wr_cloud_cover_pct = None, wr_source = [], wr_raw = []\<rparr>"

text \<open>The decimal constants of the unit conversions, as the doubles they denote.\<close>

definition dlit :: "nat \<Rightarrow> nat \<Rightarrow> double" where
  "dlit n d = round_double False n d"

definition f2c :: "double \<Rightarrow> double" where
  "f2c f = ddiv (dmul (dsub f (dlit 32 1)) (dlit 5 1)) (dlit 9 1)"

definition inhg_to_hpa :: "double \<Rightarrow> double" where "inhg_to_hpa x = dmul x (dlit 338639 10000)"
definition mph_to_ms :: "double \<Rightarrow> double" where "mph_to_ms x = dmul x (dlit 44704 100000)"
definition inch_to_mm :: "double \<Rightarrow> double" where "inch_to_mm x = dmul x (dlit 254 10)"
definition kmh_to_ms :: "double \<Rightarrow> double" where "kmh_to_ms x = ddiv x (dlit 36 10)"
definition degrees :: "double \<Rightarrow> int" where "degrees x = to_i32 (lround x)"

definition parse_ambient :: "json_printer \<Rightarrow> json \<Rightarrow> WeatherReadingRow" where
  "parse_ambient dump d = no_reading\<lparr>
     wr_raw := dump d, wr_ts_utc := iso_to_sql d ''date'',
     wr_temp_c := map_option f2c (jnum d ''tempf''), wr_humidity_pct := jnum d ''humidity'',
     wr_dew_point_c := map_option f2c (jnum d ''dewPoint''),
     wr_pressure_hpa := map_option inhg_to_hpa (jnum d ''baromrelin''),
     wr_pressure_abs_hpa := map_option inhg_to_hpa (jnum d ''baromabsin''),
     wr_wind_speed_ms := map_option mph_to_ms (jnum d ''windspeedmph''),
     wr_wind_gust_ms := map_option mph_to_ms (jnum d ''windgustmph''),
     wr_wind_dir_deg := map_option degrees (jnum d ''winddir''),
     wr_rain_rate_mmh := map_option inch_to_mm (jnum d ''hourlyrainin''),
     wr_rain_daily_mm := map_option inch_to_mm (jnum d ''dailyrainin''),
     wr_uv_index := jnum d ''uv'', wr_solar_wm2 := jnum d ''solarradiation''\<rparr>"

definition add_metric :: "json \<Rightarrow> WeatherReadingRow \<Rightarrow> WeatherReadingRow" where
  "add_metric m r = r\<lparr>
     wr_temp_c := jnum m ''temp'', wr_dew_point_c := jnum m ''dewpt'', wr_pressure_hpa := jnum m ''pressure'',
     wr_wind_speed_ms := map_option kmh_to_ms (jnum m ''windSpeed''),
     wr_wind_gust_ms := map_option kmh_to_ms (jnum m ''windGust''),
     wr_rain_rate_mmh := jnum m ''precipRate'', wr_rain_daily_mm := jnum m ''precipTotal''\<rparr>"

definition parse_wunderground :: "json_printer \<Rightarrow> json \<Rightarrow> WeatherReadingRow" where
  "parse_wunderground dump obs =
     (let r = no_reading\<lparr>wr_raw := dump obs, wr_ts_utc := iso_to_sql obs ''obsTimeUtc'',
                wr_humidity_pct := jnum obs ''humidity'',
                wr_wind_dir_deg := map_option degrees (jnum obs ''winddir''),
                wr_uv_index := jnum obs ''uv'', wr_solar_wm2 := jnum obs ''solarRadiation''\<rparr>
      in case member obs ''metric'' of
           Some m \<Rightarrow> if is_object m then add_metric m r else r
         | None \<Rightarrow> r)"

section \<open>Providers\<close>

datatype provider = Ambient string string string | Wunderground string string

text \<open>The device to read: the first, or the one with the configured MAC address.\<close>

fun find_mac :: "string \<Rightarrow> json list \<Rightarrow> json result" where
  "find_mac mac [] = throw (''Ambient: device MAC '' @ mac @ '' not found'')"
| "find_mac mac (d # ds) =
     then_res (value_or get_str d ''macAddress'' []) (\<lambda>m. if m = mac then ok d else find_mac mac ds)"

definition ambient_device :: "string \<Rightarrow> json \<Rightarrow> json result" where
  "ambient_device mac arr =
     (case arr of
        JArr (d # ds) \<Rightarrow> if mac = [] then ok d else find_mac mac (d # ds)
      | _ \<Rightarrow> throw ''Ambient: no devices returned'')"

definition last_data :: "json \<Rightarrow> json result" where
  "last_data dev =
     (case member dev ''lastData'' of None \<Rightarrow> throw ''Ambient: device has no lastData'' | Some d \<Rightarrow> ok d)"

definition first_observation :: "json \<Rightarrow> json result" where
  "first_observation j =
     (case member j ''observations'' of
        Some (JArr (obs # _)) \<Rightarrow> ok obs
      | _ \<Rightarrow> throw ''Wunderground: no observations returned'')"

text \<open>The provider's own copy of \<^verbatim>\<open>url_encode\<close>.\<close>

definition weather_url_encode :: "string \<Rightarrow> string" where
  "weather_url_encode s = concat (map (\<lambda>c.
     if isalnum c \<or> c = CHR ''-'' \<or> c = CHR ''_'' \<or> c = CHR ''.'' \<or> c = CHR ''~'' then [c]
     else [CHR ''%'', hex_upper (code_of c div 16), hex_upper (code_of c mod 16)]) s)"

definition ambient_path :: "string \<Rightarrow> string \<Rightarrow> string" where
  "ambient_path app api = ''/v1/devices?applicationKey='' @ weather_url_encode app @ ''&apiKey='' @ weather_url_encode api"

definition wunderground_path :: "string \<Rightarrow> string \<Rightarrow> string" where
  "wunderground_path sid api =
     ''/v2/pws/observations/current?stationId='' @ weather_url_encode sid @ ''&format=json&units=m&apiKey='' @ weather_url_encode api"

definition provider_fetch :: "'s services \<Rightarrow> provider \<Rightarrow> ('s, WeatherReadingRow) db" where
  "provider_fetch sv p =
     (case p of
        Ambient app api mac \<Rightarrow>
          db_bind (https_get sv ''api.ambientweather.net'' (ambient_path app api)) (\<lambda>body.
            db_lift (then_res (sv_parse sv body) (\<lambda>arr.
                     then_res (ambient_device mac arr) (\<lambda>dev.
                     then_res (last_data dev) (\<lambda>d. ok (parse_ambient (sv_dump sv) d))))))
      | Wunderground sid api \<Rightarrow>
          db_bind (https_get sv ''api.weather.com'' (wunderground_path sid api)) (\<lambda>body.
            db_lift (then_res (sv_parse sv body) (\<lambda>j.
                     then_res (first_observation j) (\<lambda>obs. ok (parse_wunderground (sv_dump sv) obs))))))"

definition make_provider :: "json_parser \<Rightarrow> string \<Rightarrow> string \<Rightarrow> provider result" where
  "make_provider parse kind config =
     then_res (if config = [] then ok (JObj []) else parse config) (\<lambda>cfg.
       if kind = ''ambientweather''
       then then_res (value_or get_str cfg ''applicationKey'' []) (\<lambda>app.
            then_res (value_or get_str cfg ''apiKey'' []) (\<lambda>api.
            then_res (value_or get_str cfg ''macAddress'' []) (\<lambda>mac.
              if app = [] \<or> api = [] then throw ''ambientweather requires applicationKey and apiKey''
              else ok (Ambient app api mac))))
       else if kind = ''wunderground''
       then then_res (value_or get_str cfg ''stationId'' []) (\<lambda>sid.
            then_res (value_or get_str cfg ''apiKey'' []) (\<lambda>api.
              if sid = [] \<or> api = [] then throw ''wunderground requires stationId and apiKey''
              else ok (Wunderground sid api)))
       else throw (''unknown weather provider: '' @ quoted kind))"

definition parse_ambient_json :: "'s services \<Rightarrow> string \<Rightarrow> WeatherReadingRow result" where
  "parse_ambient_json sv txt0 = then_res (sv_parse sv txt0) (\<lambda>j. ok (parse_ambient (sv_dump sv) j))"

definition parse_wunderground_json :: "'s services \<Rightarrow> string \<Rightarrow> WeatherReadingRow result" where
  "parse_wunderground_json sv txt0 = then_res (sv_parse sv txt0) (\<lambda>j. ok (parse_wunderground (sv_dump sv) j))"

end
