(* ===== verification/NW_Sched.thy ===== *)
theory NW_Sched imports NW_Export NW_Weather begin

text \<open>
  The background workers: one per polled sensor (\<^verbatim>\<open>src/daemon/scheduler.cpp\<close>), one per weather
  station (\<^verbatim>\<open>src/weather/weather_scheduler.cpp\<close>) and one per scheduled export target
  (\<^verbatim>\<open>src/export/export_scheduler.cpp\<close>). A worker is its local variables and a loop of cycles; each
  bounded wait on the condition variable is one entry of a list that says whether stop was
  requested during it. What is only written to the log is left out.
\<close>

section \<open>Polling with backoff\<close>

record poll_state =
  po_up :: bool
  po_reported :: bool
  po_backoff :: int

definition poll_init :: "int \<Rightarrow> poll_state" where
  "poll_init base = \<lparr>po_up = False, po_reported = False, po_backoff = base\<rparr>"

definition poll_interval :: "int \<Rightarrow> int" where
  "poll_interval n = (if 0 < n then n else 300)"

text \<open>The \<^verbatim>\<open>catch\<close> of a failed fetch: an event on a transition only, then the next backoff.\<close>

definition poll_failed ::
  "int \<Rightarrow> int \<Rightarrow> (string \<Rightarrow> ('s, unit) db) \<Rightarrow> string \<Rightarrow> poll_state \<Rightarrow> 's \<Rightarrow> (int \<times> poll_state) \<times> 's" where
  "poll_failed cap interval report e st s =
     (let s' = (if po_up st \<or> \<not> po_reported st then snd (report e s) else s)
      in ((min interval (po_backoff st),
           \<lparr>po_up = False, po_reported = True, po_backoff = min (po_backoff st * 2) cap\<rparr>), s'))"

text \<open>A fetched value: stored, announced if the last poll had failed; an error there is only logged.\<close>

definition poll_got ::
  "int \<Rightarrow> int \<Rightarrow> ('s, 'u) db \<Rightarrow> ('s, unit) db \<Rightarrow> poll_state \<Rightarrow> 's \<Rightarrow> (int \<times> poll_state) \<times> 's" where
  "poll_got base interval store announce st s =
     (case store s of
        (Inl _, s') \<Rightarrow> ((interval, st), s')
      | (Inr _, s') \<Rightarrow>
          (case (if po_up st then (Inr (), s') else announce s') of
             (Inl _, s'') \<Rightarrow> ((interval, st), s'')
           | (Inr _, s'') \<Rightarrow> ((interval, \<lparr>po_up = True, po_reported = True, po_backoff = base\<rparr>), s'')))"

definition poll_cycle ::
  "int \<Rightarrow> int \<Rightarrow> int \<Rightarrow> ('s, 'r) db \<Rightarrow> (string \<Rightarrow> ('s, unit) db) \<Rightarrow> ('r \<Rightarrow> ('s, 'u) db) \<Rightarrow> ('s, unit) db \<Rightarrow>
   poll_state \<Rightarrow> 's \<Rightarrow> (int \<times> poll_state) \<times> 's" where
  "poll_cycle base cap interval get report store announce st s =
     (case get s of
        (Inl e, s') \<Rightarrow> poll_failed cap interval report e st s'
      | (Inr r, s') \<Rightarrow> poll_got base interval (store r) announce st s')"

text \<open>The loop: the waits it made, and where it left its variables and the world.\<close>

fun poll_loop ::
  "(poll_state \<Rightarrow> 's \<Rightarrow> (int \<times> poll_state) \<times> 's) \<Rightarrow> bool list \<Rightarrow> poll_state \<Rightarrow> 's \<Rightarrow> int list \<times> poll_state \<times> 's" where
  "poll_loop cyc [] st s = ([], st, s)"
| "poll_loop cyc (stop # stops) st s =
     (case cyc st s of ((w, st'), s') \<Rightarrow>
        if stop then ([w], st', s')
        else (case poll_loop cyc stops st' s' of (ws, st'', s'') \<Rightarrow> (w # ws, st'', s'')))"

subsection \<open>Sensors\<close>

definition reading_quality :: "Reading \<Rightarrow> string" where
  "reading_quality r = (if dle0 (rd_mag_arcsec2 r) then ''saturated'' else ''ok'')"

definition sensor_cycle ::
  "'s conn \<Rightarrow> (SensorRow \<Rightarrow> ('s, Reading) db) \<Rightarrow> SensorRow \<Rightarrow> poll_state \<Rightarrow> 's \<Rightarrow> (int \<times> poll_state) \<times> 's" where
  "sensor_cycle c read_device sn =
     poll_cycle 2 60 (poll_interval (sn_poll_interval_s sn)) (read_device sn)
       (\<lambda>e. insert_event c ''sqm'' ''warning'' ''read_error'' e (sn_id sn))
       (\<lambda>r. insert_reading c (sn_id sn) r [] ''poll'' (reading_quality r))
       (insert_event c ''sqm'' ''info'' ''connect'' (sn_address sn) (sn_id sn))"

definition sensor_worker ::
  "('s, unit) db \<Rightarrow> 's conn \<Rightarrow> (SensorRow \<Rightarrow> ('s, Reading) db) \<Rightarrow> SensorRow \<Rightarrow> bool list \<Rightarrow> 's \<Rightarrow> int list \<times> 's" where
  "sensor_worker opn c read_device sn stops s =
     (case opn s of
        (Inl _, s') \<Rightarrow> ([], s')
      | (Inr _, s') \<Rightarrow>
          (case poll_loop (sensor_cycle c read_device sn) stops (poll_init 2) s' of (ws, _, s'') \<Rightarrow> (ws, s'')))"

definition pollable :: "SensorRow \<Rightarrow> bool" where
  "pollable sn \<longleftrightarrow> sn_transport sn = ''tcp'' \<or> sn_transport sn = ''serial''"

definition scheduler_start :: "SensorRow list \<Rightarrow> SensorRow list" where
  "scheduler_start sns = filter pollable sns"

subsection \<open>Weather stations\<close>

definition weather_cycle ::
  "'s conn \<Rightarrow> ('s, WeatherReadingRow) db \<Rightarrow> WeatherStationRow \<Rightarrow> poll_state \<Rightarrow> 's \<Rightarrow> (int \<times> poll_state) \<times> 's" where
  "weather_cycle c fetch0 ws =
     poll_cycle 5 300 (poll_interval (ws_poll_interval_s ws))
       (db_map (\<lambda>r. r\<lparr>wr_station_id := ws_id ws\<rparr>) fetch0)
       (\<lambda>e. insert_event c ''weather'' ''warning'' ''fetch_error'' e (ws_id ws))
       (\<lambda>r. insert_weather_reading c r)
       (insert_event c ''weather'' ''info'' ''connect'' (ws_provider ws) (ws_id ws))"

definition weather_worker ::
  "('s, unit) db \<Rightarrow> 's conn \<Rightarrow> 's services \<Rightarrow> WeatherStationRow \<Rightarrow> bool list \<Rightarrow> 's \<Rightarrow> int list \<times> 's" where
  "weather_worker opn c sv ws stops s =
     (case opn s of
        (Inl _, s') \<Rightarrow> ([], s')
      | (Inr _, s') \<Rightarrow>
          (case make_provider (sv_parse sv) (ws_provider ws) (ws_config ws) of
             Inl e \<Rightarrow> ([], snd (insert_event c ''weather'' ''error'' ''config_error'' e (ws_id ws) s'))
           | Inr p \<Rightarrow>
               (case poll_loop (weather_cycle c (provider_fetch sv p) ws) stops (poll_init 5) s' of
                  (waits, _, s'') \<Rightarrow> (waits, s''))))"

definition weather_start :: "WeatherStationRow list \<Rightarrow> WeatherStationRow list" where
  "weather_start wss = filter (\<lambda>w. ws_provider w \<noteq> []) wss"

section \<open>Exports on a schedule\<close>

definition parse_hhmm :: "string \<Rightarrow> int \<times> int" where
  "parse_hhmm s =
     (case scan_int s of
        None \<Rightarrow> (6, 0)
      | Some (h, r) \<Rightarrow>
          (case scan_then CHR '':'' r of
             None \<Rightarrow> (6, 0)
           | Some (m, _) \<Rightarrow> if h < 0 \<or> 23 < h \<or> m < 0 \<or> 59 < m then (6, 0) else (h, m)))"

definition next_run :: "zoneinfo \<Rightarrow> string \<Rightarrow> ExportTargetRow \<Rightarrow> int \<Rightarrow> int" where
  "next_run zi tz cur now =
     (case parse_hhmm (et_schedule_time cur) of (h, m) \<Rightarrow>
        if et_schedule cur = ''weekly''
        then next_local_weekly_utc zi (case et_schedule_day cur of None \<Rightarrow> 0 | Some d \<Rightarrow> d) h m tz now
        else if et_schedule cur = ''monthly''
        then next_local_monthly_utc zi (case et_schedule_day cur of None \<Rightarrow> 1 | Some d \<Rightarrow> d) h m tz now
        else next_local_hhmm_utc zi h m tz now)"

definition export_wait :: "zoneinfo \<Rightarrow> string \<Rightarrow> ExportTargetRow \<Rightarrow> int \<Rightarrow> int" where
  "export_wait zi tz cur now =
     (if et_schedule cur = ''interval''
      then (case et_interval_s cur of Some n \<Rightarrow> if 0 < n then n else 3600 | None \<Rightarrow> 3600)
      else at_least_1 (to_i32 (next_run zi tz cur now - now)))"

text \<open>How a worker ends: asked to stop, its target gone or inactive, or an exception that leaves the
  thread function, which ends the process. \<open>Waiting\<close> is a worker that has not ended.\<close>

datatype worker_end = Stopped | Inactive | Crashed string | Waiting

definition export_detail :: "ExportRunResult \<Rightarrow> string" where
  "export_detail res = show_int (xn_rows res) @ '' reading(s), '' @ show_int (xn_files res) @ '' file(s)''"

definition export_act :: "'s conn \<Rightarrow> 's services \<Rightarrow> ExportTargetRow \<Rightarrow> string \<Rightarrow> ('s, unit) db" where
  "export_act c sv cur target_id =
     db_catch
       (db_bind (run_export c sv cur) (\<lambda>res.
          if 0 < xn_files res then insert_event c ''export'' ''info'' ''export'' (export_detail res) target_id
          else db_ret ()))
       (\<lambda>e. db_catch (insert_event c ''export'' ''error'' ''export_error'' e target_id) (\<lambda>_. db_ret ()))"

fun export_loop ::
  "'s conn \<Rightarrow> 's services \<Rightarrow> string \<Rightarrow> string \<Rightarrow> bool list \<Rightarrow> 's \<Rightarrow> worker_end \<times> int list \<times> 's" where
  "export_loop c sv tz target_id [] s = (Waiting, [], s)"
| "export_loop c sv tz target_id (stop # stops) s =
     (case find_export_target c target_id s of
        (Inl e, s') \<Rightarrow> (Crashed e, [], s')
      | (Inr None, s') \<Rightarrow> (Inactive, [], s')
      | (Inr (Some cur), s') \<Rightarrow>
          if et_status cur \<noteq> ''active'' then (Inactive, [], s')
          else let w = export_wait (sv_zone sv) tz cur (sv_now sv s')
               in if stop then (Stopped, [w], s')
                  else (case export_loop c sv tz target_id stops (snd (export_act c sv cur target_id s')) of
                          (e, ws, s'') \<Rightarrow> (e, w # ws, s'')))"

definition export_worker ::
  "('s, unit) db \<Rightarrow> 's conn \<Rightarrow> 's services \<Rightarrow> ExportTargetRow \<Rightarrow> bool list \<Rightarrow> 's \<Rightarrow> worker_end \<times> int list \<times> 's" where
  "export_worker opn c sv t stops s =
     (case opn s of
        (Inl _, s') \<Rightarrow> (Inactive, [], s')
      | (Inr _, s') \<Rightarrow>
          (case find_sensor c (et_sensor_id t) s' of
             (Inl e, s'') \<Rightarrow> (Crashed e, [], s'')
           | (Inr sn, s'') \<Rightarrow>
               export_loop c sv (case sn of None \<Rightarrow> [] | Some x \<Rightarrow> sn_timezone x) (et_id t) stops s''))"

definition export_start :: "ExportTargetRow list \<Rightarrow> ExportTargetRow list" where
  "export_start ts = filter (\<lambda>t. et_schedule t \<noteq> ''manual'') ts"

section \<open>Waits and backoff\<close>

lemma poll_loop_inv:
  assumes step: "\<And>st s w st' s'. J st s \<Longrightarrow> cyc st s = ((w, st'), s') \<Longrightarrow> J st' s' \<and> W w"
  shows "J st s \<Longrightarrow> poll_loop cyc stops st s = (ws, st', s') \<Longrightarrow> J st' s' \<and> (\<forall>w\<in>set ws. W w)"
proof (induction stops arbitrary: st s ws st' s')
  case Nil
  then show ?case by simp
next
  case (Cons stop stops)
  obtain w st1 s1 where c: "cyc st s = ((w, st1), s1)" by (metis surj_pair)
  note st1 = step [OF Cons.prems(1) c]
  show ?case
  proof (cases stop)
    case True
    then have "ws = [w]" "st' = st1" "s' = s1" using Cons.prems(2) c by simp_all
    then show ?thesis using st1 by simp
  next
    case False
    obtain ws2 st2 s2 where l: "poll_loop cyc stops st1 s1 = (ws2, st2, s2)" by (metis prod_cases3)
    have "J st2 s2 \<and> (\<forall>w\<in>set ws2. W w)" by (rule Cons.IH [OF _ l]) (use st1 in blast)
    moreover have "ws = w # ws2" "st' = st2" "s' = s2" using Cons.prems(2) c l False by simp_all
    ultimately show ?thesis using st1 by simp
  qed
qed

text \<open>A retry policy: the first wait after a failure and the longest.\<close>

locale retry_policy =
  fixes base cap :: int
  assumes base_pos: "0 < base" and base_cap: "base \<le> cap"
begin

lemma cycle_bounded:
  assumes "0 < interval" and "0 < po_backoff st \<and> po_backoff st \<le> cap"
    and "poll_cycle base cap interval get report store announce st s = ((w, st'), s')"
  shows "(0 < po_backoff st' \<and> po_backoff st' \<le> cap) \<and> 1 \<le> w \<and> w \<le> interval"
  using assms base_pos base_cap
  by (auto simp: poll_cycle_def poll_failed_def poll_got_def Let_def split: prod.splits sum.splits if_splits)

lemma loop_bounded:
  assumes i: "0 < interval"
    and run: "poll_loop (poll_cycle base cap interval get report store announce) stops (poll_init base) s = (ws, st', s')"
  shows "\<forall>w\<in>set ws. 1 \<le> w \<and> w \<le> interval"
proof -
  have start: "0 < po_backoff (poll_init base) \<and> po_backoff (poll_init base) \<le> cap"
    using base_pos base_cap by (simp add: poll_init_def)
  have "(0 < po_backoff st' \<and> po_backoff st' \<le> cap) \<and> (\<forall>w\<in>set ws. 1 \<le> w \<and> w \<le> interval)"
  proof (rule poll_loop_inv [where J = "\<lambda>st s. 0 < po_backoff st \<and> po_backoff st \<le> cap" and W = "\<lambda>w. 1 \<le> w \<and> w \<le> interval", OF _ start run])
    fix st1 s1 w st2 s2
    assume "0 < po_backoff st1 \<and> po_backoff st1 \<le> cap"
      and "poll_cycle base cap interval get report store announce st1 s1 = ((w, st2), s2)"
    then show "(0 < po_backoff st2 \<and> po_backoff st2 \<le> cap) \<and> 1 \<le> w \<and> w \<le> interval"
      by (rule cycle_bounded [OF i])
  qed
  then show ?thesis by blast
qed

lemma doubling: "min (min (base * 2 ^ k) cap * 2) cap = min (base * 2 ^ Suc k) cap"
proof -
  have "base * 2 ^ Suc k = base * 2 ^ k * 2" by simp
  then show ?thesis using base_pos base_cap by (auto simp: min_def)
qed

lemma failing_waits:
  assumes "\<And>s. \<exists>e s'. get s = (Inl e, s')"
  shows "po_backoff st = min (base * 2 ^ k) cap \<Longrightarrow>
    fst (poll_loop (poll_cycle base cap interval get report store announce) (replicate n False @ [True]) st s) =
      map (\<lambda>i. min interval (min (base * 2 ^ (k + i)) cap)) [0..<Suc n]"
proof (induction n arbitrary: k st s)
  case 0
  obtain e s1 where g: "get s = (Inl e, s1)" using assms by blast
  then show ?case using 0 by (simp add: poll_cycle_def poll_failed_def Let_def)
next
  case (Suc n)
  obtain e s1 where g: "get s = (Inl e, s1)" using assms by blast
  obtain s2 st2 where c: "poll_cycle base cap interval get report store announce st s = ((min interval (po_backoff st), st2), s2)"
    and b: "po_backoff st2 = min (base * 2 ^ Suc k) cap"
    using Suc.prems doubling [of k] by (simp add: g poll_cycle_def poll_failed_def Let_def)
  have "map (\<lambda>i. min interval (min (base * 2 ^ (k + i)) cap)) [0..<Suc (Suc n)] =
     min interval (min (base * 2 ^ k) cap) # map (\<lambda>i. min interval (min (base * 2 ^ (Suc k + i)) cap)) [0..<Suc n]"
    by (subst upt_conv_Cons, simp) (simp add: map_Suc_upt [symmetric] del: upt_Suc)
  then show ?case
    using Suc.IH [OF b, of s2] c Suc.prems by (simp add: split_beta del: upt_Suc)
qed

end

interpretation sensor_retry: retry_policy 2 60 by unfold_locales simp_all
interpretation weather_retry: retry_policy 5 300 by unfold_locales simp_all

lemma poll_interval_pos: "0 < poll_interval n"
  by (simp add: poll_interval_def)

text \<open>
  C32. A sensor worker always waits between one second and the sensor's interval, whatever the device
  and the database do, so it neither spins nor polls less often than asked.
\<close>

theorem sensor_waits_bounded:
  "set (fst (sensor_worker opn c read_device sn stops s)) \<subseteq> {1..poll_interval (sn_poll_interval_s sn)}"
proof (cases "opn s")
  case (Pair r s1)
  show ?thesis
  proof (cases r)
    case (Inl e)
    then show ?thesis by (simp add: sensor_worker_def Pair)
  next
    case (Inr u)
    obtain ws st s2 where l: "poll_loop (sensor_cycle c read_device sn) stops (poll_init 2) s1 = (ws, st, s2)"
      by (metis prod_cases3)
    have "\<forall>w\<in>set ws. 1 \<le> w \<and> w \<le> poll_interval (sn_poll_interval_s sn)"
      by (rule sensor_retry.loop_bounded [OF poll_interval_pos l [unfolded sensor_cycle_def]])
    then show ?thesis by (auto simp: sensor_worker_def Pair Inr l)
  qed
qed

text \<open>
  C30. While a device keeps failing, its worker retries after 2, 4, 8, 16, 32 and then every 60
  seconds, never later than the polling interval.
\<close>

theorem sensor_backoff_doubles:
  assumes "\<And>s. \<exists>e s'. read_device sn s = (Inl e, s')" and "opn s = (Inr (), s1)"
  shows "fst (sensor_worker opn c read_device sn (replicate n False @ [True]) s) =
    map (\<lambda>i. min (poll_interval (sn_poll_interval_s sn)) (min (2 * 2 ^ i) 60)) [0..<Suc n]"
  using sensor_retry.failing_waits [OF assms(1), where st = "poll_init 2" and k = 0
      and interval = "poll_interval (sn_poll_interval_s sn)" and n = n and s = s1
      and report = "\<lambda>e. insert_event c ''sqm'' ''warning'' ''read_error'' e (sn_id sn)"
      and store = "\<lambda>r. insert_reading c (sn_id sn) r [] ''poll'' (reading_quality r)"
      and announce = "insert_event c ''sqm'' ''info'' ''connect'' (sn_address sn) (sn_id sn)"]
  by (simp add: sensor_worker_def assms(2) sensor_cycle_def poll_init_def split_beta del: upt_Suc)

theorem sensor_backoff_doubles_witness:
  "fst (sensor_worker (\<lambda>s. (Inr (), s)) (\<lambda>s _. (Failed ''down'', s)) (\<lambda>_ s. (Inl ''timeout'', s)) demo_sensor
     [False, False, True] ()) = [2, 4, 8]"
proof -
  have "fst (sensor_worker (\<lambda>s. (Inr (), s)) (\<lambda>s _. (Failed ''down'', s)) (\<lambda>_ s. (Inl ''timeout'', s)) demo_sensor
      (replicate 2 False @ [True]) ()) = map (\<lambda>i. min (poll_interval (sn_poll_interval_s demo_sensor)) (min (2 * 2 ^ i) 60)) [0..<Suc 2]"
    by (rule sensor_backoff_doubles) auto
  moreover have "sn_poll_interval_s demo_sensor = 300" by code_simp
  ultimately show ?thesis by (simp add: numeral_2_eq_2 poll_interval_def upt_rec)
qed

section \<open>Events on transitions only\<close>

text \<open>\<open>obs\<close> reads the transitions recorded so far off the world: \<open>True\<close> a connect, \<open>False\<close> an error.\<close>

definition poll_marks :: "('s \<Rightarrow> bool list) \<Rightarrow> bool list \<Rightarrow> poll_state \<Rightarrow> 's \<Rightarrow> bool" where
  "poll_marks obs old st s \<longleftrightarrow>
     (\<exists>evs. obs s = old @ evs \<and> successively (\<noteq>) evs \<and>
        (if evs = [] then \<not> po_reported st \<and> \<not> po_up st else po_reported st \<and> last evs = po_up st))"

lemma poll_marks_append:
  assumes "poll_marks obs old st s" and "obs s' = obs s @ [b]" and "po_reported st \<Longrightarrow> po_up st \<noteq> b"
  shows "poll_marks obs old \<lparr>po_up = b, po_reported = True, po_backoff = k\<rparr> s'"
proof -
  obtain evs where e: "obs s = old @ evs" "successively (\<noteq>) evs"
    "if evs = [] then \<not> po_reported st \<and> \<not> po_up st else po_reported st \<and> last evs = po_up st"
    using assms(1) by (auto simp: poll_marks_def)
  have "successively (\<noteq>) (evs @ [b])"
    using e assms(3) by (auto simp: successively_append_iff)
  then show ?thesis using e(1) assms(2) by (auto simp: poll_marks_def intro!: exI [of _ "evs @ [b]"])
qed

lemma poll_marks_same:
  "poll_marks obs old st s \<Longrightarrow> obs s' = obs s \<Longrightarrow> po_reported st' = po_reported st \<Longrightarrow> po_up st' = po_up st \<Longrightarrow>
   poll_marks obs old st' s'"
  by (simp only: poll_marks_def)

lemma poll_cycle_marks:
  assumes get: "\<And>s r s'. get s = (r, s') \<Longrightarrow> obs s' = obs s"
    and report: "\<And>e s r s'. report e s = (r, s') \<Longrightarrow> obs s' = obs s @ [False]"
    and store: "\<And>x s r s'. store x s = (r, s') \<Longrightarrow> obs s' = obs s"
    and announce: "\<And>s r s'. announce s = (r, s') \<Longrightarrow> r = Inr () \<and> obs s' = obs s @ [True]"
    and st: "poll_marks obs old st s"
    and cyc: "poll_cycle base cap interval get report store announce st s = ((w, st'), s')"
  shows "poll_marks obs old st' s'"
proof -
  obtain r s1 where g: "get s = (r, s1)" by (rule prod.exhaust)
  have s1: "poll_marks obs old st s1" by (rule poll_marks_same [OF st get [OF g] refl refl])
  show ?thesis
  proof (cases r)
    case (Inl e)
    obtain q s2 where q: "report e s1 = (q, s2)" by (rule prod.exhaust)
    show ?thesis
    proof (cases "po_up st \<or> \<not> po_reported st")
      case True
      then have "po_reported st \<Longrightarrow> po_up st \<noteq> False" by blast
      note m = poll_marks_append [OF s1 report [OF q] this]
      have "st' = \<lparr>po_up = False, po_reported = True, po_backoff = min (po_backoff st * 2) cap\<rparr> \<and> s' = s2"
        using cyc True by (simp add: poll_cycle_def g Inl poll_failed_def Let_def q)
      then show ?thesis using m by simp
    next
      case False
      then have "st' = \<lparr>po_up = False, po_reported = True, po_backoff = min (po_backoff st * 2) cap\<rparr> \<and> s' = s1"
        using cyc by (simp add: poll_cycle_def g Inl poll_failed_def Let_def)
      then show ?thesis using poll_marks_same [OF s1 refl, of st'] False by simp
    qed
  next
    case (Inr x)
    obtain q s2 where q: "store x s1 = (q, s2)" by (rule prod.exhaust)
    have s2: "poll_marks obs old st s2" by (rule poll_marks_same [OF s1 store [OF q] refl refl])
    show ?thesis
    proof (cases q)
      case (Inl e)
      then have "st' = st \<and> s' = s2" using cyc by (simp add: poll_cycle_def g Inr poll_got_def q)
      then show ?thesis using s2 by simp
    next
      case stored: (Inr u)
      let ?up = "\<lparr>po_up = True, po_reported = True, po_backoff = base\<rparr>"
      show ?thesis
      proof (cases "po_up st")
        case True
        then have "po_reported st" using s2 by (auto simp: poll_marks_def split: if_splits)
        moreover have "st' = ?up \<and> s' = s2"
          using cyc True by (simp add: poll_cycle_def g Inr poll_got_def q stored)
        ultimately show ?thesis using True poll_marks_same [OF s2 refl, of ?up] by simp
      next
        case False
        obtain a s3 where a: "announce s2 = (a, s3)" by (rule prod.exhaust)
        have "st' = ?up \<and> s' = s3"
          using cyc False announce [OF a] by (simp add: poll_cycle_def g Inr poll_got_def q stored a)
        moreover have "poll_marks obs old ?up s3"
          by (rule poll_marks_append [OF s2]) (use announce [OF a] False in simp_all)
        ultimately show ?thesis by simp
      qed
    qed
  qed
qed


text \<open>A connection that keeps only the events: the level of each, \<open>True\<close> for ''info''.\<close>

definition event_log_conn :: "bool list conn" where
  "event_log_conn log stmt =
     (case stmt of
        Insert _ t _ vals _ \<Rightarrow> (Done 1 1, if t = ''events'' then log @ [vals ! 3 = VStr ''info''] else log)
      | _ \<Rightarrow> (Done 0 0, log))"


section \<open>Waking up on schedule\<close>

lemma parse_hhmm_range: "parse_hhmm s = (h, m) \<Longrightarrow> 0 \<le> h \<and> h < 24 \<and> 0 \<le> m \<and> m < 60"
  by (auto simp: parse_hhmm_def split: option.splits prod.splits if_splits)

definition schedule_due :: "zoneinfo \<Rightarrow> string \<Rightarrow> ExportTargetRow \<Rightarrow> int \<Rightarrow> bool" where
  "schedule_due zi tz cur t \<longleftrightarrow>
     (let lt = local_tm zi t tz
      in at_clock lt (fst (parse_hhmm (et_schedule_time cur))) (snd (parse_hhmm (et_schedule_time cur))) \<and>
        (et_schedule cur = ''weekly'' \<longrightarrow>
           tm_wday lt = max 0 (min 6 (case et_schedule_day cur of None \<Rightarrow> 0 | Some d \<Rightarrow> d))) \<and>
        (et_schedule cur = ''monthly'' \<longrightarrow>
           tm_mday lt = run_day (case et_schedule_day cur of None \<Rightarrow> 1 | Some d \<Rightarrow> d) (month_index lt)))"

lemma next_run_due:
  assumes z: "steady zi tz k"
  shows "now < next_run zi tz cur now \<and> next_run zi tz cur now \<le> now + 5356800 \<and>
    schedule_due zi tz cur (next_run zi tz cur now) \<and>
    (\<forall>t. now < t \<and> t < next_run zi tz cur now \<longrightarrow> \<not> schedule_due zi tz cur t)"
proof -
  obtain h m where hm: "parse_hhmm (et_schedule_time cur) = (h, m)" by fastforce
  then have c: "0 \<le> h" "h < 24" "0 \<le> m" "m < 60" using parse_hhmm_range by blast+
  consider "et_schedule cur = ''weekly''" | "et_schedule cur = ''monthly''"
    | "et_schedule cur \<noteq> ''weekly''" "et_schedule cur \<noteq> ''monthly''" by blast
  then show ?thesis
  proof cases
    case 1
    show ?thesis
      using next_weekly [OF z c, of "case et_schedule_day cur of None \<Rightarrow> 0 | Some d \<Rightarrow> d" now]
      by (auto simp: next_run_def schedule_due_def hm 1 Let_def)
  next
    case 2
    show ?thesis
      using next_monthly [OF z c, of "case et_schedule_day cur of None \<Rightarrow> 1 | Some d \<Rightarrow> d" now]
      by (auto simp: next_run_def schedule_due_def hm 2 Let_def)
  next
    case 3
    show ?thesis
      using next_daily [OF z c, of now] by (auto simp: next_run_def schedule_due_def hm 3 Let_def)
  qed
qed



lemma export_worker_waits:
  "\<forall>w\<in>set (fst (snd (export_worker opn c sv t stops s))). 1 \<le> w"
proof -
  have pos: "1 \<le> export_wait zi tz cur now" for zi tz cur now
    by (auto simp: export_wait_def at_least_1_def split: option.split)
  have "\<forall>w\<in>set (fst (snd (export_loop c sv tz i stops s))). 1 \<le> w" for tz i s
    by (induction c sv tz i stops s rule: export_loop.induct)
      (auto simp: pos Let_def split: prod.splits sum.splits option.splits)
  then show ?thesis
    by (auto simp: export_worker_def split: prod.splits sum.splits option.splits)
qed

text \<open>
  A failure of the query that reloads the target is not caught in the worker: it ends the thread,
  and so the process, although the same failure inside the export is only logged.
\<close>

lemma reload_failure_crashes:
  "find_export_target c i s = (Inl e, s') \<Longrightarrow> export_loop c sv tz i (stop # stops) s = (Crashed e, [], s')"
  by simp

lemma export_act_never_fails: "is_ok (fst (export_act c sv cur i s))"
  by (simp add: export_act_def db_catch_def db_ret_def split: prod.split sum.split)

end
