(* ===== verification/NW_Threads.thy ===== *)
theory NW_Threads imports NW_Sched begin

text \<open>
  The threads behind the three schedulers (\<^verbatim>\<open>src/daemon/scheduler.cpp\<close>,
  \<^verbatim>\<open>src/weather/weather_scheduler.cpp\<close>, \<^verbatim>\<open>src/export/export_scheduler.cpp\<close>): \<^verbatim>\<open>stop\<close> and \<^verbatim>\<open>join\<close> of the
  thread that owns a scheduler, and the wait between two cycles of each worker, with the mutex, the stop
  flag and the condition variable they share. A step is one action of one thread; a cycle of a
  worker is one step here, what it does is in \<open>NW_Sched\<close>. The waits are those of the C++ library:
  \<^verbatim>\<open>wait_for\<close> releases the mutex and sleeps in one step, may wake up for no reason, and
  evaluates its predicate with the mutex held, after a timeout as well.
\<close>

section \<open>Threads\<close>

text \<open>
  A worker is in a cycle, about to lock the mutex, holding it to look at the flag, asleep, awake and
  about to lock again, holding the mutex again, or its function has returned. The booleans tell
  whether it was the timeout that woke it up.
\<close>

datatype worker = Cycling | Entering | Checking | Sleeping | Waking bool | Rechecking bool | Ended

text \<open>The owner: before \<^verbatim>\<open>stop\<close>, at its \<^verbatim>\<open>lock_guard\<close>, inside it, at \<^verbatim>\<open>notify_all\<close>, at the join of a thread, done.\<close>

datatype owner = Serving | Requesting | Setting | Notifying | Joining nat | Joined

datatype holder = Owner | Worker nat

record crew =
  cr_stop :: bool
  cr_mutex :: "holder option"
  cr_owner :: owner
  cr_workers :: "worker list"

definition crew_init :: "nat \<Rightarrow> crew" where
  "crew_init n = \<lparr>cr_stop = False, cr_mutex = None, cr_owner = Serving, cr_workers = replicate n Cycling\<rparr>"

text \<open>The threads that \<^verbatim>\<open>start\<close> makes, and their number (\<^verbatim>\<open>worker_count\<close>).\<close>

definition sensor_crew :: "SensorRow list \<Rightarrow> crew" where "sensor_crew sns = crew_init (length (scheduler_start sns))"
definition weather_crew :: "WeatherStationRow list \<Rightarrow> crew" where "weather_crew wss = crew_init (length (weather_start wss))"
definition export_crew :: "ExportTargetRow list \<Rightarrow> crew" where "export_crew ts = crew_init (length (export_start ts))"

definition worker_count :: "crew \<Rightarrow> int" where "worker_count s = int (length (cr_workers s))"

text \<open>What \<^verbatim>\<open>wait_for\<close> does with the mutex in hand: leave the loop, start a cycle, or sleep (again).\<close>

definition after_check :: "bool \<Rightarrow> bool \<Rightarrow> worker" where
  "after_check stop timed_out = (if stop then Ended else if timed_out then Cycling else Sleeping)"

text \<open>One action of worker \<open>i\<close>; \<open>None\<close> when it has to wait for something.\<close>

definition worker_turn :: "nat \<Rightarrow> crew \<Rightarrow> crew option" where
  "worker_turn i s =
     (case cr_workers s ! i of
        Cycling \<Rightarrow> Some (s\<lparr>cr_workers := (cr_workers s)[i := Entering]\<rparr>)
      | Entering \<Rightarrow>
          if cr_mutex s \<noteq> None then None
          else Some (s\<lparr>cr_mutex := Some (Worker i), cr_workers := (cr_workers s)[i := Checking]\<rparr>)
      | Checking \<Rightarrow> Some (s\<lparr>cr_mutex := None, cr_workers := (cr_workers s)[i := after_check (cr_stop s) False]\<rparr>)
      | Sleeping \<Rightarrow> None
      | Waking b \<Rightarrow>
          if cr_mutex s \<noteq> None then None
          else Some (s\<lparr>cr_mutex := Some (Worker i), cr_workers := (cr_workers s)[i := Rechecking b]\<rparr>)
      | Rechecking b \<Rightarrow> Some (s\<lparr>cr_mutex := None, cr_workers := (cr_workers s)[i := after_check (cr_stop s) b]\<rparr>)
      | Ended \<Rightarrow> None)"

text \<open>\<^verbatim>\<open>notify_all\<close> wakes everyone who sleeps at that moment, and nobody else.\<close>

definition notify_all :: "worker list \<Rightarrow> worker list" where
  "notify_all ws = map (\<lambda>w. if w = Sleeping then Waking False else w) ws"

definition owner_turn :: "crew \<Rightarrow> crew option" where
  "owner_turn s =
     (case cr_owner s of
        Serving \<Rightarrow> Some (s\<lparr>cr_owner := Requesting\<rparr>)
      | Requesting \<Rightarrow>
          if cr_mutex s \<noteq> None then None else Some (s\<lparr>cr_mutex := Some Owner, cr_owner := Setting\<rparr>)
      | Setting \<Rightarrow> Some (s\<lparr>cr_stop := True, cr_mutex := None, cr_owner := Notifying\<rparr>)
      | Notifying \<Rightarrow> Some (s\<lparr>cr_workers := notify_all (cr_workers s), cr_owner := Joining 0\<rparr>)
      | Joining k \<Rightarrow>
          if k < length (cr_workers s)
          then (if cr_workers s ! k = Ended then Some (s\<lparr>cr_owner := Joining (Suc k)\<rparr>) else None)
          else Some (s\<lparr>cr_workers := [], cr_owner := Joined\<rparr>)
      | Joined \<Rightarrow> None)"

text \<open>
  The actions: the owner goes on, a worker goes on, a worker returns from its function (no connection,
  a bad configuration, an export target that is gone), a sleeper times out, a sleeper wakes up for
  no reason.
\<close>

datatype action = Control | Turn nat | Return nat | Timeout nat | Spurious nat

definition set_worker :: "nat \<Rightarrow> worker \<Rightarrow> worker \<Rightarrow> crew \<Rightarrow> crew option" where
  "set_worker i w w' s = (if cr_workers s ! i = w then Some (s\<lparr>cr_workers := (cr_workers s)[i := w']\<rparr>) else None)"

definition crew_step :: "action \<Rightarrow> crew \<Rightarrow> crew option" where
  "crew_step a s =
     (let n = length (cr_workers s)
      in case a of
           Control \<Rightarrow> owner_turn s
         | Turn i \<Rightarrow> if i < n then worker_turn i s else None
         | Return i \<Rightarrow> if i < n then set_worker i Cycling Ended s else None
         | Timeout i \<Rightarrow> if i < n then set_worker i Sleeping (Waking True) s else None
         | Spurious i \<Rightarrow> if i < n then set_worker i Sleeping (Waking False) s else None)"

fun crew_acts :: "action list \<Rightarrow> crew \<Rightarrow> crew option" where
  "crew_acts [] s = Some s"
| "crew_acts (a # as) s = Option.bind (crew_step a s) (crew_acts as)"

inductive crew_reach :: "nat \<Rightarrow> crew \<Rightarrow> bool" for n where
  init: "crew_reach n (crew_init n)"
| step: "crew_reach n s \<Longrightarrow> crew_step a s = Some s' \<Longrightarrow> crew_reach n s'"

section \<open>The invariant\<close>

definition holds_lock :: "worker \<Rightarrow> bool" where
  "holds_lock w = (case w of Checking \<Rightarrow> True | Rechecking _ \<Rightarrow> True | _ \<Rightarrow> False)"

definition stopping :: "owner \<Rightarrow> bool" where
  "stopping m = (case m of Notifying \<Rightarrow> True | Joining _ \<Rightarrow> True | Joined \<Rightarrow> True | _ \<Rightarrow> False)"

definition told :: "owner \<Rightarrow> bool" where
  "told m = (case m of Joining _ \<Rightarrow> True | Joined \<Rightarrow> True | _ \<Rightarrow> False)"

text \<open>
  The mutex is held by exactly the thread that is inside its critical section; the flag is set from
  \<^verbatim>\<open>notify_all\<close> on; nobody sleeps once everybody has been told; the threads joined so far have ended.
\<close>

definition crew_ok :: "crew \<Rightarrow> bool" where
  "crew_ok s \<longleftrightarrow>
     (\<forall>i < length (cr_workers s). holds_lock (cr_workers s ! i) \<longleftrightarrow> cr_mutex s = Some (Worker i)) \<and>
     (\<forall>i. cr_mutex s = Some (Worker i) \<longrightarrow> i < length (cr_workers s)) \<and>
     (cr_mutex s = Some Owner \<longleftrightarrow> cr_owner s = Setting) \<and>
     cr_stop s = stopping (cr_owner s) \<and>
     (told (cr_owner s) \<longrightarrow> Sleeping \<notin> set (cr_workers s)) \<and>
     (\<forall>k. cr_owner s = Joining k \<longrightarrow> k \<le> length (cr_workers s) \<and> (\<forall>i<k. cr_workers s ! i = Ended)) \<and>
     (cr_owner s = Joined \<longrightarrow> cr_workers s = [])"

lemmas crew_defs = crew_step_def worker_turn_def owner_turn_def set_worker_def after_check_def Let_def

lemma crew_ok_init: "crew_ok (crew_init n)"
  by (simp add: crew_ok_def crew_init_def holds_lock_def stopping_def told_def)

lemma told_stopping: "told m \<Longrightarrow> stopping m" by (cases m) (simp_all add: told_def stopping_def)

lemma not_asleep_update: "Sleeping \<notin> set ws \<Longrightarrow> w \<noteq> Sleeping \<Longrightarrow> Sleeping \<notin> set (ws[i := w])"
  using set_update_subset_insert [of ws i w] by blast

text \<open>A worker that changes its place outside the critical section.\<close>

lemma crew_ok_move:
  assumes "crew_ok s" and "i < length (cr_workers s)" and "\<not> holds_lock (cr_workers s ! i)" and "cr_workers s ! i \<noteq> Ended"
    and "\<not> holds_lock w" and "w \<noteq> Sleeping"
  shows "crew_ok (s\<lparr>cr_workers := (cr_workers s)[i := w]\<rparr>)"
  using assms by (auto simp: crew_ok_def nth_list_update not_asleep_update)

text \<open>A worker that takes the free mutex, and one that gives it back.\<close>

lemma crew_ok_take:
  assumes "crew_ok s" and "i < length (cr_workers s)" and "cr_mutex s = None" and "cr_workers s ! i \<noteq> Ended" and "holds_lock w"
  shows "crew_ok (s\<lparr>cr_mutex := Some (Worker i), cr_workers := (cr_workers s)[i := w]\<rparr>)"
proof -
  have "w \<noteq> Sleeping" using assms(5) by (auto simp: holds_lock_def)
  then show ?thesis using assms by (auto simp: crew_ok_def nth_list_update not_asleep_update)
qed

lemma crew_ok_give:
  assumes "crew_ok s" and "i < length (cr_workers s)" and "holds_lock (cr_workers s ! i)"
    and "\<not> holds_lock w" and "w = Sleeping \<Longrightarrow> \<not> cr_stop s"
  shows "crew_ok (s\<lparr>cr_mutex := None, cr_workers := (cr_workers s)[i := w]\<rparr>)"
proof -
  have m: "cr_mutex s = Some (Worker i)" using assms(1-3) by (simp add: crew_ok_def)
  have e: "cr_workers s ! i \<noteq> Ended" using assms(3) by (auto simp: holds_lock_def)
  have "told (cr_owner s) \<Longrightarrow> w \<noteq> Sleeping"
    using assms(1,5) told_stopping by (auto simp: crew_ok_def)
  moreover have "cr_workers s \<noteq> []" using assms(2) by auto
  ultimately show ?thesis using assms(1,2,4) m e by (auto simp: crew_ok_def nth_list_update not_asleep_update)
qed

lemma crew_ok_owner:
  assumes ok: "crew_ok s" and step: "owner_turn s = Some s'"
  shows "crew_ok s'"
proof (cases "cr_owner s")
  case Notifying
  have "holds_lock (notify_all ws ! i) = holds_lock (ws ! i)" if "i < length ws" for ws i
    using that by (simp add: notify_all_def holds_lock_def)
  moreover have "Sleeping \<notin> set (notify_all ws)" for ws by (auto simp: notify_all_def)
  moreover have "length (notify_all ws) = length ws" for ws by (simp add: notify_all_def)
  ultimately show ?thesis
    using ok step Notifying by (auto simp: crew_ok_def owner_turn_def stopping_def)
next
  case (Joining k)
  show ?thesis
  proof (cases "k < length (cr_workers s)")
    case True
    then show ?thesis
      using ok step Joining by (auto simp: crew_ok_def owner_turn_def stopping_def told_def less_Suc_eq split: if_splits)
  next
    case False
    have "\<not> holds_lock Ended" by (simp add: holds_lock_def)
    then have "cr_mutex s = None"
      using ok Joining False by (cases "cr_mutex s"; cases "the (cr_mutex s)") (auto simp: crew_ok_def)
    then show ?thesis using ok step Joining False by (auto simp: crew_ok_def owner_turn_def stopping_def)
  qed
qed (use ok step in \<open>auto simp: crew_ok_def owner_turn_def stopping_def told_def split: if_splits\<close>)

lemma crew_ok_step:
  assumes ok: "crew_ok s" and step: "crew_step a s = Some s'"
  shows "crew_ok s'"
proof (cases a)
  case Control
  then show ?thesis using crew_ok_owner [OF ok] step by (simp add: crew_step_def)
next
  case (Turn i)
  then have i: "i < length (cr_workers s)" and t: "worker_turn i s = Some s'"
    using step by (auto simp: crew_step_def Let_def split: if_splits)
  show ?thesis
    using t ok i
    by (cases "cr_workers s ! i")
      (auto simp: worker_turn_def holds_lock_def after_check_def split: if_splits
        intro!: crew_ok_move crew_ok_take crew_ok_give)
qed (use ok step in \<open>auto simp: crew_step_def set_worker_def Let_def holds_lock_def split: if_splits intro!: crew_ok_move\<close>)

lemma crew_reach_ok: "crew_reach n s \<Longrightarrow> crew_ok s"
  by (induction rule: crew_reach.induct) (auto intro: crew_ok_init crew_ok_step)

section \<open>What is left to do\<close>

text \<open>The actions a thread has left once the flag is set.\<close>

definition turns_to_end :: "worker \<Rightarrow> nat" where
  "turns_to_end w =
     (case w of Cycling \<Rightarrow> 3 | Sleeping \<Rightarrow> 3 | Entering \<Rightarrow> 2 | Waking _ \<Rightarrow> 2 | Checking \<Rightarrow> 1 | Rechecking _ \<Rightarrow> 1 | Ended \<Rightarrow> 0)"

definition owner_left :: "nat \<Rightarrow> owner \<Rightarrow> nat" where
  "owner_left n m = (case m of Joined \<Rightarrow> 0 | Joining k \<Rightarrow> Suc (n - k) | _ \<Rightarrow> n + 2)"

definition crew_left :: "crew \<Rightarrow> nat" where
  "crew_left s = sum_list (map turns_to_end (cr_workers s)) + owner_left (length (cr_workers s)) (cr_owner s)"

lemma turns_simps [simp]:
  "turns_to_end Cycling = 3" "turns_to_end Sleeping = 3" "turns_to_end Entering = 2" "turns_to_end (Waking b) = 2"
  "turns_to_end Checking = 1" "turns_to_end (Rechecking b) = 1" "turns_to_end Ended = 0"
  by (simp_all add: turns_to_end_def)

lemma sum_turns_update:
  "i < length ws \<Longrightarrow> turns_to_end w < turns_to_end (ws ! i) \<Longrightarrow>
     sum_list (map turns_to_end (ws[i := w])) < sum_list (map turns_to_end ws)"
  by (induction ws arbitrary: i) (auto split: nat.splits)

lemma sum_turns_notify: "sum_list (map turns_to_end (notify_all ws)) \<le> sum_list (map turns_to_end ws)"
  by (induction ws) (auto simp: notify_all_def)

lemma crew_left_step:
  assumes ok: "crew_ok s" and stop: "cr_stop s" and step: "crew_step a s = Some s'"
  shows "crew_left s' < crew_left s \<and> cr_stop s'"
proof -
  have moved: "crew_left s' < crew_left s"
    if "i < length (cr_workers s)" "cr_workers s' = (cr_workers s)[i := w]" "cr_owner s' = cr_owner s"
      "turns_to_end w < turns_to_end (cr_workers s ! i)" for i w
    using sum_turns_update [OF that(1,4)] that(2,3) by (simp add: crew_left_def)
  show ?thesis
  proof (cases a)
    case Control
    have m: "stopping (cr_owner s)" using ok stop by (simp add: crew_ok_def)
    show ?thesis
    proof (cases "cr_owner s")
      case Notifying
      then show ?thesis
        using step stop sum_turns_notify [of "cr_workers s"]
        by (auto simp: Control crew_step_def owner_turn_def crew_left_def owner_left_def notify_all_def)
    next
      case (Joining k)
      then show ?thesis
        using step stop by (auto simp: Control crew_step_def owner_turn_def crew_left_def owner_left_def split: if_splits)
    qed (use m step in \<open>auto simp: Control crew_step_def owner_turn_def stopping_def\<close>)
  next
    case (Turn i)
    then have i: "i < length (cr_workers s)" and t: "worker_turn i s = Some s'"
      using step by (auto simp: crew_step_def Let_def split: if_splits)
    obtain w where w: "cr_workers s' = (cr_workers s)[i := w]" "turns_to_end w < turns_to_end (cr_workers s ! i)"
      using t stop by (cases "cr_workers s ! i") (auto simp: worker_turn_def after_check_def split: if_splits)
    have "cr_owner s' = cr_owner s \<and> cr_stop s' = cr_stop s"
      using t by (auto simp: worker_turn_def split: worker.splits if_splits)
    then show ?thesis using moved [OF i w(1) _ w(2)] stop by blast
  next
    case (Return i)
    then show ?thesis using step stop moved [of i Ended]
      by (auto simp: crew_step_def set_worker_def Let_def split: if_splits)
  next
    case (Timeout i)
    then show ?thesis using step stop moved [of i "Waking True"]
      by (auto simp: crew_step_def set_worker_def Let_def split: if_splits)
  next
    case (Spurious i)
    then show ?thesis using step stop moved [of i "Waking False"]
      by (auto simp: crew_step_def set_worker_def Let_def split: if_splits)
  qed
qed

lemma crew_acts_left:
  "crew_ok s \<Longrightarrow> cr_stop s \<Longrightarrow> crew_acts as s = Some s' \<Longrightarrow> length as + crew_left s' \<le> crew_left s \<and> crew_ok s' \<and> cr_stop s'"
proof (induction as arbitrary: s)
  case (Cons a as)
  then obtain s1 where s1: "crew_step a s = Some s1" "crew_acts as s1 = Some s'" by (auto split: bind_splits)
  then show ?case
    using Cons.IH [of s1] crew_left_step [OF Cons.prems(1,2) s1(1)] crew_ok_step [OF Cons.prems(1) s1(1)] by fastforce
qed simp

text \<open>Somebody can always go on, whoever holds the mutex, until the owner has joined everybody.\<close>

lemma crew_goes_on:
  assumes ok: "crew_ok s" and m: "cr_owner s \<noteq> Joined"
  shows "\<exists>a. crew_step a s \<noteq> None"
proof -
  have turn: "\<exists>a. crew_step a s \<noteq> None" if "i < length (cr_workers s)" "worker_turn i s \<noteq> None" for i
    using that by (intro exI [of _ "Turn i"]) (simp add: crew_step_def)
  have control: "\<exists>a. crew_step a s \<noteq> None" if "owner_turn s \<noteq> None"
    using that by (intro exI [of _ Control]) (simp add: crew_step_def)
  show ?thesis
  proof (cases "cr_mutex s")
    case (Some h)
    show ?thesis
    proof (cases h)
      case Owner
      then have "cr_owner s = Setting" using ok Some by (simp add: crew_ok_def)
      then show ?thesis by (intro control) (simp add: owner_turn_def)
    next
      case (Worker i)
      then have "i < length (cr_workers s)" "holds_lock (cr_workers s ! i)" using ok Some by (auto simp: crew_ok_def)
      then show ?thesis by (intro turn) (auto simp: worker_turn_def holds_lock_def split: worker.splits)
    qed
  next
    case None
    show ?thesis
    proof (cases "\<exists>k. cr_owner s = Joining k \<and> k < length (cr_workers s) \<and> cr_workers s ! k \<noteq> Ended")
      case True
      then obtain k where k: "cr_owner s = Joining k" "k < length (cr_workers s)" "cr_workers s ! k \<noteq> Ended" by blast
      then have "Sleeping \<notin> set (cr_workers s)" using ok by (simp add: crew_ok_def told_def)
      then have "cr_workers s ! k \<noteq> Sleeping" using nth_mem [OF k(2)] by metis
      then show ?thesis using None k by (intro turn [of k]) (auto simp: worker_turn_def split: worker.splits)
    next
      case False
      moreover have "cr_owner s \<noteq> Setting" using ok None by (simp add: crew_ok_def)
      ultimately show ?thesis using None m by (intro control) (auto simp: owner_turn_def split: owner.splits)
    qed
  qed
qed

text \<open>The owner is past its joins only when all threads have ended.\<close>

lemma joined_all_ended:
  assumes "crew_reach n s" and "crew_step a s = Some s'" and "cr_owner s \<noteq> Joined" and "cr_owner s' = Joined"
  shows "set (cr_workers s) \<subseteq> {Ended}"
proof -
  have ok: "crew_ok s" by (rule crew_reach_ok [OF assms(1)])
  have "a = Control"
    using assms(2-4) by (cases a) (auto simp: crew_step_def worker_turn_def set_worker_def Let_def split: worker.splits if_splits)
  then obtain k where k: "cr_owner s = Joining k" "\<not> k < length (cr_workers s)"
    using assms(2-4) by (cases "cr_owner s") (auto simp: crew_step_def owner_turn_def split: if_splits)
  then show ?thesis using ok by (auto simp: crew_ok_def in_set_conv_nth)
qed

lemma crew_reach_length: "crew_reach n s \<Longrightarrow> length (cr_workers s) \<le> n"
proof (induction rule: crew_reach.induct)
  case (step s a s')
  then show ?case
    by (cases a) (auto simp: crew_step_def worker_turn_def owner_turn_def set_worker_def notify_all_def Let_def
      split: worker.splits owner.splits if_splits)
qed (simp add: crew_init_def)

lemma crew_left_bound: "length (cr_workers s) \<le> n \<Longrightarrow> crew_left s \<le> 4 * n + 2"
proof -
  have sum: "sum_list (map turns_to_end ws) \<le> 3 * length ws" for ws
  proof (induction ws)
    case (Cons w ws)
    have "turns_to_end w \<le> 3" by (cases w) simp_all
    then show ?case using Cons by simp
  qed simp
  have left: "owner_left k m \<le> k + 2" for k m by (cases m) (simp_all add: owner_left_def)
  assume "length (cr_workers s) \<le> n"
  then show ?thesis
    using sum [of "cr_workers s"] left [of "length (cr_workers s)" "cr_owner s"] unfolding crew_left_def by linarith
qed

section \<open>One worker on its own\<close>

text \<open>
  The waits of worker \<open>i\<close> during a run, each with whether stop ended it. The loops of \<open>NW_Sched\<close> take
  such a list: any number of waits that ran out, then at most one that was ended by stop.
\<close>

fun wait_outcomes :: "nat \<Rightarrow> action list \<Rightarrow> crew \<Rightarrow> bool list" where
  "wait_outcomes i [] s = []"
| "wait_outcomes i (a # as) s =
     (case crew_step a s of
        None \<Rightarrow> []
      | Some s' \<Rightarrow>
          (if a = Turn i \<and> holds_lock (cr_workers s ! i) \<and> cr_workers s' ! i \<noteq> Sleeping then [cr_workers s' ! i = Ended] else []) @
          wait_outcomes i as s')"

lemma ended_stays:
  assumes "length (cr_workers s) \<le> i \<or> cr_workers s ! i = Ended" and "crew_step a s = Some s'"
  shows "length (cr_workers s') \<le> i \<or> cr_workers s' ! i = Ended"
  using assms
  by (cases a; cases "i < length (cr_workers s)") (auto simp: crew_step_def worker_turn_def owner_turn_def set_worker_def notify_all_def Let_def nth_list_update
      split: worker.splits owner.splits if_splits)

lemma no_wait_after_end: "length (cr_workers s) \<le> i \<or> cr_workers s ! i = Ended \<Longrightarrow> wait_outcomes i as s = []"
proof (induction as arbitrary: s)
  case (Cons a as)
  show ?case
  proof (cases "crew_step a s")
    case (Some s')
    have "\<not> (a = Turn i \<and> holds_lock (cr_workers s ! i))"
      using Cons.prems Some by (auto simp: crew_step_def holds_lock_def)
    then show ?thesis using Cons.IH [OF ended_stays [OF Cons.prems Some]] Some by auto
  qed simp
qed simp

lemma wait_outcomes_shape: "\<exists>k. wait_outcomes i as s \<in> {replicate k False, replicate k False @ [True]}"
proof (induction as arbitrary: s)
  case Nil
  show ?case by (intro exI [of _ 0]) simp
next
  case (Cons a as)
  show ?case
  proof (cases "crew_step a s")
    case None
    then show ?thesis by (intro exI [of _ 0]) simp
  next
    case (Some s')
    show ?thesis
    proof (cases "a = Turn i \<and> holds_lock (cr_workers s ! i) \<and> cr_workers s' ! i \<noteq> Sleeping")
      case False
      then have "wait_outcomes i (a # as) s = wait_outcomes i as s'" using Some by simp
      then show ?thesis using Cons.IH [of s'] by simp
    next
      case True
      then have w: "wait_outcomes i (a # as) s = (cr_workers s' ! i = Ended) # wait_outcomes i as s'" using Some by simp
      show ?thesis
      proof (cases "cr_workers s' ! i = Ended")
        case ended: True
        then have "wait_outcomes i (a # as) s = replicate 0 False @ [True]" using w no_wait_after_end [of s' i as] by simp
        then show ?thesis by blast
      next
        case False
        obtain k where "wait_outcomes i as s' \<in> {replicate k False, replicate k False @ [True]}" using Cons.IH by blast
        then show ?thesis using w False by (intro exI [of _ "Suc k"]) auto
      qed
    qed
  qed
qed

section \<open>Stopping always ends\<close>

text \<open>
  C13. Stopping a scheduler ends, whatever the order in which its threads run and however often they wake
  up. From the moment the flag is set at most four actions per worker and two of the owner are
  left; no wake-up is lost and nobody waits for anybody forever, since until the owner has joined all
  threads somebody can go on; and once nobody can, all threads are joined.
\<close>

theorem stop_terminates:
  assumes "crew_reach n s" and "cr_stop s" and "crew_acts as s = Some s'"
  shows "length as \<le> 4 * n + 2 \<and> ((\<nexists>a. crew_step a s' \<noteq> None) = (cr_owner s' = Joined))"
proof
  have ok: "crew_ok s" by (rule crew_reach_ok [OF assms(1)])
  note run = crew_acts_left [OF ok assms(2,3)]
  show "length as \<le> 4 * n + 2" using run crew_left_bound [OF crew_reach_length [OF assms(1)]] by linarith
  have "crew_step a s' = None" if "cr_owner s' = Joined" for a
    using run that by (cases a) (simp_all add: crew_ok_def crew_step_def owner_turn_def)
  moreover have "\<exists>a. crew_step a s' \<noteq> None" if "cr_owner s' \<noteq> Joined"
    using crew_goes_on that run by simp
  ultimately show "(\<nexists>a. crew_step a s' \<noteq> None) = (cr_owner s' = Joined)" by metis
qed

text \<open>One worker, asleep when the owner asks: it is told, finds the flag and ends.\<close>

theorem stop_terminates_witness:
  "\<exists>s s'. crew_acts [Turn 0, Turn 0, Turn 0, Control, Control, Control] (crew_init 1) = Some s \<and> cr_stop s \<and>
     crew_acts [Control, Turn 0, Turn 0, Control, Control] s = Some s' \<and>
     length [Control, Turn 0, Turn 0, Control, Control] \<le> 4 * (1 :: nat) + 2 \<and> (\<nexists>a. crew_step a s' \<noteq> None)"
proof -
  have reach: "crew_reach n s \<Longrightarrow> crew_acts as s = Some s' \<Longrightarrow> crew_reach n s'" for n as s s'
    by (induction as arbitrary: s) (auto split: bind_splits intro: crew_reach.step)
  let ?s = "\<lparr>cr_stop = True, cr_mutex = None, cr_owner = Notifying, cr_workers = [Sleeping]\<rparr>"
  let ?s' = "\<lparr>cr_stop = True, cr_mutex = None, cr_owner = Joined, cr_workers = []\<rparr>"
  have s: "crew_acts [Turn 0, Turn 0, Turn 0, Control, Control, Control] (crew_init 1) = Some ?s"
    by (simp add: crew_init_def crew_defs)
  have s': "crew_acts [Control, Turn 0, Turn 0, Control, Control] ?s = Some ?s'"
    by (simp add: crew_defs notify_all_def)
  have stop: "cr_stop ?s" and m: "cr_owner ?s' = Joined" by simp_all
  show ?thesis
    using stop_terminates [OF reach [OF crew_reach.init s] stop s'] s s' stop m by blast
qed

end
