(* ===== verification/NW_ApiJson.thy ===== *)
theory NW_ApiJson imports NW_Json NW_Protocol NW_Database NW_Dsn begin

text \<open>
  The data side of the HTTP API (\<^verbatim>\<open>src/api/http_server.cpp\<close>): what rows look like as JSON, which
  values of a configuration are hidden from clients and how an edited configuration is merged
  back, and how request bodies become the fields of a row.
\<close>

section \<open>Rows as JSON\<close>

abbreviation opt_d :: "double option \<Rightarrow> json" where "opt_d \<equiv> opt_json JFloat"
abbreviation opt_i :: "int option \<Rightarrow> json" where "opt_i \<equiv> opt_json JInt"

definition cal_json :: "Calibration \<Rightarrow> json" where
  "cal_json c = obj [(''light_cal_offset'', JFloat (cal_light_cal_offset c)),
     (''dark_cal_period_s'', JFloat (cal_dark_cal_period_s c)), (''temp_light_c'', JFloat (cal_temp_light_c c)),
     (''sensor_offset'', JFloat (cal_sensor_offset c)), (''temp_dark_c'', JFloat (cal_temp_dark_c c)),
     (''raw'', JStr (cal_raw c))]"

definition calstatus_json :: "CalStatus \<Rightarrow> json" where
  "calstatus_json s = obj [(''mode'', JStr [cs_mode s]), (''armed'', JBool (cs_armed s)),
     (''locked'', JBool (cs_locked s)), (''raw'', JStr (cs_raw s))]"

definition configlog_json :: "ConfigLogRow \<Rightarrow> json" where
  "configlog_json r = obj [(''id'', JInt (cl_id r)), (''ts_utc'', JStr (cl_ts_utc r)),
     (''event_type'', JStr (cl_event_type r)), (''light_cal_offset'', opt_d (cl_light_cal_offset r)),
     (''dark_cal_period_s'', opt_d (cl_dark_cal_period_s r)), (''temp_light_c'', opt_d (cl_temp_light_c r)),
     (''sensor_offset'', opt_d (cl_sensor_offset r)), (''temp_dark_c'', opt_d (cl_temp_dark_c r)),
     (''interval_s'', opt_i (cl_interval_s r)), (''threshold'', opt_d (cl_threshold r)),
     (''raw'', JStr (cl_raw r)), (''changed_by'', JStr (cl_changed_by r)), (''note'', JStr (cl_note r))]"

definition sensor_json :: "SensorRow \<Rightarrow> json" where
  "sensor_json s = obj [(''id'', JStr (sn_id s)), (''name'', JStr (sn_name s)), (''site'', JStr (sn_site s)),
     (''serial_number'', JStr (sn_serial_number s)), (''model'', JStr (sn_model s)),
     (''protocol_ver'', opt_i (sn_protocol_ver s)), (''feature_ver'', opt_i (sn_feature_ver s)),
     (''latitude'', opt_d (sn_latitude s)), (''longitude'', opt_d (sn_longitude s)),
     (''elevation_m'', opt_d (sn_elevation_m s)), (''timezone'', JStr (sn_timezone s)),
     (''transport'', JStr (sn_transport s)), (''address'', JStr (sn_address s)),
     (''poll_interval_s'', JInt (sn_poll_interval_s s)), (''status'', JStr (sn_status s)),
     (''installed_at'', JStr (sn_installed_at s)), (''notes'', JStr (sn_notes s)),
     (''created_at'', JStr (sn_created_at s))]"

definition reading_row_json :: "ReadingRow \<Rightarrow> json" where
  "reading_row_json r = obj [(''id'', JInt (rr_id r)), (''sensor_id'', JStr (rr_sensor_id r)),
     (''ts_utc'', JStr (rr_ts_utc r)), (''mag_arcsec2'', JFloat (rr_mag_arcsec2 r)), (''freq_hz'', JInt (rr_freq_hz r)),
     (''period_counts'', JInt (rr_period_counts r)), (''period_s'', JFloat (rr_period_s r)),
     (''temp_c'', JFloat (rr_temp_c r)), (''quality'', JStr (rr_quality r)), (''source'', JStr (rr_source r)),
     (''raw_line'', JStr (rr_raw_line r))]"

definition wx_reading_json :: "WeatherReadingRow \<Rightarrow> json" where
  "wx_reading_json r = obj [(''id'', JInt (wr_id r)), (''station_id'', JStr (wr_station_id r)),
     (''ts_utc'', JStr (wr_ts_utc r)), (''temp_c'', opt_d (wr_temp_c r)), (''humidity_pct'', opt_d (wr_humidity_pct r)),
     (''dew_point_c'', opt_d (wr_dew_point_c r)), (''pressure_hpa'', opt_d (wr_pressure_hpa r)),
     (''pressure_abs_hpa'', opt_d (wr_pressure_abs_hpa r)), (''wind_speed_ms'', opt_d (wr_wind_speed_ms r)),
     (''wind_gust_ms'', opt_d (wr_wind_gust_ms r)), (''wind_dir_deg'', opt_i (wr_wind_dir_deg r)),
     (''rain_rate_mmh'', opt_d (wr_rain_rate_mmh r)), (''rain_daily_mm'', opt_d (wr_rain_daily_mm r)),
     (''uv_index'', opt_d (wr_uv_index r)), (''solar_wm2'', opt_d (wr_solar_wm2 r)),
     (''cloud_cover_pct'', opt_d (wr_cloud_cover_pct r)), (''source'', JStr (wr_source r))]"

definition table_json :: "TableCount \<Rightarrow> json" where
  "table_json t = obj [(''table'', JStr (tc_table t)), (''present'', JBool (tc_present t)), (''rows'', JInt (tc_rows t))]"

definition event_json :: "EventRow \<Rightarrow> json" where
  "event_json e = obj [(''id'', JInt (ev_id e)), (''ts_utc'', JStr (ev_ts_utc e)), (''device_id'', JStr (ev_device_id e)),
     (''source'', JStr (ev_source e)), (''level'', JStr (ev_level e)), (''event'', JStr (ev_event e)),
     (''detail'', JStr (ev_detail e))]"

definition export_log_json :: "ExportLogRow \<Rightarrow> json" where
  "export_log_json l = obj [(''id'', JInt (el_id l)), (''target_id'', JStr (el_target_id l)), (''ts_utc'', JStr (el_ts_utc l)),
     (''from_ts'', JStr (el_from_ts l)), (''to_ts'', JStr (el_to_ts l)), (''row_count'', JInt (el_row_count l)),
     (''file_name'', JStr (el_file_name l)), (''remote_id'', JStr (el_remote_id l)), (''status'', JStr (el_status l)),
     (''detail'', JStr (el_detail l))]"

definition kExtensionActiveMaxAgeS :: int where "kExtensionActiveMaxAgeS = 180"

definition extension_active :: "ExtensionRow \<Rightarrow> bool" where
  "extension_active e \<longleftrightarrow> ex_status e = ''active'' \<and> 0 \<le> ex_heartbeat_age_s e \<and>
     ex_heartbeat_age_s e \<le> kExtensionActiveMaxAgeS"

definition extension_json :: "ExtensionRow \<Rightarrow> json" where
  "extension_json e = obj [(''name'', JStr (ex_name e)), (''label'', JStr (ex_label e)), (''version'', JStr (ex_version e)),
     (''data_table'', JStr (ex_data_table e)), (''host'', JStr (ex_host e)), (''pid'', opt_i (ex_pid e)),
     (''status'', JStr (ex_status e)), (''last_heartbeat'', JStr (ex_last_heartbeat e)),
     (''started_at'', JStr (ex_started_at e)), (''heartbeat_age_s'', JInt (ex_heartbeat_age_s e)),
     (''active'', JBool (extension_active e))]"

section \<open>Configurations and their secrets\<close>

definition contains_str :: "string \<Rightarrow> string \<Rightarrow> bool" where
  "contains_str t s \<longleftrightarrow> find_str t s \<noteq> None"

definition is_secret_key :: "string \<Rightarrow> bool" where
  "is_secret_key k =
     (let lk = map tolower k
      in contains_str ''key'' lk \<or> contains_str ''secret'' lk \<or> contains_str ''password'' lk \<or> contains_str ''token'' lk)"

definition masked :: string where "masked = ''***''"

definition nonblank :: "json \<Rightarrow> bool" where
  "nonblank v = (case v of JStr s \<Rightarrow> s \<noteq> [] | _ \<Rightarrow> False)"

text \<open>\<^verbatim>\<open>mask_config_json\<close> and, for the members of an object, the body of its loop.\<close>

fun mask_config_json :: "json \<Rightarrow> json" and mask_items :: "json_obj \<Rightarrow> json_obj" where
  "mask_config_json (JObj m) = JObj (mask_items m)"
| "mask_config_json c = c"
| "mask_items [] = []"
| "mask_items ((k, v) # m) =
     obj_put k (if is_object v then mask_config_json v
                else if is_secret_key k \<and> nonblank v then JStr masked else v) (mask_items m)"

definition mask_config :: "json_parser \<Rightarrow> string \<Rightarrow> json" where
  "mask_config parse config_json =
     (if config_json = [] then JObj []
      else case parse config_json of
          Inl _ \<Rightarrow> JObj []
        | Inr c \<Rightarrow> if is_object c then mask_config_json c else JObj [])"

definition object_or_empty :: "json \<Rightarrow> json" where
  "object_or_empty j = (if is_object j then j else JObj [])"

text \<open>\<^verbatim>\<open>merge_config_json\<close>, again with its loop over the members of the incoming object.\<close>

fun merge_config_json :: "json \<Rightarrow> json \<Rightarrow> json" and merge_items :: "json \<Rightarrow> json_obj \<Rightarrow> json" where
  "merge_config_json existing (JObj m) = merge_items (object_or_empty existing) m"
| "merge_config_json existing _ = object_or_empty existing"
| "merge_items e [] = e"
| "merge_items e ((k, v) # m) =
     merge_items
       (if is_object v then put k (merge_config_json (case member e k of Some x \<Rightarrow> x | None \<Rightarrow> JObj []) v) e
        else if is_secret_key k \<and> (v = JStr [] \<or> v = JStr masked) then e
        else put k v e) m"

definition merge_config :: "json_parser \<Rightarrow> json_printer \<Rightarrow> string \<Rightarrow> json \<Rightarrow> string" where
  "merge_config parse dump existing_json incoming =
     dump (merge_config_json
       (if existing_json = [] then JObj []
        else case parse existing_json of Inl _ \<Rightarrow> JObj [] | Inr c \<Rightarrow> object_or_empty c) incoming)"

definition weather_json :: "json_parser \<Rightarrow> WeatherStationRow \<Rightarrow> json" where
  "weather_json parse w = obj [(''id'', JStr (ws_id w)), (''name'', JStr (ws_name w)), (''site'', JStr (ws_site w)),
     (''model'', JStr (ws_model w)), (''provider'', JStr (ws_provider w)), (''config'', mask_config parse (ws_config w)),
     (''transport'', JStr (ws_transport w)), (''address'', JStr (ws_address w)), (''latitude'', opt_d (ws_latitude w)),
     (''longitude'', opt_d (ws_longitude w)), (''elevation_m'', opt_d (ws_elevation_m w)),
     (''timezone'', JStr (ws_timezone w)), (''poll_interval_s'', JInt (ws_poll_interval_s w)),
     (''status'', JStr (ws_status w)), (''installed_at'', JStr (ws_installed_at w)), (''notes'', JStr (ws_notes w)),
     (''created_at'', JStr (ws_created_at w))]"

definition export_json :: "json_parser \<Rightarrow> ExportTargetRow \<Rightarrow> json" where
  "export_json parse t = obj [(''id'', JStr (et_id t)), (''sensor_id'', JStr (et_sensor_id t)), (''name'', JStr (et_name t)),
     (''target'', JStr (et_target t)), (''config'', mask_config parse (et_config t)), (''schedule'', JStr (et_schedule t)),
     (''schedule_time'', JStr (et_schedule_time t)), (''interval_s'', opt_i (et_interval_s t)),
     (''schedule_day'', opt_i (et_schedule_day t)), (''last_export_ts'', JStr (et_last_export_ts t)),
     (''status'', JStr (et_status t)), (''notes'', JStr (et_notes t)), (''created_at'', JStr (et_created_at t))]"

section \<open>Names\<close>

definition valid_bind :: "string \<Rightarrow> bool" where
  "valid_bind b \<longleftrightarrow> b \<noteq> [] \<and> length b \<le> 64 \<and>
     list_all (\<lambda>c. isalnum c \<or> c = CHR ''.'' \<or> c = CHR '':'' \<or> c = CHR ''-'' \<or> c = CHR ''_'') b"

definition valid_identifier :: "string \<Rightarrow> bool" where
  "valid_identifier s \<longleftrightarrow> s \<noteq> [] \<and> length s \<le> 64 \<and> (isalpha (hd s) \<or> hd s = CHR ''_'') \<and>
     list_all (\<lambda>c. isalnum c \<or> c = CHR ''_'') s"

definition name_chr :: "char \<Rightarrow> char" where
  "name_chr c = (if isalnum c \<or> c = CHR ''-'' \<or> c = CHR ''_'' \<or> c = CHR ''.'' then c else CHR ''_'')"

definition date_or :: "string \<Rightarrow> string \<Rightarrow> string" where
  "date_or d s = (if 10 \<le> length s then take 10 s else d)"

definition dsn_download_name :: "json_parser \<Rightarrow> string \<Rightarrow> string \<Rightarrow> string \<Rightarrow> string \<Rightarrow> string" where
  "dsn_download_name parse i config from_ts to_ts =
     (let site = (if config = [] then i
                  else case parse config of
                      Inl _ \<Rightarrow> i
                    | Inr c \<Rightarrow> (case str_member c ''site_id'' of Some s \<Rightarrow> if s \<noteq> [] then s else i | None \<Rightarrow> i))
      in map name_chr (site @ ''_'' @ date_or ''start'' from_ts @ ''_'' @ date_or ''end'' to_ts @ ''.dat''))"

section \<open>Request bodies\<close>

definition sensor_fields_from_json :: "json \<Rightarrow> SensorFields result" where
  "sensor_fields_from_json b =
     then_res (field get_str b ''name'') (\<lambda>nm.
     then_res (field get_str b ''site'') (\<lambda>site.
     then_res (field get_str b ''serial_number'') (\<lambda>serial.
     then_res (field get_str b ''model'') (\<lambda>model.
     then_res (field get_int b ''protocol_ver'') (\<lambda>proto.
     then_res (field get_int b ''feature_ver'') (\<lambda>feat.
     then_res (field get_double b ''latitude'') (\<lambda>lat.
     then_res (field get_double b ''longitude'') (\<lambda>lon.
     then_res (field get_double b ''elevation_m'') (\<lambda>elev.
     then_res (field get_str b ''timezone'') (\<lambda>tz.
     then_res (field get_str b ''transport'') (\<lambda>tr.
     then_res (field get_str b ''address'') (\<lambda>addr.
     then_res (field get_int b ''poll_interval_s'') (\<lambda>poll.
     then_res (field get_str b ''status'') (\<lambda>status.
     then_res (field get_str b ''installed_at'') (\<lambda>inst.
     then_res (field get_str b ''notes'') (\<lambda>notes.
     then_res (field get_str b ''tcp'') (\<lambda>tcp.
     then_res (field get_str b ''serial'') (\<lambda>ser.
       ok \<lparr>sf_name = nm, sf_site = site, sf_serial_number = serial, sf_model = model, sf_protocol_ver = proto,
           sf_feature_ver = feat, sf_latitude = lat, sf_longitude = lon, sf_elevation_m = elev, sf_timezone = tz,
           sf_transport = (if ser \<noteq> None then Some ''serial'' else if tcp \<noteq> None then Some ''tcp'' else tr),
           sf_address = (if ser \<noteq> None then ser else if tcp \<noteq> None then tcp else addr),
           sf_poll_interval_s = poll, sf_status = status, sf_installed_at = inst, sf_notes = notes\<rparr>))))))))))))))))))"

definition wx_fields_from_json :: "json \<Rightarrow> WeatherStationFields result" where
  "wx_fields_from_json b =
     then_res (field get_str b ''name'') (\<lambda>nm.
     then_res (field get_str b ''site'') (\<lambda>site.
     then_res (field get_str b ''model'') (\<lambda>model.
     then_res (field get_str b ''provider'') (\<lambda>prov.
     then_res (field get_str b ''transport'') (\<lambda>tr.
     then_res (field get_str b ''address'') (\<lambda>addr.
     then_res (field get_double b ''latitude'') (\<lambda>lat.
     then_res (field get_double b ''longitude'') (\<lambda>lon.
     then_res (field get_double b ''elevation_m'') (\<lambda>elev.
     then_res (field get_str b ''timezone'') (\<lambda>tz.
     then_res (field get_int b ''poll_interval_s'') (\<lambda>poll.
     then_res (field get_str b ''status'') (\<lambda>status.
     then_res (field get_str b ''installed_at'') (\<lambda>inst.
     then_res (field get_str b ''notes'') (\<lambda>notes.
       ok \<lparr>wf_name = nm, wf_site = site, wf_model = model, wf_provider = prov, wf_config = None, wf_transport = tr,
           wf_address = addr, wf_latitude = lat, wf_longitude = lon, wf_elevation_m = elev, wf_timezone = tz,
           wf_poll_interval_s = poll, wf_status = status, wf_installed_at = inst, wf_notes = notes\<rparr>))))))))))))))"

definition export_fields_from_json :: "json \<Rightarrow> ExportTargetFields result" where
  "export_fields_from_json b =
     then_res (field get_str b ''sensor_id'') (\<lambda>sensor.
     then_res (field get_str b ''name'') (\<lambda>nm.
     then_res (field get_str b ''target'') (\<lambda>target.
     then_res (field get_str b ''schedule'') (\<lambda>sched.
     then_res (field get_str b ''schedule_time'') (\<lambda>tm.
     then_res (field get_int b ''interval_s'') (\<lambda>interval.
     then_res (field get_int b ''schedule_day'') (\<lambda>day.
     then_res (field get_str b ''status'') (\<lambda>status.
     then_res (field get_str b ''notes'') (\<lambda>notes.
       ok \<lparr>ef_sensor_id = sensor, ef_name = nm, ef_target = target, ef_config = None, ef_schedule = sched,
           ef_schedule_time = tm, ef_interval_s = interval, ef_schedule_day = day, ef_status = status,
           ef_notes = notes\<rparr>)))))))))"

section \<open>Hidden values\<close>

text \<open>The members along a path of keys, and well-formed values: keys in order at every level.\<close>

fun path_get :: "json \<Rightarrow> string list \<Rightarrow> json option" where
  "path_get j [] = Some j"
| "path_get j (k # ks) = (case member j k of None \<Rightarrow> None | Some v \<Rightarrow> path_get v ks)"

fun json_wf :: "json \<Rightarrow> bool" where
  "json_wf (JObj m) = (keys_sorted m \<and> (\<forall>(k, v)\<in>set m. json_wf v))"
| "json_wf _ = True"

definition hidden :: "string \<Rightarrow> json \<Rightarrow> json" where
  "hidden k v = (if is_object v then mask_config_json v else if is_secret_key k \<and> nonblank v then JStr masked else v)"

lemma mask_items_map_of: "map_of (mask_items m) k = map_option (hidden k) (map_of m k)"
  by (induction m) (auto simp: hidden_def)

lemma member_mask: "member (mask_config_json j) k = map_option (hidden k) (member j k)"
  by (cases j) (simp_all add: member_def mask_items_map_of)

lemma hidden_object: "is_object v \<Longrightarrow> hidden k v = mask_config_json v"
  by (simp add: hidden_def)

lemma path_get_mask: "path_get (mask_config_json j) (ks @ [k]) = map_option (hidden k) (path_get j (ks @ [k]))"
proof (induction ks arbitrary: j)
  case Nil
  then show ?case by (simp add: member_mask split: option.split)
next
  case (Cons k' ks)
  have "path_get (hidden k' v) (ks @ [k]) = map_option (hidden k) (path_get v (ks @ [k]))" for v
  proof (cases "is_object v")
    case True
    then show ?thesis using Cons.IH by (simp add: hidden_object)
  next
    case False
    then have "\<not> is_object (hidden k' v)" by (auto simp: hidden_def is_object_def)
    then show ?thesis using False by (cases ks) (simp_all add: member_nonobject)
  qed
  then show ?case by (simp add: member_mask split: option.split)
qed



subsection \<open>Merging\<close>

lemma keys_sorted_Cons_less: "keys_sorted ((k, v) # m) \<Longrightarrow> (k', w) \<in> set m \<Longrightarrow> str_less k k'"
  by (auto simp: keys_sorted_Cons)

lemma obj_put_same: "keys_sorted m \<Longrightarrow> map_of m k = Some v \<Longrightarrow> obj_put k v m = m"
  by (rule keys_sorted_ext) (auto simp: keys_sorted_obj_put fun_eq_iff)

lemma keys_sorted_distinct: "keys_sorted m \<Longrightarrow> distinct (map fst m)"
proof (induction m)
  case (Cons kv m)
  then show ?case by (cases kv) (auto simp: keys_sorted_Cons)
qed simp

lemma put_same: "json_wf j \<Longrightarrow> member j k = Some v \<Longrightarrow> put k v j = j"
  by (cases j) (simp_all add: put_def obj_put_same member_def)

lemma mask_items_sorted:
  "keys_sorted m \<Longrightarrow> mask_items m = map (\<lambda>(k, v). (k, hidden k v)) m"
proof (induction m)
  case Nil
  then show ?case by simp
next
  case (Cons kv m)
  obtain k v where kv: "kv = (k, v)" by (cases kv)
  have m: "keys_sorted m" "\<forall>k'\<in>fst ` set m. str_less k k'" using Cons.prems kv by (auto simp: keys_sorted_Cons)
  have "obj_put k (hidden k v) (map (\<lambda>(k, v). (k, hidden k v)) m) = (k, hidden k v) # map (\<lambda>(k, v). (k, hidden k v)) m"
    using m(2) by (cases m) auto
  then show ?case using Cons.IH m(1) by (simp add: kv hidden_def)
qed

lemma merge_items_same:
  assumes "json_wf (JObj e)" and "\<forall>(k, v)\<in>set m. map_of e k = Some v"
    and rec: "\<And>k v. (k, v) \<in> set m \<Longrightarrow> is_object v \<Longrightarrow> merge_config_json v (mask_config_json v) = v"
  shows "merge_items (JObj e) (map (\<lambda>(k, v). (k, hidden k v)) m) = JObj e"
  using assms(2) rec
proof (induction m)
  case Nil
  then show ?case by simp
next
  case (Cons kv m)
  obtain k v where kv: "kv = (k, v)" by (cases kv)
  have mem: "member (JObj e) k = Some v" using Cons.prems(1) kv by simp
  note same = put_same [OF assms(1) mem]
  have IH: "merge_items (JObj e) (map (\<lambda>(k, v). (k, hidden k v)) m) = JObj e"
    using Cons.prems by (intro Cons.IH) auto
  show ?case
  proof (cases "is_object v")
    case True
    then have "is_object (hidden k v)" by (cases v) (simp_all add: hidden_def is_object_def)
    moreover have "merge_config_json v (hidden k v) = v" using Cons.prems(2) [of k v] True kv by (simp add: hidden_object)
    ultimately show ?thesis using mem same IH by (simp add: kv del: member_JObj)
  next
    case False
    then have no: "\<not> is_object (hidden k v)" by (auto simp: hidden_def is_object_def)
    have "is_secret_key k \<and> (hidden k v = JStr [] \<or> hidden k v = JStr masked) \<or> hidden k v = v"
      using False by (auto simp: hidden_def)
    then show ?thesis using no same IH by (auto simp: kv)
  qed
qed

text \<open>
  C40. Sending the masked configuration back unchanged changes nothing: merged into the stored one
  it gives the stored one, secrets included.
\<close>

theorem merge_of_masked_is_identity:
  "is_object c \<Longrightarrow> json_wf c \<Longrightarrow> merge_config_json c (mask_config_json c) = c"
proof (induction c)
  case (JObj m)
  have s: "keys_sorted m" "\<forall>(k, v)\<in>set m. json_wf v" using JObj.prems(2) by simp_all
  have at: "\<forall>(k, v)\<in>set m. map_of m k = Some v"
    using s(1) by (auto intro: map_of_is_SomeI keys_sorted_distinct)
  have "merge_items (JObj m) (map (\<lambda>(k, v). (k, hidden k v)) m) = JObj m"
  proof (rule merge_items_same [OF JObj.prems(2) at])
    fix k v assume "(k, v) \<in> set m" and "is_object v"
    then show "merge_config_json v (mask_config_json v) = v"
      using JObj.IH s(2) by force
  qed
  then show ?case by (simp add: mask_items_sorted [OF s(1)] object_or_empty_def)
qed (simp_all add: is_object_def)

theorem merge_of_masked_is_identity_witness:
  "merge_config_json (JObj [(''apiKey'', JStr ''s3cret''), (''url'', JStr ''http://h'')])
     (mask_config_json (JObj [(''apiKey'', JStr ''s3cret''), (''url'', JStr ''http://h'')])) =
   JObj [(''apiKey'', JStr ''s3cret''), (''url'', JStr ''http://h'')]"
  by (rule merge_of_masked_is_identity) (simp_all add: is_object_def)

lemma merge_object [simp]: "is_object (merge_config_json e j)"
proof -
  have "is_object e \<Longrightarrow> is_object (merge_items e m)" for e m
  proof (induction m arbitrary: e)
    case Nil then show ?case by simp
  next
    case (Cons kv m) then show ?case by (cases kv) simp
  qed
  then show ?thesis by (cases j) (simp_all add: object_or_empty_def is_object_def)
qed

definition merged :: "string \<Rightarrow> json option \<Rightarrow> json \<Rightarrow> json option" where
  "merged k x v =
     (if is_object v then Some (merge_config_json (case x of Some y \<Rightarrow> y | None \<Rightarrow> JObj []) v)
      else if is_secret_key k \<and> (v = JStr [] \<or> v = JStr masked) then x else Some v)"

lemma member_merge_items:
  "is_object e \<Longrightarrow> distinct (map fst m) \<Longrightarrow>
   member (merge_items e m) k = (case map_of m k of None \<Rightarrow> member e k | Some v \<Rightarrow> merged k (member e k) v)"
proof (induction m arbitrary: e)
  case Nil
  then show ?case by simp
next
  case (Cons kv m)
  obtain k1 v1 where kv: "kv = (k1, v1)" by (cases kv)
  have none: "k1 \<notin> fst ` set m" and d: "distinct (map fst m)" using Cons.prems(2) kv by auto
  then have out: "map_of m k1 = None" by (metis map_of_eq_None_iff)
  let ?e = "if is_object v1 then put k1 (merge_config_json (case member e k1 of Some x \<Rightarrow> x | None \<Rightarrow> JObj []) v1) e
        else if is_secret_key k1 \<and> (v1 = JStr [] \<or> v1 = JStr masked) then e else put k1 v1 e"
  have e: "is_object ?e" using Cons.prems(1) by simp
  have m: "member ?e k = (if k = k1 then merged k1 (member e k1) v1 else member e k)"
    using Cons.prems(1)
    by (cases "is_object v1"; cases "is_secret_key k1 \<and> (v1 = JStr [] \<or> v1 = JStr masked)") (auto simp: merged_def)
  have "merge_items e (kv # m) = merge_items ?e m" by (simp add: kv)
  then show ?case using Cons.IH [OF e d] m out by (auto simp: kv split: option.split)
qed

lemma member_merge:
  "is_object e \<Longrightarrow> json_wf j \<Longrightarrow>
   member (merge_config_json e j) k = (case member j k of None \<Rightarrow> member e k | Some v \<Rightarrow> merged k (member e k) v)"
proof (cases "is_object j")
  case True
  assume e: "is_object e" and "json_wf j"
  moreover obtain m where "j = JObj m" using True by (auto simp: is_object_def split: json.splits)
  ultimately show ?thesis by (simp add: object_or_empty_def member_merge_items keys_sorted_distinct)
next
  case False
  assume "is_object e"
  then show ?thesis using False by (cases j) (simp_all add: member_def [of j] member_nonobject object_or_empty_def)
qed

fun objects_along :: "json \<Rightarrow> string list \<Rightarrow> bool" where
  "objects_along j [] = is_object j"
| "objects_along j (k # ks) =
     (is_object j \<and> (case member j k of None \<Rightarrow> True | Some v \<Rightarrow> objects_along v ks))"

lemma json_wf_member: "json_wf j \<Longrightarrow> member j k = Some v \<Longrightarrow> json_wf v"
  by (cases j) (auto simp: member_def dest: map_of_SomeD)

text \<open>
  C17. An edit that leaves a stored secret blank, masked or out does not lose it, at whatever depth:
  as long as the objects on the way to it are sent as objects or not at all, the merged
  configuration has it as before.
\<close>

theorem merge_keeps_secrets:
  assumes "is_secret_key k" and "is_object c" and "path_get c (ks @ [k]) = Some (JStr s)"
    and "json_wf edit" and "objects_along edit ks"
    and "path_get edit (ks @ [k]) \<in> {None, Some (JStr []), Some (JStr ''***'')}"
  shows "path_get (merge_config_json c edit) (ks @ [k]) = Some (JStr s)"
  using assms(2-)
proof (induction ks arbitrary: c edit)
  case Nil
  have "member c k = Some (JStr s)" using Nil by (simp split: option.splits)
  then show ?case using Nil assms(1)
    by (auto simp: member_merge merged_def masked_def is_object_def split: option.splits)
next
  case (Cons k' ks)
  obtain x where x: "member c k' = Some x" "path_get x (ks @ [k]) = Some (JStr s)"
    using Cons.prems(2) by (auto split: option.splits)
  have obj: "is_object x" using x(2) by (cases ks) (auto simp: member_nonobject split: option.splits intro: ccontr)
  show ?case
  proof (cases "member edit k'")
    case None
    then show ?thesis using x Cons.prems(1,3) by (simp add: member_merge)
  next
    case (Some v)
    have v: "objects_along v ks" "json_wf v" "path_get v (ks @ [k]) \<in> {None, Some (JStr []), Some (JStr ''***'')}"
      using Cons.prems(4,5) json_wf_member [OF Cons.prems(3) Some] Some by simp_all
    moreover have "is_object v" using v(1) by (cases ks) simp_all
    ultimately show ?thesis
      using Cons.IH [OF obj x(2) v(2,1,3)] Some x(1) Cons.prems(1,3) by (simp add: member_merge merged_def)
  qed
qed

theorem merge_keeps_secrets_witness:
  "path_get (merge_config_json (JObj [(''token'', JStr ''t'')]) (JObj [(''url'', JStr ''u'')])) ([] @ [''token'']) = Some (JStr ''t'')"
proof (rule merge_keeps_secrets)
  show "is_secret_key ''token''" by code_simp
qed (simp_all add: is_object_def)

end
