(* ===== verification/NW_Discovery.thy ===== *)
theory NW_Discovery
  imports NW_Device "HOL-Library.Multiset" "HOL-Library.List_Lexorder" "HOL-Library.Char_ord"
begin

text \<open>
  Discovery (\<^verbatim>\<open>src/sqm/discovery.cpp\<close>): expansion of an IPv4 CIDR range on 32-bit words,
  the worker pool that probes the candidates (one turn of one worker per schedule entry,
  the shared counter and result vector as its state), the network and serial scans built on
  it, and the enumeration of serial devices.
\<close>

unbundle bit_operations_syntax

section \<open>IPv4 addresses\<close>

fun split_on :: "char \<Rightarrow> string \<Rightarrow> string list" where
  "split_on d [] = [[]]"
| "split_on d (c # cs) =
     (if c = d then [] # split_on d cs
      else case split_on d cs of [] \<Rightarrow> [[c]] | p # ps \<Rightarrow> (c # p) # ps)"

text \<open>\<^verbatim>\<open>inet_pton(AF_INET)\<close>: four decimal octets without leading zeros.\<close>

definition octet_ok :: "string \<Rightarrow> bool" where
  "octet_ok s \<longleftrightarrow> s \<noteq> [] \<and> (\<forall>c\<in>set s. isdigit c) \<and> (hd s = CHR ''0'' \<longrightarrow> length s = 1) \<and>
     length s \<le> 3 \<and> digits_val s \<le> 255"

definition quad :: "nat \<Rightarrow> nat \<Rightarrow> nat \<Rightarrow> nat \<Rightarrow> nat" where
  "quad a b c d = ((a * 256 + b) * 256 + c) * 256 + d"

definition inet_pton :: "string \<Rightarrow> 32 word option" where
  "inet_pton s =
     (case split_on CHR ''.'' s of
        [a, b, c, d] \<Rightarrow>
          if octet_ok a \<and> octet_ok b \<and> octet_ok c \<and> octet_ok d
          then Some (word_of_nat (quad (digits_val a) (digits_val b) (digits_val c) (digits_val d)))
          else None
      | _ \<Rightarrow> None)"

definition ipv4_to_u32 :: "string \<Rightarrow> 32 word result" where
  "ipv4_to_u32 s =
     (case inet_pton s of None \<Rightarrow> throw (''invalid IPv4 address: '' @ s) | Some v \<Rightarrow> ok v)"

definition octet :: "nat \<Rightarrow> 32 word \<Rightarrow> string" where
  "octet k v = show_nat (unat (drop_bit k v AND 0xFF))"

definition u32_to_ipv4 :: "32 word \<Rightarrow> string" where
  "u32_to_ipv4 v = octet 24 v @ ''.'' @ octet 16 v @ ''.'' @ octet 8 v @ ''.'' @ octet 0 v"

section \<open>CIDR expansion\<close>

text \<open>\<^verbatim>\<open>for (uint32_t a = first;; ++a) { push; if (a == last) break; }\<close>\<close>

function host_loop :: "32 word \<Rightarrow> 32 word \<Rightarrow> string list" where
  "host_loop a stop = u32_to_ipv4 a # (if a = stop then [] else host_loop (a + 1) stop)"
  by auto
termination
proof (relation "measure (\<lambda>(a, stop). unat (stop - a))", goal_cases)
  case (2 a stop)
  then have "stop - a \<noteq> 0" by simp
  then have "unat (stop - a - 1) < unat (stop - a)"
    by (metis diff_less unat_minus_one unat_gt_0 less_one)
  then show ?case by (simp add: algebra_simps)
qed simp

declare host_loop.simps [simp del]

definition prefix_mask :: "int \<Rightarrow> 32 word" where
  "prefix_mask prefix = (if prefix = 0 then 0 else push_bit (nat (32 - prefix)) 0xFFFFFFFF)"

definition cidr_expand :: "int \<Rightarrow> 32 word \<Rightarrow> string list result" where
  "cidr_expand prefix ip =
     (let mask = prefix_mask prefix;
          network = ip AND mask;
          broadcast = network OR NOT mask;
          first = (if prefix \<le> 30 then network + 1 else network);
          final = (if prefix \<le> 30 then broadcast - 1 else broadcast);
          count = (word_of_int (uint final - uint first + 1) :: 64 word)
      in if 65536 < count
         then throw (''subnet too large to scan ('' @ show_nat (unat count) @
                     '' hosts); use a /16 or smaller range'')
         else ok (host_loop first final))"

definition cidr_hosts :: "string \<Rightarrow> string list result" where
  "cidr_hosts cidr =
     (case find_chr CHR ''/'' cidr of
        None \<Rightarrow> throw (''expected CIDR like 192.168.1.0/24: '' @ cidr)
      | Some slash \<Rightarrow>
          then_res (stoi (substr cidr (slash + 1))) (\<lambda>prefix.
            if prefix < 0 \<or> 32 < prefix then throw (''invalid CIDR prefix: '' @ cidr)
            else then_res (ipv4_to_u32 (substr_n cidr 0 slash)) (cidr_expand prefix)))"

section \<open>The worker pool\<close>

datatype thr = Looping | Probing nat | Finished

record 'r pool =
  pl_next :: nat
  pl_thr :: "thr list"
  pl_res :: "'r list"

text \<open>
  One turn of worker \<open>k\<close>: it fetches the next index, or ends when none is left, or finishes
  its probe (the result is pushed, an exception is swallowed). A turn of a finished worker
  does nothing. \<open>probe i\<close> is what the probe of candidate \<open>i\<close> gives, \<open>None\<close> for an exception.
\<close>

definition pool_act :: "nat \<Rightarrow> (nat \<Rightarrow> 'r option) \<Rightarrow> nat \<Rightarrow> 'r pool \<Rightarrow> 'r pool" where
  "pool_act n probe k s =
     (if length (pl_thr s) \<le> k then s
      else case pl_thr s ! k of
        Finished \<Rightarrow> s
      | Looping \<Rightarrow>
          let i = pl_next s
          in s\<lparr>pl_next := i + 1, pl_thr := (pl_thr s)[k := (if n \<le> i then Finished else Probing i)]\<rparr>
      | Probing i \<Rightarrow>
          (let s' = s\<lparr>pl_thr := (pl_thr s)[k := Looping]\<rparr>
           in case probe i of None \<Rightarrow> s' | Some r \<Rightarrow> s'\<lparr>pl_res := pl_res s' @ [r]\<rparr>))"

definition pool_init :: "nat \<Rightarrow> 'r pool" where
  "pool_init nthreads = \<lparr>pl_next = 0, pl_thr = replicate nthreads Looping, pl_res = []\<rparr>"

definition pool_run :: "nat \<Rightarrow> (nat \<Rightarrow> 'r option) \<Rightarrow> nat list \<Rightarrow> 'r pool \<Rightarrow> 'r pool" where
  "pool_run n probe sched s = foldl (\<lambda>s k. pool_act n probe k s) s sched"

definition joined :: "'r pool \<Rightarrow> bool" where
  "joined s \<longleftrightarrow> (\<forall>t\<in>set (pl_thr s). t = Finished)"

text \<open>\<^verbatim>\<open>max(1, min(concurrency, size))\<close>\<close>

definition pool_size :: "int \<Rightarrow> nat \<Rightarrow> nat" where
  "pool_size concurrency n = nat (max 1 (min concurrency (to_i32 (int n))))"

section \<open>Network scan\<close>

record Discovered =
  dc_ip :: string
  dc_info :: UnitInfo

definition ip_key :: "Discovered \<Rightarrow> nat" where
  "ip_key d = (case ipv4_to_u32 (dc_ip d) of Inl _ \<Rightarrow> 0 | Inr v \<Rightarrow> unat v)"

text \<open>
  \<open>probe ip\<close> is the outcome of connecting to the host and asking for its unit information;
  \<open>None\<close> is a scan whose workers the schedule has not brought to their end (\<^verbatim>\<open>join\<close> waits).
\<close>

definition discover ::
  "string \<Rightarrow> int \<Rightarrow> (string \<Rightarrow> UnitInfo result) \<Rightarrow> nat list \<Rightarrow> Discovered list result option" where
  "discover cidr concurrency probe sched =
     (case cidr_hosts cidr of
        Inl e \<Rightarrow> Some (throw e)
      | Inr hosts \<Rightarrow>
          let outcome = (\<lambda>i. case probe (hosts ! i) of
                Inl _ \<Rightarrow> None | Inr u \<Rightarrow> Some \<lparr>dc_ip = hosts ! i, dc_info = u\<rparr>);
              s = pool_run (length hosts) outcome sched (pool_init (pool_size concurrency (length hosts)))
          in if joined s then Some (ok (sort_key ip_key (pl_res s))) else None)"

section \<open>Serial scan\<close>

record DiscoveredSerial =
  ds_device :: string
  ds_info :: UnitInfo

definition add_device :: "(string \<Rightarrow> string option) \<Rightarrow> string \<Rightarrow> string list \<times> string list \<Rightarrow> string list \<times> string list"
  where
  "add_device realpath path st =
     (let (devices, seen) = st; key = (case realpath path of None \<Rightarrow> path | Some rp \<Rightarrow> rp)
      in if key \<in> set seen then (devices, seen) else (devices @ [path], key # seen))"

definition by_id_paths :: "string list option \<Rightarrow> string list" where
  "by_id_paths entries =
     (case entries of None \<Rightarrow> []
      | Some es \<Rightarrow> map (\<lambda>e. ''/dev/serial/by-id/'' @ e) (filter (\<lambda>e. \<not> starts_with ''.'' e) es))"

definition tty_paths :: "string list option \<Rightarrow> string list" where
  "tty_paths entries =
     (case entries of None \<Rightarrow> []
      | Some es \<Rightarrow> map (\<lambda>e. ''/dev/'' @ e)
                     (filter (\<lambda>e. starts_with ''ttyUSB'' e \<or> starts_with ''ttyACM'' e) es))"

definition enumerate_serial_devices ::
  "(string \<Rightarrow> string option) \<Rightarrow> string list option \<Rightarrow> string list option \<Rightarrow> string list" where
  "enumerate_serial_devices realpath by_id dev =
     fst (fold (add_device realpath) (by_id_paths by_id @ tty_paths dev) ([], []))"

definition discover_serial ::
  "string list \<Rightarrow> (string \<Rightarrow> UnitInfo result) \<Rightarrow> nat list \<Rightarrow> DiscoveredSerial list option" where
  "discover_serial devices probe sched =
     (if devices = [] then Some []
      else
        let outcome = (\<lambda>i. case probe (devices ! i) of
              Inl _ \<Rightarrow> None | Inr u \<Rightarrow> Some \<lparr>ds_device = devices ! i, ds_info = u\<rparr>);
            s = pool_run (length devices) outcome sched (pool_init (pool_size 8 (length devices)))
        in if joined s then Some (sort_key ds_device (pl_res s)) else None)"

section \<open>The pool computes the same set on every schedule\<close>

definition res_of :: "(nat \<Rightarrow> 'r option) \<Rightarrow> nat \<Rightarrow> 'r multiset" where
  "res_of probe i = (case probe i of None \<Rightarrow> {#} | Some r \<Rightarrow> {#r#})"

definition thr_pend :: "(nat \<Rightarrow> 'r option) \<Rightarrow> thr \<Rightarrow> 'r multiset" where
  "thr_pend probe t = (case t of Probing i \<Rightarrow> res_of probe i | _ \<Rightarrow> {#})"

definition pend :: "(nat \<Rightarrow> 'r option) \<Rightarrow> thr list \<Rightarrow> 'r multiset" where
  "pend probe ts = sum_list (map (thr_pend probe) ts)"

definition pool_inv :: "nat \<Rightarrow> (nat \<Rightarrow> 'r option) \<Rightarrow> 'r pool \<Rightarrow> bool" where
  "pool_inv n probe s \<longleftrightarrow>
     mset (pl_res s) + pend probe (pl_thr s) = sum_list (map (res_of probe) [0..<min (pl_next s) n]) \<and>
     (Finished \<in> set (pl_thr s) \<longrightarrow> n \<le> pl_next s)"

lemma pend_update:
  "k < length ts \<Longrightarrow> pend probe (ts[k := x]) + thr_pend probe (ts ! k) = pend probe ts + thr_pend probe x"
proof (induction ts arbitrary: k)
  case Nil
  then show ?case by simp
next
  case (Cons t ts)
  then show ?case by (cases k) (auto simp: pend_def ac_simps)
qed

lemma pend_swap:
  "k < length ts \<Longrightarrow> thr_pend probe (ts ! k) = {#} \<Longrightarrow> pend probe (ts[k := x]) = pend probe ts + thr_pend probe x"
  using pend_update [of k ts probe x] by simp

lemma pend_init: "pend probe (replicate k Looping) = {#}"
  by (induction k) (auto simp: pend_def thr_pend_def)

lemma pool_inv_init: "pool_inv n probe (pool_init k)"
  by (auto simp: pool_inv_def pool_init_def pend_init)

lemma finished_update: "Finished \<in> set (ts[k := x]) \<Longrightarrow> x \<noteq> Finished \<Longrightarrow> Finished \<in> set ts"
  using set_update_subset_insert [of ts k x] by auto

lemma pool_inv_act:
  assumes inv: "pool_inv n probe s"
  shows "pool_inv n probe (pool_act n probe k s)"
proof (cases "length (pl_thr s) \<le> k")
  case True
  then show ?thesis using inv by (simp add: pool_act_def)
next
  case False
  then have k: "k < length (pl_thr s)" by simp
  have eq: "mset (pl_res s) + pend probe (pl_thr s) = sum_list (map (res_of probe) [0..<min (pl_next s) n])"
    and fin: "Finished \<in> set (pl_thr s) \<Longrightarrow> n \<le> pl_next s"
    using inv by (auto simp: pool_inv_def)
  show ?thesis
  proof (cases "pl_thr s ! k")
    case Looping
    then have z: "thr_pend probe (pl_thr s ! k) = {#}" by (simp add: thr_pend_def)
    show ?thesis
    proof (cases "n \<le> pl_next s")
      case True
      then have act: "pool_act n probe k s = s\<lparr>pl_next := pl_next s + 1, pl_thr := (pl_thr s)[k := Finished]\<rparr>"
        using k Looping by (simp add: pool_act_def Let_def)
      have "pend probe ((pl_thr s)[k := Finished]) = pend probe (pl_thr s)"
        using pend_swap [OF k z, of Finished] by (simp add: thr_pend_def)
      then show ?thesis using eq True by (simp add: act pool_inv_def min_absorb2)
    next
      case lt: False
      then have act: "pool_act n probe k s = s\<lparr>pl_next := pl_next s + 1, pl_thr := (pl_thr s)[k := Probing (pl_next s)]\<rparr>"
        using k Looping by (simp add: pool_act_def Let_def)
      have "pend probe ((pl_thr s)[k := Probing (pl_next s)]) = pend probe (pl_thr s) + res_of probe (pl_next s)"
        using pend_swap [OF k z, of "Probing (pl_next s)"] by (simp add: thr_pend_def)
      moreover have "min (Suc (pl_next s)) n = Suc (min (pl_next s) n)" "min (pl_next s) n = pl_next s"
        using lt by auto
      ultimately show ?thesis using eq fin lt
        by (auto simp: act pool_inv_def simp flip: add.assoc dest!: finished_update)
    qed
  next
    case (Probing i)
    have upd: "pend probe ((pl_thr s)[k := Looping]) + res_of probe i = pend probe (pl_thr s)"
      using pend_update [OF k, of probe Looping] by (simp add: thr_pend_def Probing)
    have "mset (pl_res (pool_act n probe k s)) = mset (pl_res s) + res_of probe i"
      and "pl_thr (pool_act n probe k s) = (pl_thr s)[k := Looping]"
      and "pl_next (pool_act n probe k s) = pl_next s"
      using k Probing by (auto simp: pool_act_def res_of_def Let_def split: option.splits)
    then show ?thesis
      using eq fin upd by (auto simp: pool_inv_def ac_simps dest: finished_update)
  next
    case Finished
    then show ?thesis using k inv by (simp add: pool_act_def)
  qed
qed

lemma pool_inv_run: "pool_inv n probe s \<Longrightarrow> pool_inv n probe (pool_run n probe sched s)"
  unfolding pool_run_def by (induction sched arbitrary: s) (auto intro: pool_inv_act)

lemma pool_act_length [simp]: "length (pl_thr (pool_act n probe k s)) = length (pl_thr s)"
  by (auto simp: pool_act_def Let_def split: thr.splits option.splits)

lemma pool_run_length [simp]: "length (pl_thr (pool_run n probe sched s)) = length (pl_thr s)"
  unfolding pool_run_def by (induction sched arbitrary: s) auto

lemma sum_res_of: "sum_list (map (res_of probe) is) = mset (List.map_filter probe is)"
  by (induction "is") (auto simp: res_of_def map_filter_simps split: option.splits)

lemma pool_joined_results:
  assumes "joined (pool_run n probe sched (pool_init k))" and "0 < k"
  shows "mset (pl_res (pool_run n probe sched (pool_init k))) = mset (List.map_filter probe [0..<n])"
proof -
  let ?s = "pool_run n probe sched (pool_init k)"
  have inv: "pool_inv n probe ?s" by (intro pool_inv_run pool_inv_init)
  have len: "length (pl_thr ?s) = k" by (simp add: pool_init_def)
  have "pl_thr ?s = replicate k Finished"
    using assms(1) len by (metis joined_def replicate_length_same)
  moreover have "pend probe (replicate k Finished) = {#}"
    by (induction k) (auto simp: pend_def thr_pend_def)
  ultimately have z: "pend probe (pl_thr ?s) = {#}" and "Finished \<in> set (pl_thr ?s)"
    using assms(2) by auto
  then have "n \<le> pl_next ?s" using inv by (auto simp: pool_inv_def)
  then show ?thesis using inv z by (simp add: pool_inv_def min_absorb2 sum_res_of)
qed

section \<open>Every worker ends\<close>

text \<open>What worker \<open>k\<close> may still do: two turns per index left, plus its own state.\<close>

definition turns_left :: "nat \<Rightarrow> 'r pool \<Rightarrow> nat \<Rightarrow> nat" where
  "turns_left n s k =
     2 * (n - pl_next s) + (case pl_thr s ! k of Looping \<Rightarrow> 1 | Probing i \<Rightarrow> 2 | Finished \<Rightarrow> 0)"

lemma turns_left_act:
  assumes "k < length (pl_thr s)" and "pl_thr s ! k = Finished \<longrightarrow> n \<le> pl_next s"
  shows "turns_left n (pool_act n probe j s) k \<le> turns_left n s k - (if j = k then 1 else 0)"
  using assms by (cases "pl_thr s ! j")
    (auto simp: turns_left_def pool_act_def Let_def nth_list_update split: option.splits thr.splits)

lemma turns_left_run:
  assumes "k < length (pl_thr s)" and "pool_inv n probe s"
  shows "turns_left n (pool_run n probe sched s) k \<le> turns_left n s k - count_list sched k"
  using assms
proof (induction sched arbitrary: s)
  case Nil
  then show ?case by (simp add: pool_run_def)
next
  case (Cons j sched)
  have "pl_thr s ! k = Finished \<longrightarrow> n \<le> pl_next s"
    using Cons.prems by (metis nth_mem pool_inv_def)
  from turns_left_act [OF Cons.prems(1) this, of probe j]
  have "turns_left n (pool_act n probe j s) k \<le> turns_left n s k - (if j = k then 1 else 0)" .
  moreover have "turns_left n (pool_run n probe sched (pool_act n probe j s)) k
      \<le> turns_left n (pool_act n probe j s) k - count_list sched k"
    using Cons.prems by (intro Cons.IH pool_inv_act) simp_all
  ultimately show ?case by (auto simp: pool_run_def split: if_splits)
qed

lemma pool_joins:
  fixes probe :: "nat \<Rightarrow> 'r option"
  assumes "\<forall>k<w. 2 * n + 1 \<le> count_list sched k"
  shows "joined (pool_run n probe sched (pool_init w))"
proof -
  let ?s = "pool_run n probe sched (pool_init w)"
  have len: "length (pl_thr ?s) = w" by (simp add: pool_init_def)
  have "pl_thr ?s ! k = Finished" if "k < w" for k
  proof -
    have "turns_left n ?s k \<le> turns_left n (pool_init w :: 'r pool) k - count_list sched k"
      by (rule turns_left_run [OF _ pool_inv_init]) (use that in \<open>simp add: pool_init_def\<close>)
    also have "turns_left n (pool_init w :: 'r pool) k = 2 * n + 1"
      using that by (simp add: turns_left_def pool_init_def)
    finally have "turns_left n ?s k = 0" using assms that by fastforce
    then show ?thesis by (auto simp: turns_left_def split: thr.splits)
  qed
  then show ?thesis using len by (auto simp: joined_def in_set_conv_nth)
qed

section \<open>Addresses and ranges\<close>

lemma split_on_step: "d \<notin> set s \<Longrightarrow> split_on d (s @ d # t) = s # split_on d t"
  by (induction s) auto

lemma split_on_last: "d \<notin> set s \<Longrightarrow> split_on d s = [s]"
  by (induction s) auto

lemma octet_ok_show: "n < 256 \<Longrightarrow> octet_ok (show_nat n)"
proof -
  assume n: "n < 256"
  have "length (show_nat 0) = 1" by (subst show_nat.simps) simp
  then show ?thesis
    using n show_nat_digits [of n] show_nat_length [of n 3] show_nat_first [of n]
    by (cases "n = 0") (simp_all add: octet_ok_def)
qed

lemma octet_val: "octet k v = show_nat (unat v div 2 ^ k mod 256)"
proof -
  have "drop_bit k v AND 0xFF = take_bit 8 (drop_bit k v)"
    by (simp add: take_bit_eq_mask mask_eq_exp_minus_1)
  then have "unat (drop_bit k v AND 0xFF) = take_bit 8 (drop_bit k (unat v))"
    by (simp only: unsigned_take_bit_eq unat_drop_bit_eq)
  then show ?thesis by (simp add: octet_def drop_bit_eq_div take_bit_eq_mod)
qed

lemma quad_octets:
  "v < 2 ^ 32 \<Longrightarrow> quad (v div 2 ^ 24 mod 256) (v div 2 ^ 16 mod 256) (v div 2 ^ 8 mod 256) (v div 2 ^ 0 mod 256) = v"
proof -
  assume v: "v < 2 ^ 32"
  define q1 where "q1 = v div 256"
  define q2 where "q2 = q1 div 256"
  define q3 where "q3 = q2 div 256"
  have a: "v div 2 ^ 8 = q1" "v div 2 ^ 16 = q2" "v div 2 ^ 24 = q3"
    by (simp_all add: q1_def q2_def q3_def flip: div_mult2_eq)
  have "q3 < 256" using v by (simp add: q1_def q2_def q3_def flip: div_mult2_eq)
  then have "q3 mod 256 = q3" by simp
  moreover have "q3 * 256 + q2 mod 256 = q2" "q2 * 256 + q1 mod 256 = q1" "q1 * 256 + v mod 256 = v"
    by (simp_all only: q1_def q2_def q3_def div_mult_mod_eq)
  ultimately show ?thesis unfolding quad_def a by simp
qed

lemma dot_notin_show [simp]: "CHR ''.'' \<notin> set (show_nat n)"
  using show_nat_digits [of n] by (auto simp: isdigit_def)

lemma ipv4_round_trip: "ipv4_to_u32 (u32_to_ipv4 v) = ok v"
proof -
  have "unat v < 2 ^ 32" using unsigned_less [of v, where 'a = nat] by simp
  then have "quad (unat v div 2 ^ 24 mod 256) (unat v div 2 ^ 16 mod 256) (unat v div 2 ^ 8 mod 256)
      (unat v div 2 ^ 0 mod 256) = unat v" by (rule quad_octets)
  then show ?thesis
    by (simp add: ipv4_to_u32_def inet_pton_def u32_to_ipv4_def octet_val split_on_step split_on_last octet_ok_show)
qed

lemma u32_to_ipv4_inj: "inj u32_to_ipv4"
  by (rule injI) (metis ipv4_round_trip sum.inject(2))

lemma host_loop_range:
  "unat a \<le> unat stop \<Longrightarrow> host_loop a stop = map (\<lambda>i. u32_to_ipv4 (word_of_nat i)) [unat a..<Suc (unat stop)]"
proof (induction a stop rule: host_loop.induct)
  case (1 a stop)
  show ?case
  proof (cases "a = stop")
    case True
    then show ?thesis by (subst host_loop.simps) simp
  next
    case False
    then have lt: "unat a < unat stop" using "1.prems" by (metis le_neq_implies_less word_unat_eq_iff)
    then have s: "unat (a + 1) = Suc (unat a)"
      using unsigned_less [of stop, where 'a = nat] by (simp add: unat_word_ariths(1)) 
    have "host_loop (a + 1) stop = map (\<lambda>i. u32_to_ipv4 (word_of_nat i)) [Suc (unat a)..<Suc (unat stop)]"
      using "1.IH" [OF False] lt s by simp
    moreover have "[unat a..<Suc (unat stop)] = unat a # [Suc (unat a)..<Suc (unat stop)]"
      using lt by (intro upt_conv_Cons) simp
    ultimately show ?thesis using False by (subst host_loop.simps) simp
  qed
qed

lemma mask_parts:
  fixes v :: "32 word"
  assumes "h \<le> 32"
  shows "unat (v AND push_bit h (- 1)) = unat v div 2 ^ h * 2 ^ h"
proof -
  have "v AND push_bit h (- 1) = push_bit h (drop_bit h v)"
    by (rule bit_word_eqI) (auto simp: bit_simps)
  then have "unat (v AND push_bit h (- 1)) = take_bit 32 (push_bit h (drop_bit h (unat v)))"
    by (simp only: unsigned_push_bit_eq unat_drop_bit_eq) simp
  then have "unat (v AND push_bit h (- 1)) = (unat v div 2 ^ h * 2 ^ h) mod 2 ^ 32"
    by (simp only: push_bit_eq_mult drop_bit_eq_div take_bit_eq_mod)
  moreover have "unat v div 2 ^ h * 2 ^ h < 2 ^ 32"
    by (rule le_less_trans [OF div_times_less_eq_dividend]) (use unsigned_less [of v, where 'a = nat] in simp)
  ultimately show ?thesis by simp
qed

lemma broadcast_part:
  fixes v :: "32 word"
  assumes "h \<le> 32"
  shows "unat ((v AND push_bit h (- 1)) OR NOT (push_bit h (- 1))) = unat v div 2 ^ h * 2 ^ h + (2 ^ h - 1)"
proof -
  let ?n = "v AND push_bit h (- 1)" and ?m = "NOT (push_bit h (- 1)) :: 32 word"
  have m: "?m = take_bit h (- 1)" by (rule bit_word_eqI) (auto simp: bit_simps)
  have "?n OR ?m = ?n + ?m" by (rule disjunctive_add [symmetric]) (auto simp: bit_simps)
  moreover have "unat ?m = 2 ^ h - 1"
    using assms by (simp only: m unsigned_take_bit_eq unsigned_minus_1_eq_mask take_bit_of_mask)
      (simp add: mask_eq_exp_minus_1 min_def)
  moreover have "unat v div 2 ^ h * 2 ^ h + (2 ^ h - 1) < 2 ^ 32"
  proof -
    have "unat v < 2 ^ 32" using unsigned_less [of v, where 'a = nat] by simp
    also have "(2::nat) ^ 32 = 2 ^ (32 - h) * 2 ^ h" using assms by (simp flip: power_add)
    finally have "unat v div 2 ^ h < 2 ^ (32 - h)" by (simp add: less_mult_imp_div_less)
    then have "Suc (unat v div 2 ^ h) * 2 ^ h \<le> 2 ^ (32 - h) * 2 ^ h" by (intro mult_le_mono1) simp
    also have "\<dots> = 2 ^ 32" using assms by (simp flip: power_add)
    finally have "unat v div 2 ^ h * 2 ^ h + 2 ^ h \<le> 2 ^ 32" by simp
    moreover have "(0::nat) < 2 ^ h" by simp
    ultimately show ?thesis by linarith
  qed
  ultimately show ?thesis using mask_parts [OF assms, of v] by (simp add: unat_word_ariths(1))
qed


text \<open>The addresses a range stands for: for prefixes up to 30 without network and broadcast address.\<close>

definition cidr_range :: "nat \<Rightarrow> nat \<Rightarrow> nat list" where
  "cidr_range ip prefix =
     (let h = 32 - prefix; base = ip div 2 ^ h * 2 ^ h
      in if prefix \<le> 30 then [base + 1..<base + 2 ^ h - 1] else [base..<base + 2 ^ h])"

lemma range_top:
  assumes "h \<le> 32"
  shows "unat (v :: 32 word) div 2 ^ h * 2 ^ h + 2 ^ h \<le> 2 ^ 32"
proof -
  have "unat v < 2 ^ 32" using unsigned_less [of v, where 'a = nat] by simp
  also have "(2::nat) ^ 32 = 2 ^ (32 - h) * 2 ^ h" using assms by (simp flip: power_add)
  finally have "unat v div 2 ^ h < 2 ^ (32 - h)" by (simp add: less_mult_imp_div_less)
  then have "Suc (unat v div 2 ^ h) * 2 ^ h \<le> 2 ^ (32 - h) * 2 ^ h" by (intro mult_le_mono1) simp
  also have "\<dots> = 2 ^ 32" using assms by (simp flip: power_add)
  finally show ?thesis by simp
qed

lemma unat_plus_one_32: "unat (a :: 32 word) < 2 ^ 32 - 1 \<Longrightarrow> unat (a + 1) = unat a + 1"
  by (simp add: unat_word_ariths(1))

lemma prefix_mask_eq: "p \<le> 32 \<Longrightarrow> prefix_mask (int p) = push_bit (32 - p) (- 1)"
proof -
  assume p: "p \<le> 32"
  have m1: "(0xFFFFFFFF :: 32 word) = - 1" by simp
  show ?thesis
  proof (cases "p = 0")
    case True
    have "push_bit 32 (- 1 :: 32 word) = 0" by (rule bit_word_eqI) (auto simp: bit_simps)
    then show ?thesis by (simp add: prefix_mask_def True)
  next
    case False
    then show ?thesis using p by (simp add: prefix_mask_def m1 nat_diff_distrib)
  qed
qed

lemma cidr_expand_eq:
  assumes p: "p \<le> 32"
  shows "cidr_expand (int p) v =
     (if p < 16 then throw (''subnet too large to scan ('' @ show_nat (2 ^ (32 - p) - 2) @
                             '' hosts); use a /16 or smaller range'')
      else ok (map (\<lambda>i. u32_to_ipv4 (word_of_nat i)) (cidr_range (unat v) p)))"
proof -
  define h where "h = 32 - p"
  define net where "net = v AND prefix_mask (int p)"
  define brd where "brd = net OR NOT (prefix_mask (int p))"
  define base where "base = unat v div 2 ^ h * 2 ^ h"
  define fst_a where "fst_a = (if p \<le> 30 then net + 1 else net)"
  define lst_a where "lst_a = (if p \<le> 30 then brd - 1 else brd)"
  have h: "h \<le> 32" by (simp add: h_def)
  have n: "unat net = base" and b: "unat brd = base + (2 ^ h - 1)"
    using mask_parts [OF h, of v] broadcast_part [OF h, of v]
    by (simp_all add: net_def brd_def prefix_mask_eq [OF p] base_def flip: h_def)
  have top: "base + 2 ^ h \<le> 2 ^ 32" unfolding base_def by (rule range_top [OF h])
  have h2: "4 \<le> (2::nat) ^ h" if "p \<le> 30"
    using that power_increasing [of 2 h "2::nat"] by (simp add: h_def)
  have f: "unat fst_a = (if p \<le> 30 then base + 1 else base)"
    using n top h2 by (auto simp: fst_a_def unat_plus_one_32)
  have l: "unat lst_a = (if p \<le> 30 then base + 2 ^ h - 2 else base + (2 ^ h - 1))"
  proof (cases "p \<le> 30")
    case True
    then have "0 < unat brd" using b h2 by simp
    then have "brd \<noteq> 0" by (auto simp: unat_gt_0)
    then show ?thesis using True b h2 [OF True] by (simp add: lst_a_def unat_minus_one)
  next
    case False
    then show ?thesis using b by (simp add: lst_a_def)
  qed
  define cnt where "cnt = (if p \<le> 30 then 2 ^ h - 2 else 2 ^ h :: nat)"
  have cnt: "uint lst_a - uint fst_a + 1 = int cnt"
  proof -
    have "int (unat lst_a) - int (unat fst_a) + 1 = int cnt"
    proof -
      obtain B where B: "(2::nat) ^ h = B" by blast
      have "1 \<le> B" "p \<le> 30 \<longrightarrow> 4 \<le> B" using h2 by (auto simp flip: B)
      then show ?thesis unfolding f l cnt_def B by auto
    qed
    then show ?thesis by simp
  qed
  have "cnt \<le> 2 ^ 32" using top by (auto simp: cnt_def)
  then have cw: "unat (word_of_int (uint lst_a - uint fst_a + 1) :: 64 word) = cnt"
    by (simp add: cnt unsigned_of_nat take_bit_nat_eq_self)
  have big: "65536 < (word_of_int (uint lst_a - uint fst_a + 1) :: 64 word) \<longleftrightarrow> p < 16"
  proof -
    have "65536 < (word_of_int (uint lst_a - uint fst_a + 1) :: 64 word) \<longleftrightarrow> 65536 < cnt"
      unfolding word_less_nat_alt cw by simp
    also have "\<dots> \<longleftrightarrow> p < 16"
    proof (cases "p < 16")
      case True
      then have "(2::nat) ^ 17 \<le> 2 ^ h" by (intro power_increasing) (simp_all add: h_def)
      then show ?thesis using True by (simp add: cnt_def)
    next
      case False
      then have "(2::nat) ^ h \<le> 2 ^ 16" by (intro power_increasing) (simp_all add: h_def)
      moreover have "cnt \<le> 2 ^ h" by (simp add: cnt_def)
      ultimately have "cnt \<le> 2 ^ 16" by (rule le_trans [rotated])
      then show ?thesis using False by simp
    qed
    finally show ?thesis .
  qed
  obtain B where B: "(2::nat) ^ h = B" by blast
  have Bp: "1 \<le> B" "p \<le> 30 \<Longrightarrow> 4 \<le> B" using h2 by (auto simp flip: B)
  have le: "unat fst_a \<le> unat lst_a" unfolding f l B using Bp by auto
  have "Suc (unat lst_a) = (if p \<le> 30 then base + 2 ^ h - 1 else base + 2 ^ h)"
    using Bp unfolding l B by auto
  then have "[unat fst_a..<Suc (unat lst_a)] = cidr_range (unat v) p"
    unfolding f cidr_range_def Let_def h_def [symmetric] base_def [symmetric] by simp
  with host_loop_range [OF le]
  have "host_loop fst_a lst_a = map (\<lambda>i. u32_to_ipv4 (word_of_nat i)) (cidr_range (unat v) p)" by simp
  moreover have "(if int p \<le> 30 then net + 1 else net) = fst_a" "(if int p \<le> 30 then brd - 1 else brd) = lst_a"
    by (simp_all add: fst_a_def lst_a_def)
  moreover have "p < 16 \<Longrightarrow> cnt = 2 ^ (32 - p) - 2" by (simp add: cnt_def h_def)
  ultimately show ?thesis
    by (simp only: cidr_expand_def Let_def net_def [symmetric] brd_def [symmetric] big cw) (simp split: if_splits)
qed

lemma slash_notin_ipv4: "CHR ''/'' \<notin> set (u32_to_ipv4 v)"
proof -
  have "CHR ''/'' \<notin> set (show_nat n)" for n
    using show_nat_digits [of n] by (auto simp: isdigit_def)
  then show ?thesis by (simp add: u32_to_ipv4_def octet_def)
qed

lemma stoi_show_nat: "int n \<le> i32_max \<Longrightarrow> stoi (show_nat n) = ok (int n)"
  using strtol10_digits [of "show_nat n"] show_nat_digits [of n]
  by (simp add: stoi_def all_digits_def i32_min_def)

lemma cidr_range_bound:
  assumes "p \<le> 32" and "i \<in> set (cidr_range (unat (v :: 32 word)) p)"
  shows "i < 2 ^ 32"
  using assms range_top [of "32 - p" v] by (auto simp: cidr_range_def Let_def split: if_splits)

lemma cidr_range_length: "16 \<le> p \<Longrightarrow> length (cidr_range ip p) \<le> 65536"
proof -
  assume "16 \<le> p"
  then have "(2::nat) ^ (32 - p) \<le> 2 ^ 16" by (intro power_increasing) simp_all
  then show ?thesis by (auto simp: cidr_range_def Let_def)
qed

lemma cidr_range_nonempty: "p \<le> 32 \<Longrightarrow> cidr_range ip p \<noteq> []"
proof (cases "p \<le> 30")
  case True
  then have "(2::nat) ^ 2 \<le> 2 ^ (32 - p)" by (intro power_increasing) simp_all
  then show ?thesis using True by (auto simp: cidr_range_def Let_def)
qed (simp add: cidr_range_def Let_def)

lemma cidr_range_sorted: "sorted (cidr_range ip p)" "distinct (cidr_range ip p)"
  by (simp_all add: cidr_range_def Let_def)

lemma cidr_hosts_ok:
  assumes "cidr_hosts cidr = ok hosts"
  obtains p and v :: "32 word" where "16 \<le> p" "p \<le> 32" "hosts = map (\<lambda>i. u32_to_ipv4 (word_of_nat i)) (cidr_range (unat v) p)"
proof -
  obtain prefix v where k: "0 \<le> prefix" "prefix \<le> 32" and e: "cidr_expand prefix v = ok hosts"
    using assms by (fastforce simp: cidr_hosts_def res_simps not_less split: option.splits if_splits)
  then obtain p where p: "prefix = int p" "p \<le> 32" by (metis nat_le_iff zero_le_imp_eq_int of_nat_le_iff of_nat_numeral)
  with e have "\<not> p < 16" "hosts = map (\<lambda>i. u32_to_ipv4 (word_of_nat i)) (cidr_range (unat v) p)"
    by (auto simp: cidr_expand_eq split: if_splits)
  then show ?thesis using p(2) by (intro that [of p v]) simp_all
qed

definition ipv4_value :: "string \<Rightarrow> nat" where
  "ipv4_value s = (case ipv4_to_u32 s of Inl _ \<Rightarrow> 0 | Inr v \<Rightarrow> unat v)"

lemma ipv4_value_of_nat: "i < 2 ^ 32 \<Longrightarrow> ipv4_value (u32_to_ipv4 (word_of_nat i)) = i"
  by (simp add: ipv4_value_def ipv4_round_trip unsigned_of_nat take_bit_nat_eq_self)

lemma cidr_hosts_values:
  assumes "cidr_hosts cidr = ok hosts"
  obtains ks where "map ipv4_value hosts = ks" "sorted ks" "distinct ks" "ks \<noteq> []" "length ks \<le> 65536"
proof -
  obtain p and v :: "32 word" where p: "16 \<le> p" "p \<le> 32"
      "hosts = map (\<lambda>i. u32_to_ipv4 (word_of_nat i)) (cidr_range (unat v) p)"
    by (rule cidr_hosts_ok [OF assms])
  have "map ipv4_value hosts = cidr_range (unat v) p"
    using cidr_range_bound [OF p(2), of _ v] by (simp add: p(3) ipv4_value_of_nat map_idI)
  then show ?thesis
    using that cidr_range_sorted cidr_range_nonempty [OF p(2)] cidr_range_length [OF p(1)] by blast
qed

text \<open>
  C36. Expanding an address and prefix gives exactly the addresses of its range in ascending
  order, without network and broadcast address up to prefix 30 and inclusive for 31 and 32;
  prefixes below 16 are refused with the size of the range in the message.
\<close>

theorem cidr_hosts_exact:
  assumes "p \<le> 32"
  shows "cidr_hosts (u32_to_ipv4 v @ ''/'' @ show_nat p) =
     (if p < 16 then throw (''subnet too large to scan ('' @ show_nat (2 ^ (32 - p) - 2) @
                             '' hosts); use a /16 or smaller range'')
      else ok (map (\<lambda>i. u32_to_ipv4 (word_of_nat i)) (cidr_range (unat v) p)))"
proof -
  have "find_chr CHR ''/'' (u32_to_ipv4 v @ CHR ''/'' # show_nat p) = Some (length (u32_to_ipv4 v))"
    by (rule find_chr_append [OF slash_notin_ipv4])
  then show ?thesis
    using assms by (simp add: cidr_hosts_def substr_def substr_n_def stoi_show_nat i32_max_def
        ipv4_round_trip cidr_expand_eq)
qed

theorem cidr_hosts_exact_witness:
  "cidr_hosts (u32_to_ipv4 0xC0A80105 @ ''/'' @ show_nat 29) =
     ok (map (\<lambda>i. u32_to_ipv4 (word_of_nat i)) (cidr_range (unat (0xC0A80105 :: 32 word)) 29))"
  using cidr_hosts_exact [where p = 29 and v = "0xC0A80105"] by simp

text \<open>
  Whatever the text, a range that is accepted is not empty, has at most 65536 hosts, and
  its hosts are valid addresses in strictly ascending order.
\<close>

theorem cidr_hosts_bounded:
  assumes "cidr_hosts cidr = ok hosts"
  shows "hosts \<noteq> [] \<and> length hosts \<le> 65536 \<and> (\<forall>h\<in>set hosts. is_ok (ipv4_to_u32 h)) \<and>
    sorted (map ipv4_value hosts) \<and> distinct (map ipv4_value hosts)"
proof -
  obtain ks where "map ipv4_value hosts = ks" "sorted ks" "distinct ks" "ks \<noteq> []" "length ks \<le> 65536"
    using cidr_hosts_values [OF assms] .
  moreover have "\<forall>h\<in>set hosts. is_ok (ipv4_to_u32 h)"
    using cidr_hosts_ok [OF assms] by (metis (no_types, lifting) imageE is_ok_simps(2) ipv4_round_trip list.set_map)
  ultimately show ?thesis by (metis length_map list.simps(8))
qed

theorem cidr_hosts_bounded_witness:
  "\<exists>hosts. cidr_hosts (u32_to_ipv4 0x0A000000 @ ''/'' @ show_nat 16) = ok hosts \<and> length hosts \<le> 65536"
proof -
  have "cidr_hosts (u32_to_ipv4 0x0A000000 @ ''/'' @ show_nat 16) =
     ok (map (\<lambda>i. u32_to_ipv4 (word_of_nat i)) (cidr_range (unat (0x0A000000 :: 32 word)) 16))"
    by (simp add: cidr_hosts_def substr_def substr_n_def find_chr_append [OF slash_notin_ipv4] stoi_show_nat
        i32_max_def ipv4_round_trip cidr_expand_eq [where p = 16, simplified])
  with cidr_hosts_bounded [OF this] show ?thesis by blast
qed

section \<open>Scans\<close>

definition found :: "(string \<Rightarrow> UnitInfo result) \<Rightarrow> string list \<Rightarrow> Discovered list" where
  "found probe hosts = List.map_filter
     (\<lambda>h. case probe h of Inl _ \<Rightarrow> None | Inr u \<Rightarrow> Some \<lparr>dc_ip = h, dc_info = u\<rparr>) hosts"

lemma map_filter_nth: "List.map_filter (\<lambda>i. f (xs ! i)) [0..<length xs] = List.map_filter f xs"
proof -
  have "List.map_filter f (map (nth xs) [0..<length xs]) = List.map_filter (\<lambda>i. f (xs ! i)) [0..<length xs]"
    by (simp add: List.map_filter_def filter_map comp_def)
  then show ?thesis by (simp add: map_nth)
qed

lemma pool_size_pos: "0 < pool_size c n"
  by (simp add: pool_size_def)

lemma map_filter_key:
  "(\<And>x y. f x = Some y \<Longrightarrow> k y = g x) \<Longrightarrow> map k (List.map_filter f xs) = map g (filter (\<lambda>x. f x \<noteq> None) xs)"
  by (induction xs) (auto simp: map_filter_simps split: option.splits)

lemma scan_sorted:
  assumes key: "\<And>x y. f x = Some y \<Longrightarrow> k y = g x" and "sorted (map g xs)" and "distinct (map g xs)"
    and "mset rs = mset (List.map_filter f xs)"
  shows "sort_key k rs = List.map_filter f xs"
proof (rule sort_key_inj_key_eq)
  let ?ys = "filter (\<lambda>x. f x \<noteq> None) xs"
  have m: "map k (List.map_filter f xs) = map g ?ys" by (rule map_filter_key [OF key])
  show "sorted (map k (List.map_filter f xs))"
    unfolding m using assms(2) by (rule sorted_filter)
  have "distinct (map k (List.map_filter f xs))"
    unfolding m using assms(3) by (rule distinct_map_filter)
  then have "inj_on k (set (List.map_filter f xs))" by (simp add: distinct_map)
  moreover have "set rs = set (List.map_filter f xs)" using assms(4) by (metis set_mset_mset)
  ultimately show "inj_on k (set rs)" by simp
qed (use assms(4) in simp)

text \<open>
  C11. The network scan does not depend on how the workers interleave: whenever all workers have
  ended, the result is the list of the hosts of the range that answered with a valid unit
  information, in ascending order, and any schedule that gives each worker enough turns
  ends all of them.
\<close>

theorem discover_schedule_independent:
  assumes "cidr_hosts cidr = ok hosts"
  shows "discover cidr concurrency probe sched \<in> {None, Some (ok (found probe hosts))} \<and>
    ((\<forall>k<pool_size concurrency (length hosts). 2 * length hosts + 1 \<le> count_list sched k) \<longrightarrow>
      discover cidr concurrency probe sched = Some (ok (found probe hosts)))"
proof -
  define f where "f = (\<lambda>h. case probe h of Inl _ \<Rightarrow> None | Inr u \<Rightarrow> Some \<lparr>dc_ip = h, dc_info = u\<rparr>)"
  define w where "w = pool_size concurrency (length hosts)"
  define s where "s = pool_run (length hosts) (\<lambda>i. f (hosts ! i)) sched (pool_init w)"
  have d: "discover cidr concurrency probe sched =
      (if joined s then Some (ok (sort_key ip_key (pl_res s))) else None)"
    by (simp add: discover_def assms Let_def s_def f_def w_def)
  have "sort_key ip_key (pl_res s) = found probe hosts" if "joined s"
  proof -
    have "mset (pl_res s) = mset (List.map_filter f hosts)"
      using pool_joined_results [OF that [unfolded s_def]] pool_size_pos
      by (simp add: s_def w_def map_filter_nth)
    moreover have "sorted (map ipv4_value hosts)" "distinct (map ipv4_value hosts)"
      using cidr_hosts_values [OF assms] by metis+
    moreover have "\<And>x y. f x = Some y \<Longrightarrow> ip_key y = ipv4_value x"
      by (auto simp: f_def ip_key_def ipv4_value_def split: sum.splits)
    ultimately show ?thesis unfolding found_def f_def [symmetric] by (intro scan_sorted)
  qed
  moreover have "joined s" if "\<forall>k<w. 2 * length hosts + 1 \<le> count_list sched k"
    unfolding s_def by (rule pool_joins [OF that])
  ultimately show ?thesis by (auto simp: d w_def)
qed

section \<open>Serial candidates\<close>

definition dev_key :: "(string \<Rightarrow> string option) \<Rightarrow> string \<Rightarrow> string" where
  "dev_key realpath path = (case realpath path of None \<Rightarrow> path | Some rp \<Rightarrow> rp)"

lemma add_device_simp:
  "add_device rp path (ds, seen) =
     (if dev_key rp path \<in> set seen then (ds, seen) else (ds @ [path], dev_key rp path # seen))"
  by (simp add: add_device_def dev_key_def)

text \<open>The queued devices have distinct keys, all of them seen, and every candidate's key is seen.\<close>

lemma fold_add_device:
  assumes "set (map (dev_key rp) ds) = set seen" and "distinct (map (dev_key rp) ds)"
    and "fold (add_device rp) ps (ds, seen) = (ds', seen')"
  shows "set (map (dev_key rp) ds') = set seen' \<and> distinct (map (dev_key rp) ds') \<and>
    set seen' = set seen \<union> dev_key rp ` set ps \<and> (\<exists>more. ds' = ds @ more \<and> set more \<subseteq> set ps)"
  using assms
proof (induction ps arbitrary: ds seen)
  case Nil
  then show ?case by simp
next
  case (Cons p ps)
  show ?case
  proof (cases "dev_key rp p \<in> set seen")
    case True
    then show ?thesis using Cons.IH [of ds seen] Cons.prems by (auto simp: add_device_simp)
  next
    case False
    have c: "fold (add_device rp) ps (ds @ [p], dev_key rp p # seen) = (ds', seen')"
      using Cons.prems(3) False by (simp add: add_device_simp)
    have a: "set (map (dev_key rp) (ds @ [p])) = set (dev_key rp p # seen)"
      using Cons.prems(1) by simp
    have "dev_key rp p \<notin> set (map (dev_key rp) ds)" using False Cons.prems(1) by metis
    then have b: "distinct (map (dev_key rp) (ds @ [p]))"
      using Cons.prems(2) by simp
    note * = Cons.IH [OF a b c]
    note i = conjunct1 [OF *] and ii = conjunct1 [OF conjunct2 [OF *]]
      and iii = conjunct1 [OF conjunct2 [OF conjunct2 [OF *]]]
    from * obtain more where m: "ds' = (ds @ [p]) @ more" "set more \<subseteq> set ps" by (elim conjE exE)
    have iv: "set seen' = set seen \<union> dev_key rp ` set (p # ps)" unfolding iii by simp
    have "ds' = ds @ (p # more)" "set (p # more) \<subseteq> set (p # ps)" using m by auto
    then have v: "\<exists>more. ds' = ds @ more \<and> set more \<subseteq> set (p # ps)" by (intro exI conjI)
    show ?thesis by (intro conjI i ii iv v)
  qed
qed

lemma enumerate_facts:
  assumes "ds = enumerate_serial_devices rp by_id dev"
  shows "distinct (map (dev_key rp) ds)"
    and "dev_key rp ` set ds = dev_key rp ` set (by_id_paths by_id @ tty_paths dev)"
    and "set ds \<subseteq> set (by_id_paths by_id @ tty_paths dev)"
proof -
  obtain ds' seen' where f: "fold (add_device rp) (by_id_paths by_id @ tty_paths dev) ([], []) = (ds', seen')"
    by (cases "fold (add_device rp) (by_id_paths by_id @ tty_paths dev) ([], [])")
  have "ds' = ds" using assms f by (simp add: enumerate_serial_devices_def)
  with fold_add_device [OF _ _ f] show "distinct (map (dev_key rp) ds)"
    "dev_key rp ` set ds = dev_key rp ` set (by_id_paths by_id @ tty_paths dev)"
    "set ds \<subseteq> set (by_id_paths by_id @ tty_paths dev)" by auto
qed

text \<open>The first candidate with a key is the one kept: by-id names win over tty names.\<close>

lemma fold_add_device_prefix:
  "\<exists>more. fst (fold (add_device rp) ps (ds, seen)) = ds @ more"
proof (induction ps arbitrary: ds seen)
  case Nil
  then show ?case by simp
next
  case (Cons p ps)
  show ?case
    using Cons.IH [of ds seen] Cons.IH [of "ds @ [p]" "dev_key rp p # seen"] by (auto simp: add_device_simp)
qed

lemma fold_add_device_distinct:
  "distinct (map (dev_key rp) ps) \<Longrightarrow> set seen \<inter> dev_key rp ` set ps = {} \<Longrightarrow>
   fst (fold (add_device rp) ps (ds, seen)) = ds @ ps"
  by (induction ps arbitrary: ds seen) (auto simp: add_device_simp)

text \<open>
  C37. The serial enumeration queues each physical device once: the resolved targets of the
  queued paths are pairwise different and are exactly the targets of all candidates, and
  the stable by-id names come first: when they resolve to different devices, all of them are kept.
\<close>

theorem enumerate_serial_once:
  "distinct (map (dev_key rp) (enumerate_serial_devices rp by_id dev)) \<and>
   dev_key rp ` set (enumerate_serial_devices rp by_id dev) = dev_key rp ` set (by_id_paths by_id @ tty_paths dev) \<and>
   (distinct (map (dev_key rp) (by_id_paths by_id)) \<longrightarrow>
     (\<exists>more. enumerate_serial_devices rp by_id dev = by_id_paths by_id @ more))"
proof -
  have "\<exists>more. enumerate_serial_devices rp by_id dev = by_id_paths by_id @ more"
    if d: "distinct (map (dev_key rp) (by_id_paths by_id))"
  proof -
    obtain ds seen where f: "fold (add_device rp) (by_id_paths by_id) ([], []) = (ds, seen)"
      by (cases "fold (add_device rp) (by_id_paths by_id) ([], [])")
    with fold_add_device_distinct [OF d, of "[]" "[]"] have "ds = by_id_paths by_id" by simp
    with f fold_add_device_prefix [of rp "tty_paths dev" ds seen] show ?thesis
      by (simp add: enumerate_serial_devices_def)
  qed
  with enumerate_facts [OF refl, of rp by_id dev] show ?thesis by blast
qed

theorem enumerate_serial_once_witness:
  "\<exists>more. enumerate_serial_devices Some (Some [''usb-SQM'', ''..'']) (Some [''ttyUSB0'']) = ''/dev/serial/by-id/usb-SQM'' # more"
  using enumerate_serial_once [of Some "Some [''usb-SQM'', ''..'']" "Some [''ttyUSB0'']"]
  by (simp add: by_id_paths_def starts_with_def)

theorem discover_schedule_independent_witness:
  "discover (u32_to_ipv4 0x7F000001 @ ''/'' @ show_nat 32) 128
     (\<lambda>ip. ok \<lparr>ui_protocol = 2, ui_model = 3, ui_feature = 1, ui_serial = ''00000413'', ui_raw = ''i''\<rparr>) [0, 0, 0] =
   Some (ok [\<lparr>dc_ip = u32_to_ipv4 0x7F000001,
     dc_info = \<lparr>ui_protocol = 2, ui_model = 3, ui_feature = 1, ui_serial = ''00000413'', ui_raw = ''i''\<rparr>\<rparr>])"
proof -
  let ?c = "u32_to_ipv4 0x7F000001 @ ''/'' @ show_nat 32"
  have "cidr_range (unat (0x7F000001 :: 32 word)) 32 = [0x7F000001]"
    by (simp add: cidr_range_def upt_conv_Cons)
  then have "cidr_hosts ?c = ok [u32_to_ipv4 0x7F000001]"
    by (simp add: cidr_hosts_def substr_def substr_n_def find_chr_append [OF slash_notin_ipv4] stoi_show_nat
        i32_max_def ipv4_round_trip cidr_expand_eq [where p = 32, simplified])
  from discover_schedule_independent [OF this, of 128 _ "[0, 0, 0]"]
  show ?thesis by (simp add: pool_size_def to_i32_id i32_min_def i32_max_def found_def map_filter_simps)
qed

lemma distinct_devices: "distinct (enumerate_serial_devices rp by_id dev)"
  using enumerate_facts(1) [OF refl] by (metis distinct_map)

definition found_serial :: "(string \<Rightarrow> UnitInfo result) \<Rightarrow> string list \<Rightarrow> DiscoveredSerial list" where
  "found_serial probe devs = List.map_filter
     (\<lambda>d. case probe d of Inl _ \<Rightarrow> None | Inr u \<Rightarrow> Some \<lparr>ds_device = d, ds_info = u\<rparr>) devs"

lemma mset_map_filter: "mset xs = mset ys \<Longrightarrow> mset (List.map_filter f xs) = mset (List.map_filter f ys)"
  by (simp add: List.map_filter_def flip: mset_map mset_filter) (metis mset_filter mset_map)

lemma discover_serial_sorted:
  assumes "distinct devices"
  shows "discover_serial devices probe sched \<in> {None, Some (found_serial probe (sort devices))}"
proof (cases "devices = []")
  case True
  then show ?thesis by (simp add: discover_serial_def found_serial_def map_filter_simps)
next
  case False
  define f where "f = (\<lambda>d. case probe d of Inl _ \<Rightarrow> None | Inr u \<Rightarrow> Some \<lparr>ds_device = d, ds_info = u\<rparr>)"
  define s where "s = pool_run (length devices) (\<lambda>i. f (devices ! i)) sched (pool_init (pool_size 8 (length devices)))"
  have d: "discover_serial devices probe sched =
      (if joined s then Some (sort_key ds_device (pl_res s)) else None)"
    by (simp add: discover_serial_def False Let_def s_def f_def)
  have "sort_key ds_device (pl_res s) = found_serial probe (sort devices)" if "joined s"
  proof -
    have "mset (pl_res s) = mset (List.map_filter f devices)"
      using pool_joined_results [OF that [unfolded s_def]] pool_size_pos by (simp add: s_def map_filter_nth)
    also have "\<dots> = mset (List.map_filter f (sort devices))" by (rule mset_map_filter) simp
    finally have "mset (pl_res s) = mset (List.map_filter f (sort devices))" .
    moreover have "sorted (map id (sort devices))" "distinct (map id (sort devices))"
      using assms by simp_all
    moreover have "\<And>x y. f x = Some y \<Longrightarrow> ds_device y = id x"
      by (auto simp: f_def split: sum.splits)
    ultimately show ?thesis unfolding found_serial_def f_def [symmetric] by (intro scan_sorted)
  qed
  then show ?thesis by (simp add: d)
qed

end
