(* ===== verification/NW_Auth.thy ===== *)
theory NW_Auth imports NW_Num begin

text \<open>
  Password hashing (\<^verbatim>\<open>src/auth/password.cpp\<close>). OpenSSL's PBKDF2 and random generator are
  arguments: \<open>kdf pw salt iters n\<close> is \<^verbatim>\<open>PKCS5_PBKDF2_HMAC\<close> with SHA-256 (\<open>None\<close> on failure),
  whose documented output has exactly \<open>n\<close> bytes; \<open>rand\<close> is what \<^verbatim>\<open>RAND_bytes\<close> filled in.
\<close>

unbundle bit_operations_syntax

section \<open>Definitions\<close>

type_synonym byte = "8 word"
type_synonym kdf = "string \<Rightarrow> byte list \<Rightarrow> int \<Rightarrow> nat \<Rightarrow> byte list option"

definition kIterations :: int where "kIterations = 120000"
definition kSaltLen :: nat where "kSaltLen = 16"
definition kHashLen :: nat where "kHashLen = 32"

definition hex_chr :: "nat \<Rightarrow> char" where
  "hex_chr n = ''0123456789abcdef'' ! n"

definition to_hex :: "byte list \<Rightarrow> string" where
  "to_hex bs = concat (map (\<lambda>b. [hex_chr (unat (drop_bit 4 b)), hex_chr (unat (b AND 0x0F))]) bs)"

text \<open>\<^verbatim>\<open>for (i = 0; i + 1 < size; i += 2) push(stoi(substr(i, 2), nullptr, 16))\<close>\<close>

fun from_hex :: "string \<Rightarrow> byte list result" where
  "from_hex (a # b # r) =
     then_res (stoi16 [a, b]) (\<lambda>v. then_res (from_hex r) (\<lambda>bs. ok (word_of_int v # bs)))"
| "from_hex _ = ok []"

definition pbkdf2 :: "kdf \<Rightarrow> string \<Rightarrow> byte list \<Rightarrow> int \<Rightarrow> nat \<Rightarrow> byte list result" where
  "pbkdf2 kdf pw salt iters outlen =
     (case kdf pw salt iters outlen of
        None \<Rightarrow> throw ''PBKDF2 derivation failed'' | Some out \<Rightarrow> ok out)"

definition hash_password :: "kdf \<Rightarrow> byte list option \<Rightarrow> string \<Rightarrow> string result" where
  "hash_password kdf rand password =
     (case rand of
        None \<Rightarrow> throw ''RAND_bytes failed''
      | Some salt \<Rightarrow>
          then_res (pbkdf2 kdf password salt kIterations kHashLen) (\<lambda>h.
            ok (''pbkdf2_sha256$'' @ show_int kIterations @ ''$'' @ to_hex salt @ ''$'' @ to_hex h)))"

text \<open>The comparison that looks at every byte.\<close>

definition bytes_diff :: "byte list \<Rightarrow> byte list \<Rightarrow> byte" where
  "bytes_diff xs ys = foldl (\<lambda>d (x, y). d OR (x XOR y)) 0 (zip xs ys)"

definition verify_password :: "kdf \<Rightarrow> string \<Rightarrow> string \<Rightarrow> bool result" where
  "verify_password kdf password encoded =
     (let parts = getline_split encoded CHR ''$''
      in if length parts \<noteq> 4 \<or> parts ! 0 \<noteq> ''pbkdf2_sha256'' then ok False
         else case stoi (parts ! 1) of
           Inl _ \<Rightarrow> ok False
         | Inr iters \<Rightarrow>
             if iters < 1 then ok False
             else then_res (from_hex (parts ! 2)) (\<lambda>salt.
                  then_res (from_hex (parts ! 3)) (\<lambda>expected.
                    if salt = [] \<or> expected = [] then ok False
                    else then_res (pbkdf2 kdf password salt iters (length expected)) (\<lambda>actual.
                      if length actual \<noteq> length expected then ok False
                      else ok (bytes_diff actual expected = 0)))))"

definition random_hex :: "byte list option \<Rightarrow> string result" where
  "random_hex rand = (case rand of None \<Rightarrow> throw ''RAND_bytes failed'' | Some b \<Rightarrow> ok (to_hex b))"

section \<open>Lemmas\<close>

lemma nibbles: "unat (drop_bit 4 b) < 16" "unat (b AND 0x0F) < 16"
  "16 * unat (drop_bit 4 b) + unat (b AND 0x0F) = unat (b :: byte)"
proof -
  have "b AND 0x0F = take_bit 4 b" by (simp add: take_bit_eq_mask mask_eq_exp_minus_1)
  then have lo: "unat (b AND 0x0F) = unat b mod 16"
    by (simp only: unsigned_take_bit_eq) (simp add: take_bit_eq_mod)
  have hi: "unat (drop_bit 4 b) = unat b div 16"
    by (simp only: unat_drop_bit_eq) (simp add: drop_bit_eq_div)
  have "unat b < 256" using unsigned_less [of b, where 'a = nat] by simp
  then show "unat (drop_bit 4 b) < 16" by (simp add: hi)
  show "unat (b AND 0x0F) < 16" by (simp add: lo)
  show "16 * unat (drop_bit 4 b) + unat (b AND 0x0F) = unat b" by (simp add: hi lo)
qed

lemma hex_chr_facts:
  "n < 16 \<Longrightarrow> isxdigit (hex_chr n) \<and> xdigit_val (hex_chr n) = n \<and> \<not> isspace (hex_chr n) \<and>
     hex_chr n \<noteq> CHR ''-'' \<and> hex_chr n \<noteq> CHR ''+'' \<and> hex_chr n \<noteq> CHR ''x'' \<and> hex_chr n \<noteq> CHR ''X'' \<and>
     hex_chr n \<noteq> CHR ''$''"
proof -
  assume n: "n < 16"
  have "\<forall>k\<in>set [0..<16]. isxdigit (hex_chr k) \<and> xdigit_val (hex_chr k) = k \<and> \<not> isspace (hex_chr k) \<and>
     hex_chr k \<noteq> CHR ''-'' \<and> hex_chr k \<noteq> CHR ''+'' \<and> hex_chr k \<noteq> CHR ''x'' \<and> hex_chr k \<noteq> CHR ''X'' \<and>
     hex_chr k \<noteq> CHR ''$''"
    by (simp add: upt_rec [of _ 16] hex_chr_def isxdigit_def xdigit_val_def isdigit_def isspace_def)
  then show ?thesis using n by simp
qed

lemma stoi16_pair:
  assumes "h < 16" and "l < 16"
  shows "stoi16 [hex_chr h, hex_chr l] = ok (int (16 * h + l))"
proof -
  note f = hex_chr_facts [OF assms(1)] hex_chr_facts [OF assms(2)]
  have "strip_sign (dropWhile isspace [hex_chr h, hex_chr l]) = (False, [hex_chr h, hex_chr l])"
    using f by (simp add: strip_sign_def)
  moreover have "\<not> hex_prefix [hex_chr h, hex_chr l]" by (simp add: hex_prefix_def)
  ultimately show ?thesis
    using f assms by (simp add: stoi16_def Let_def xdigits_val_def sgn_nat_def i32_min_def i32_max_def)
qed

lemma from_hex_to_hex: "from_hex (to_hex bs) = ok bs"
proof (induction bs)
  case Nil
  then show ?case by (simp add: to_hex_def)
next
  case (Cons b bs)
  have "to_hex (b # bs) = hex_chr (unat (drop_bit 4 b)) # hex_chr (unat (b AND 0x0F)) # to_hex bs"
    by (simp add: to_hex_def)
  then show ?case
    using Cons nibbles [of b] by (simp add: stoi16_pair flip: of_nat_mult of_nat_add)
qed

lemma to_hex_chars: "c \<in> set (to_hex bs) \<Longrightarrow> isxdigit c \<and> c \<noteq> CHR ''$''"
  using nibbles hex_chr_facts by (auto simp: to_hex_def)

lemma to_hex_length: "length (to_hex bs) = 2 * length bs"
  by (induction bs) (auto simp: to_hex_def)

lemma bytes_diff_acc:
  "length xs = length ys \<Longrightarrow>
   foldl (\<lambda>d (x, y). d OR (x XOR y)) (d :: byte) (zip xs ys) = 0 \<longleftrightarrow> d = 0 \<and> xs = ys"
proof (induction xs ys arbitrary: d rule: list_induct2)
  case Nil
  then show ?case by simp
next
  case (Cons x xs y ys)
  have "d OR (x XOR y) = 0 \<longleftrightarrow> d = 0 \<and> x = y"
    by (auto simp: bit_eq_iff bit_simps)
  then show ?case using Cons.IH by auto
qed

lemma bytes_diff_zero: "length xs = length ys \<Longrightarrow> bytes_diff xs ys = 0 \<longleftrightarrow> xs = ys"
  by (simp add: bytes_diff_def bytes_diff_acc)

lemma hash_parts:
  "salt \<noteq> [] \<Longrightarrow> h \<noteq> [] \<Longrightarrow>
   getline_split (''pbkdf2_sha256$'' @ show_int kIterations @ ''$'' @ to_hex salt @ ''$'' @ to_hex h) CHR ''$'' =
     [''pbkdf2_sha256'', show_int kIterations, to_hex salt, to_hex h]"
proof -
  assume ne: "salt \<noteq> []" "h \<noteq> []"
  have i: "CHR ''$'' \<notin> set (show_int kIterations)"
    using show_nat_digits [of 120000] by (auto simp: show_int_def kIterations_def isdigit_def)
  have x: "CHR ''$'' \<notin> set (to_hex bs)" for bs using to_hex_chars by blast
  have "to_hex h \<noteq> []" using ne(2) to_hex_length [of h] by (metis length_0_conv mult_eq_0_iff zero_neq_numeral)
  then have "getline_split (''pbkdf2_sha256'' @ CHR ''$'' # show_int kIterations @ CHR ''$'' # to_hex salt @ CHR ''$'' # to_hex h) CHR ''$'' =
     [''pbkdf2_sha256'', show_int kIterations, to_hex salt, to_hex h]"
    using i x by (subst getline_split_step, simp)+ (simp add: getline_split_last)
  then show ?thesis by simp
qed

lemma stoi_iterations: "stoi (show_int kIterations) = ok kIterations"
  by code_simp

lemma hash_verifies:
  assumes len: "\<And>pw s i n out. kdf pw s i n = Some out \<Longrightarrow> length out = n"
    and salt: "length salt = kSaltLen" and enc: "hash_password kdf (Some salt) p = ok enc"
  shows "verify_password kdf p enc = ok True \<and>
    (\<forall>q h. kdf q salt kIterations kHashLen = Some h \<longrightarrow>
       verify_password kdf q enc = ok (kdf p salt kIterations kHashLen = Some h))"
proof -
  obtain k where k: "kdf p salt kIterations kHashLen = Some k"
    and e: "enc = ''pbkdf2_sha256$'' @ show_int kIterations @ ''$'' @ to_hex salt @ ''$'' @ to_hex k"
    using enc by (auto simp: hash_password_def pbkdf2_def split: option.splits)
  have ne: "salt \<noteq> []" "k \<noteq> []" "length k = kHashLen"
    using salt len [OF k] by (auto simp: kSaltLen_def kHashLen_def)
  have parts: "getline_split enc CHR ''$'' = [''pbkdf2_sha256'', show_int kIterations, to_hex salt, to_hex k]"
    unfolding e by (rule hash_parts [OF ne(1,2)])
  have "verify_password kdf q enc = ok (k = h)" if "kdf q salt kIterations kHashLen = Some h" for q h
    using that len [OF that] ne
    by (auto simp: verify_password_def Let_def parts stoi_iterations from_hex_to_hex pbkdf2_def bytes_diff_zero)
      (simp_all add: kIterations_def)
  then show ?thesis using k by auto
qed

text \<open>
  C24. A stored password hash is accepted for a password exactly when the derived key equals
  the stored one: in particular for the password it was made from. It needs of the key derivation only
  that a success returns as many bytes as asked for.
\<close>

theorem verify_hash_password:
  assumes len: "\<And>pw s i n out. kdf pw s i n = Some out \<Longrightarrow> length out = n"
    and salt: "length salt = kSaltLen" and enc: "hash_password kdf (Some salt) p = ok enc"
  shows "verify_password kdf p enc = ok True \<and>
    (\<forall>q h. kdf q salt kIterations kHashLen = Some h \<longrightarrow>
       verify_password kdf q enc = ok (kdf p salt kIterations kHashLen = Some h))"
  by (rule hash_verifies [OF assms])

theorem verify_hash_password_witness:
  "\<exists>enc. hash_password (\<lambda>pw s i n. Some (replicate n (word_of_nat (length pw)))) (Some (replicate 16 7)) ''secret'' = ok enc \<and>
     verify_password (\<lambda>pw s i n. Some (replicate n (word_of_nat (length pw)))) ''secret'' enc = ok True \<and>
     verify_password (\<lambda>pw s i n. Some (replicate n (word_of_nat (length pw)))) ''wrong'' enc = ok False"
proof -
  let ?kdf = "\<lambda>pw s i n. Some (replicate n (word_of_nat (length pw) :: byte))"
  obtain enc where enc: "hash_password ?kdf (Some (replicate 16 7)) ''secret'' = ok enc"
    by (simp add: hash_password_def pbkdf2_def)
  have "length (replicate 16 7 :: byte list) = kSaltLen" by (simp add: kSaltLen_def)
  from verify_hash_password [OF _ this enc]
  show ?thesis using enc by (auto simp: kHashLen_def)
qed

text \<open>
  The hex encoding of hashes, salts and session tokens loses nothing: decoding gives
  back the bytes.
\<close>

theorem hex_round_trip: "from_hex (to_hex bs) = ok bs \<and> length (to_hex bs) = 2 * length bs"
  by (simp add: from_hex_to_hex to_hex_length)

end
