(* ===== verification/NW_Api.thy ===== *)
theory NW_Api imports NW_ApiJson NW_Export NW_Weather NW_Device NW_Discovery NW_Auth begin

text \<open>
  The HTTP/JSON API (\<^verbatim>\<open>src/api/http_server.cpp\<close>): requests and responses, authorization, and one
  definition per handler. The HTTP library, the database connection, the devices and the platform
  helper are fields of the record \<open>api\<close>, which stands for what the handlers capture; a handler
  takes it, the request and the world. A thrown exception is one that leaves the handler.
\<close>

section \<open>Requests, responses, captures\<close>

text \<open>The accessors of a request as fields; a header that is not there is the empty string.\<close>

record request =
  rq_method :: string
  rq_path :: string
  rq_target :: string
  rq_header :: "string \<Rightarrow> string"
  rq_param :: "string \<Rightarrow> string option"
  rq_body :: string
  rq_match :: string

datatype content = NoContent | JsonContent json | TextContent string string

record response =
  rs_status :: int
  rs_headers :: "(string \<times> string) list"
  rs_content :: content

record 's api =
  ap_open :: "('s, unit) db"
  ap_conn :: "'s conn"
  ap_sv :: "'s services"
  ap_version :: string
  ap_token :: string
  ap_schema_file :: string
  ap_bind :: string
  ap_port :: int
  ap_tls :: bool
  ap_gated :: bool
  ap_reload :: "('s \<Rightarrow> 's) option"
  ap_apply :: "('s \<Rightarrow> 's) option"
  ap_dev :: "open_req \<Rightarrow> ('s, nat) db"
  ap_wr :: "nat \<Rightarrow> 's wr_op"
  ap_rd :: "nat \<Rightarrow> 's rd_op"
  ap_scan :: "string \<Rightarrow> ('s, Discovered list) db"
  ap_scan_usb :: "('s, DiscoveredSerial list) db"
  ap_kdf :: kdf
  ap_rand :: "nat \<Rightarrow> 's \<Rightarrow> byte list option \<times> 's"
  ap_file :: "string \<Rightarrow> 's \<Rightarrow> string option"
  ap_static :: "string \<Rightarrow> (string \<times> string) option"
  ap_helper :: "'s \<Rightarrow> bool"
  ap_forward :: "string \<Rightarrow> string \<Rightarrow> string \<Rightarrow> string \<Rightarrow> 's \<Rightarrow> (int \<times> string \<times> string) option \<times> 's"

type_synonym 's handler = "'s api \<Rightarrow> request \<Rightarrow> ('s, response) db"

definition reply_json :: "int \<Rightarrow> json \<Rightarrow> response" where
  "reply_json status j = \<lparr>rs_status = status, rs_headers = [], rs_content = JsonContent j\<rparr>"

definition reply_err :: "int \<Rightarrow> string \<Rightarrow> response" where
  "reply_err status msg = reply_json status (obj [(''error'', JStr msg)])"

text \<open>\<open>send\<close> and \<open>send_err\<close> as the end of a handler.\<close>

definition send :: "int \<Rightarrow> json \<Rightarrow> ('s, response) db" where
  "send status j = db_ret (reply_json status j)"

definition send_err :: "int \<Rightarrow> string \<Rightarrow> ('s, response) db" where
  "send_err status msg = db_ret (reply_err status msg)"

text \<open>\<^verbatim>\<open>try { Database db(dbc); m } catch (e) { send_err(status, e.what()); }\<close>\<close>

definition with_db :: "'s api \<Rightarrow> ('s, 'a) db \<Rightarrow> ('s, 'a) db" where
  "with_db a m = db_bind (ap_open a) (\<lambda>_. m)"

definition or_error :: "int \<Rightarrow> ('s, response) db \<Rightarrow> ('s, response) db" where
  "or_error status m = db_catch m (\<lambda>e. send_err status e)"

definition db_try :: "('s, 'a) db \<Rightarrow> ('s, 'a result) db" where
  "db_try m s = (case m s of (r, s') \<Rightarrow> (ok r, s'))"

definition send_list :: "('a \<Rightarrow> json) \<Rightarrow> ('s, 'a list) db \<Rightarrow> ('s, response) db" where
  "send_list f m = db_bind m (\<lambda>xs. send 200 (JArr (map f xs)))"

definition or_404 :: "string \<Rightarrow> 'a option \<Rightarrow> ('a \<Rightarrow> ('s, response) db) \<Rightarrow> ('s, response) db" where
  "or_404 what x f = (case x of None \<Rightarrow> send_err 404 (''no such '' @ what) | Some y \<Rightarrow> f y)"

definition int_param :: "request \<Rightarrow> string \<Rightarrow> int \<Rightarrow> int" where
  "int_param rq k d = (case rq_param rq k of None \<Rightarrow> d | Some v \<Rightarrow> atoi v)"

definition str_param :: "request \<Rightarrow> string \<Rightarrow> string" where
  "str_param rq k = (case rq_param rq k of None \<Rightarrow> [] | Some v \<Rightarrow> v)"

definition json_body :: "'s api \<Rightarrow> request \<Rightarrow> (json \<Rightarrow> ('s, response) db) \<Rightarrow> ('s, response) db" where
  "json_body a rq f = (case sv_parse (ap_sv a) (rq_body rq) of Inl _ \<Rightarrow> send_err 400 ''invalid JSON'' | Inr b \<Rightarrow> f b)"

definition call_back :: "('s \<Rightarrow> 's) option \<Rightarrow> ('s, unit) db" where
  "call_back f s = (ok (), case f of None \<Rightarrow> s | Some g \<Rightarrow> g s)"

definition open_dev :: "'s api \<Rightarrow> string \<Rightarrow> string \<Rightarrow> int \<Rightarrow> ('s, nat) db" where
  "open_dev a transport address timeout_ms = db_bind (db_lift (open_device transport address timeout_ms)) (ap_dev a)"

section \<open>Authorization\<close>

text \<open>
  The cookie named \<open>nm\<close>: the loop over the positions of the header, on what is left of it.
\<close>

definition blank :: "char \<Rightarrow> bool" where
  "blank c \<longleftrightarrow> c = CHR '' '' \<or> c = CHR 0x09"

function cookie_in :: "string \<Rightarrow> string \<Rightarrow> string" where
  "cookie_in nm c =
     (if c = [] then []
      else case find_chr CHR ''='' c of
          None \<Rightarrow> []
        | Some eq \<Rightarrow>
            let key = dropWhile blank (substr_n c 0 eq); after = substr c (eq + 1)
            in if key = nm then takeWhile (\<lambda>x. x \<noteq> CHR '';'') after
               else case find_chr CHR '';'' after of
                   None \<Rightarrow> []
                 | Some semi \<Rightarrow> cookie_in nm (substr after (semi + 1)))"
  by pat_completeness auto
termination
  by (relation "measure (\<lambda>(nm, c). length c)") (auto simp: substr_def Let_def)

definition get_cookie :: "request \<Rightarrow> string \<Rightarrow> string" where
  "get_cookie rq nm = cookie_in nm (rq_header rq ''Cookie'')"

definition session_token :: "request \<Rightarrow> string" where
  "session_token rq =
     (let sess = get_cookie rq ''nw_session''; h = rq_header rq ''Authorization''
      in if sess = [] \<and> starts_with ''Bearer '' h then substr h 7 else sess)"

definition token_ok :: "'s api \<Rightarrow> request \<Rightarrow> bool" where
  "token_ok a rq \<longleftrightarrow> ap_token a \<noteq> [] \<and>
     (rq_header rq ''Authorization'' = ap_token a \<or> rq_header rq ''Authorization'' = ''Bearer '' @ ap_token a)"

text \<open>The session of the request, if it has a valid one; a database error is no session.\<close>

definition session_info :: "'s api \<Rightarrow> request \<Rightarrow> ('s, SessionInfo option) db" where
  "session_info a rq =
     (let sess = session_token rq
      in if sess = [] then db_ret None
         else db_catch (with_db a (validate_session (ap_conn a) sess)) (\<lambda>_. db_ret None))"

text \<open>\<open>None\<close> when authorized, else the error response that was sent.\<close>

definition require_auth :: "'s api \<Rightarrow> request \<Rightarrow> bool \<Rightarrow> ('s, response option) db" where
  "require_auth a rq need_admin =
     (if token_ok a rq then db_ret None
      else db_bind (session_info a rq) (\<lambda>si.
        case si of
          None \<Rightarrow> db_ret (Some (reply_err 401 ''unauthorized''))
        | Some i \<Rightarrow>
            if need_admin \<and> si_role i \<noteq> ''admin'' then db_ret (Some (reply_err 403 ''admin role required''))
            else db_ret None))"

definition auth_user :: "'s api \<Rightarrow> request \<Rightarrow> ('s, string) db" where
  "auth_user a rq =
     (if token_ok a rq then db_ret ''api-token''
      else db_map (\<lambda>si. case si of None \<Rightarrow> [] | Some i \<Rightarrow> si_username i) (session_info a rq))"

definition admin_only :: "'s handler \<Rightarrow> 's handler" where
  "admin_only h a rq =
     db_bind (require_auth a rq True) (\<lambda>r. case r of Some refused \<Rightarrow> db_ret refused | None \<Rightarrow> h a rq)"

section \<open>Version, health, settings\<close>

definition get_version :: "'s handler" where
  "get_version a rq = send 200 (obj [(''version'', JStr (ap_version a))])"

definition get_health :: "'s handler" where
  "get_health a rq =
     db_bind (db_try (ap_open a)) (\<lambda>r.
       send 200 (obj ([(''status'', JStr ''ok''), (''version'', JStr (ap_version a))] @
         (case r of Inl e \<Rightarrow> [(''db'', JStr ''error''), (''db_error'', JStr e)] | Inr _ \<Rightarrow> [(''db'', JStr ''ok'')]))))"

definition server_json :: "string \<Rightarrow> int \<Rightarrow> bool \<Rightarrow> json" where
  "server_json b p t = obj [(''bind'', JStr b), (''port'', JInt p), (''tls'', JBool t)]"

definition nonempty_or :: "'a \<Rightarrow> (string \<Rightarrow> 'a) \<Rightarrow> string option \<Rightarrow> 'a" where
  "nonempty_or d f v = (case v of None \<Rightarrow> d | Some x \<Rightarrow> if x = [] then d else f x)"

definition settings_json :: "'s api \<Rightarrow> ('s, json) db" where
  "settings_json a =
     db_bind (get_setting (ap_conn a) ''api_bind'') (\<lambda>b.
     db_bind (get_setting (ap_conn a) ''api_port'') (\<lambda>p.
     db_bind (get_setting (ap_conn a) ''api_tls'') (\<lambda>t.
       let cbind = nonempty_or (ap_bind a) (\<lambda>x. x) b; cport = nonempty_or (ap_port a) atoi p;
           ctls = (case t of None \<Rightarrow> ap_tls a | Some v \<Rightarrow> v = ''on'')
       in db_ret (obj [(''running'', server_json (ap_bind a) (ap_port a) (ap_tls a)),
                       (''configured'', server_json cbind cport ctls),
                       (''restart_required'', JBool (cbind \<noteq> ap_bind a \<or> cport \<noteq> ap_port a \<or> ctls \<noteq> ap_tls a))]))))"

definition get_settings :: "'s handler" where
  "get_settings = admin_only (\<lambda>a rq. or_error 500 (with_db a (db_bind (settings_json a) (send 200))))"

text \<open>The three parts of a settings update; each may stop with an error response.\<close>

definition put_bind :: "'s api \<Rightarrow> json \<Rightarrow> ('s, response option) db" where
  "put_bind a b =
     (case str_member b ''bind'' of
        None \<Rightarrow> db_ret None
      | Some v \<Rightarrow> if valid_bind v then db_map (\<lambda>_. None) (set_setting (ap_conn a) ''api_bind'' v)
                  else db_ret (Some (reply_err 400 ''invalid bind address'')))"

definition port_of :: "json \<Rightarrow> int result" where
  "port_of v = (if is_number v then get_int v else ok (case v of JStr s \<Rightarrow> atoi s | _ \<Rightarrow> 0))"

definition put_port :: "'s api \<Rightarrow> json \<Rightarrow> ('s, response option) db" where
  "put_port a b =
     (case member b ''port'' of
        None \<Rightarrow> db_ret None
      | Some v \<Rightarrow> db_bind (db_lift (port_of v)) (\<lambda>p.
          if p < 1 \<or> 65535 < p then db_ret (Some (reply_err 400 ''port out of range (1-65535)''))
          else db_map (\<lambda>_. None) (set_setting (ap_conn a) ''api_port'' (show_int p))))"

definition tls_of :: "json \<Rightarrow> bool" where
  "tls_of v = (case v of JBool t \<Rightarrow> t
     | JStr s \<Rightarrow> s = ''on'' \<or> s = ''true'' \<or> s = ''1'' \<or> s = ''yes'' | _ \<Rightarrow> False)"

definition put_tls :: "'s api \<Rightarrow> json \<Rightarrow> ('s, unit) db" where
  "put_tls a b =
     (case member b ''tls'' of
        None \<Rightarrow> db_ret ()
      | Some v \<Rightarrow> set_setting (ap_conn a) ''api_tls'' (if tls_of v then ''on'' else ''off''))"

definition put_settings :: "'s handler" where
  "put_settings = admin_only (\<lambda>a rq. json_body a rq (\<lambda>b. or_error 500 (with_db a (
     db_bind (put_bind a b) (\<lambda>r. case r of Some e \<Rightarrow> db_ret e | None \<Rightarrow>
     db_bind (put_port a b) (\<lambda>r. case r of Some e \<Rightarrow> db_ret e | None \<Rightarrow>
     db_bind (put_tls a b) (\<lambda>_. db_bind (settings_json a) (send 200))))))))"

definition post_settings_apply :: "'s handler" where
  "post_settings_apply = admin_only (\<lambda>a rq.
     db_bind (db_try (with_db a (settings_json a))) (\<lambda>r.
       case r of
         Inl e \<Rightarrow> send_err 500 e
       | Inr j \<Rightarrow> db_bind (call_back (ap_apply a)) (\<lambda>_. send 200 (put ''applying'' (JBool (ap_apply a \<noteq> None)) j))))"

section \<open>Sensors\<close>

definition get_sensors :: "'s handler" where
  "get_sensors a rq = or_error 500 (with_db a (send_list sensor_json (sensors (ap_conn a))))"

definition get_sensor :: "'s handler" where
  "get_sensor a rq = or_error 500 (with_db a (db_bind (find_sensor (ap_conn a) (rq_match rq)) (\<lambda>s.
     or_404 ''sensor'' s (\<lambda>s. send 200 (sensor_json s)))))"

definition get_sensor_readings :: "'s handler" where
  "get_sensor_readings a rq = or_error 500 (with_db a (send_list reading_row_json
     (readings_between (ap_conn a) (rq_match rq) (str_param rq ''from'') (str_param rq ''to'') (int_param rq ''limit'' 100))))"

definition dsn_config_for :: "string \<Rightarrow> ExportTargetRow list \<Rightarrow> string" where
  "dsn_config_for i ts = (case filter (\<lambda>t. et_target t = ''dsn'' \<and> et_sensor_id t = i) ts of [] \<Rightarrow> [] | t # _ \<Rightarrow> et_config t)"

definition get_sensor_dsn :: "'s handler" where
  "get_sensor_dsn a rq =
     (let from_ts = str_param rq ''from''; to_ts = str_param rq ''to''; i = rq_match rq; parse = sv_parse (ap_sv a)
      in or_error 500 (with_db a (db_bind (find_sensor (ap_conn a) i) (\<lambda>s. or_404 ''sensor'' s (\<lambda>s.
         db_bind (readings_between (ap_conn a) i from_ts to_ts 500000) (\<lambda>rows.
         db_bind (db_map (dsn_config_for i) (export_targets (ap_conn a))) (\<lambda>config.
         db_bind (db_lift (format_dsn_dat parse (sv_zone (ap_sv a))
             \<lparr>xc_sensor = s, xc_readings = rev rows, xc_weather = [], xc_from_ts = from_ts, xc_to_ts = to_ts\<rparr> config)) (\<lambda>content.
           db_ret \<lparr>rs_status = 200,
             rs_headers = [(''Content-Disposition'', ''attachment; filename='' @ [CHR 0x22] @
                            dsn_download_name parse i config from_ts to_ts @ [CHR 0x22])],
             rs_content = TextContent ''text/plain'' content\<rparr>))))))))"

text \<open>\<open>probe_fill\<close>: what the device says of itself, where the request is silent; best effort.\<close>

definition filled :: "SensorFields \<Rightarrow> UnitInfo \<Rightarrow> SensorFields" where
  "filled f u = f\<lparr>
     sf_serial_number := (case sf_serial_number f of None \<Rightarrow> Some (ui_serial u) | x \<Rightarrow> x),
     sf_protocol_ver := (case sf_protocol_ver f of None \<Rightarrow> Some (ui_protocol u) | x \<Rightarrow> x),
     sf_feature_ver := (case sf_feature_ver f of None \<Rightarrow> Some (ui_feature u) | x \<Rightarrow> x)\<rparr>"

definition probe_fill :: "'s api \<Rightarrow> SensorFields \<Rightarrow> ('s, SensorFields) db" where
  "probe_fill a f =
     (case (sf_transport f, sf_address f) of
        (Some t, Some addr) \<Rightarrow>
          db_catch (db_bind (open_dev a t addr 3000) (\<lambda>h. db_map (filled f) (info (ap_wr a h) (ap_rd a h))))
            (\<lambda>_. db_ret f)
      | _ \<Rightarrow> db_ret f)"

definition want_probe :: "json \<Rightarrow> bool result" where
  "want_probe b = (case member b ''probe'' of None \<Rightarrow> ok True | Some v \<Rightarrow> get_bool v)"

definition disabled_at_first :: "SensorFields \<Rightarrow> SensorFields" where
  "disabled_at_first f = (if sf_status f = None then f\<lparr>sf_status := Some ''inactive''\<rparr> else f)"

definition found_or_id :: "('a \<Rightarrow> json) \<Rightarrow> string \<Rightarrow> 'a option \<Rightarrow> ('s, response) db" where
  "found_or_id f i x = send 201 (case x of None \<Rightarrow> obj [(''id'', JStr i)] | Some y \<Rightarrow> f y)"

definition store_sensor :: "'s api \<Rightarrow> string \<Rightarrow> SensorFields \<Rightarrow> ('s, response) db" where
  "store_sensor a i f = or_error 500 (with_db a (
     db_bind (upsert_sensor (ap_conn a) i f) (\<lambda>_.
     db_bind (find_sensor (ap_conn a) i) (found_or_id sensor_json i))))"

definition post_sensors :: "'s handler" where
  "post_sensors = admin_only (\<lambda>a rq. json_body a rq (\<lambda>b.
     case member b ''id'' of
       None \<Rightarrow> send_err 400 (''missing '' @ quoted ''id'')
     | Some iv \<Rightarrow>
         db_bind (db_lift (get_str iv)) (\<lambda>i.
         db_bind (db_lift (then_res (sensor_fields_from_json b) (\<lambda>f. ok (disabled_at_first f)))) (\<lambda>f.
           if sf_transport f = None \<or> sf_address f = None
           then send_err 400 (''missing transport/address (or '' @ quoted ''tcp'' @ '')'')
           else db_bind (db_lift (want_probe b)) (\<lambda>probe.
                db_bind (if probe then probe_fill a f else db_ret f) (store_sensor a i))))))"

definition found_or_empty :: "('a \<Rightarrow> json) \<Rightarrow> 'a option \<Rightarrow> ('s, response) db" where
  "found_or_empty f x = send 200 (case x of None \<Rightarrow> JObj [] | Some y \<Rightarrow> f y)"

definition update_then_show :: "'s api \<Rightarrow> request \<Rightarrow> SensorFields \<Rightarrow> ('s, response) db" where
  "update_then_show a rq f =
     db_bind (update_sensor (ap_conn a) (rq_match rq) f) (\<lambda>there.
       if there then db_bind (find_sensor (ap_conn a) (rq_match rq)) (found_or_empty sensor_json)
       else send_err 404 ''no such sensor'')"

text \<open>The reload that follows a reply, unless the handler returned early with an error.\<close>

definition after_reply :: "bool \<Rightarrow> 's api \<Rightarrow> ('s, response) db \<Rightarrow> ('s, response) db" where
  "after_reply wanted a m =
     db_bind (db_try m) (\<lambda>r. case r of
         Inl e \<Rightarrow> send_err 500 e
       | Inr res \<Rightarrow> if rs_status res = 404 \<or> \<not> wanted then db_ret res
                    else db_map (\<lambda>_. res) (call_back (ap_reload a)))"

definition affects_polling :: "json \<Rightarrow> bool" where
  "affects_polling b \<longleftrightarrow> list_ex (has b) [''poll_interval_s'', ''transport'', ''address'', ''status'']"

definition patch_sensor :: "'s handler" where
  "patch_sensor = admin_only (\<lambda>a rq. json_body a rq (\<lambda>b.
     after_reply (affects_polling b) a (with_db a (
       db_bind (db_lift (sensor_fields_from_json b)) (update_then_show a rq)))))"

definition delete_readings :: "'s handler" where
  "delete_readings = admin_only (\<lambda>a rq.
     case rq_param rq ''before'' of
       None \<Rightarrow> send_err 400 (''missing '' @ quoted ''before'' @ '' (YYYY-MM-DD[ HH:MM:SS])'')
     | Some before \<Rightarrow> or_error 500 (with_db a (
         db_bind (delete_readings_before (ap_conn a) (rq_match rq) before) (\<lambda>n.
           send 200 (obj [(''deleted'', JInt n)])))))"

definition delete_sensor :: "'s handler" where
  "delete_sensor = admin_only (\<lambda>a rq. after_reply True a (with_db a (
     db_bind (remove_sensor (ap_conn a) (rq_match rq)) (\<lambda>_.
       send 200 (obj [(''deleted'', JStr (rq_match rq))])))))"

definition poll_sensor :: "'s handler" where
  "poll_sensor = admin_only (\<lambda>a rq. or_error 502 (with_db a (
     db_bind (find_sensor (ap_conn a) (rq_match rq)) (\<lambda>s. or_404 ''sensor'' s (\<lambda>s.
       db_bind (open_dev a (sn_transport s) (sn_address s) 5000) (\<lambda>h.
       db_bind (read_averaged (ap_wr a h) (ap_rd a h)) (\<lambda>r.
         let quality = (if dle0 (rd_mag_arcsec2 r) then ''saturated'' else ''ok'')
         in db_bind (insert_reading (ap_conn a) (sn_id s) r [] ''poll'' quality) (\<lambda>i.
              send 200 (obj [(''stored_id'', JInt i), (''mag_arcsec2'', JFloat (rd_mag_arcsec2 r)),
                (''temp_c'', JFloat (rd_temp_c r)), (''quality'', JStr quality), (''raw'', JStr (rd_raw r))])))))))))"

subsection \<open>The self-test\<close>

definition failed_check :: "string \<Rightarrow> string \<Rightarrow> json" where
  "failed_check nm e = obj [(''name'', JStr nm), (''ok'', JBool False), (''detail'', JStr e)]"

definition identify_check :: "SensorRow \<Rightarrow> UnitInfo result \<Rightarrow> json" where
  "identify_check s r =
     (case r of Inl e \<Rightarrow> failed_check ''identify'' e
      | Inr u \<Rightarrow>
          let c = obj [(''name'', JStr ''identify''), (''ok'', JBool True), (''protocol'', JInt (ui_protocol u)),
                       (''model'', JInt (ui_model u)), (''feature'', JInt (ui_feature u)), (''serial'', JStr (ui_serial u)),
                       (''raw'', JStr (ui_raw u))]
          in if sn_serial_number s = [] then c
             else put ''serial_match'' (JBool (ui_serial u = sn_serial_number s)) c)"

definition reading_check :: "Reading result \<Rightarrow> json" where
  "reading_check r =
     (case r of Inl e \<Rightarrow> failed_check ''reading'' e
      | Inr x \<Rightarrow> obj [(''name'', JStr ''reading''), (''ok'', JBool True), (''mag_arcsec2'', JFloat (rd_mag_arcsec2 x)),
          (''freq_hz'', JInt (rd_freq_hz x)), (''temp_c'', JFloat (rd_temp_c x)),
          (''quality'', JStr (if dle0 (rd_mag_arcsec2 x) then ''saturated'' else ''ok'')), (''raw'', JStr (rd_raw x))])"

definition calibration_check :: "Calibration result \<Rightarrow> json" where
  "calibration_check r =
     (case r of Inl e \<Rightarrow> failed_check ''calibration'' e
      | Inr c \<Rightarrow> obj [(''name'', JStr ''calibration''), (''ok'', JBool True), (''light_cal_offset'', JFloat (cal_light_cal_offset c)),
          (''dark_cal_period_s'', JFloat (cal_dark_cal_period_s c)), (''temp_light_c'', JFloat (cal_temp_light_c c)),
          (''sensor_offset'', JFloat (cal_sensor_offset c)), (''temp_dark_c'', JFloat (cal_temp_dark_c c)),
          (''raw'', JStr (cal_raw c))])"

definition test_reply :: "SensorRow \<Rightarrow> bool \<Rightarrow> json list \<Rightarrow> ('s, response) db" where
  "test_reply s overall checks =
     send 200 (obj [(''id'', JStr (sn_id s)), (''address'', JStr (sn_address s)), (''ok'', JBool overall),
                    (''checks'', JArr checks)])"

definition test_device :: "'s api \<Rightarrow> SensorRow \<Rightarrow> ('s, response) db" where
  "test_device a s =
     db_bind (db_try (open_dev a (sn_transport s) (sn_address s) 5000)) (\<lambda>opened.
       case opened of
         Inl e \<Rightarrow> test_reply s False [failed_check ''connect'' e]
       | Inr h \<Rightarrow>
           db_bind (db_try (info (ap_wr a h) (ap_rd a h))) (\<lambda>u.
           db_bind (db_try (read_averaged (ap_wr a h) (ap_rd a h))) (\<lambda>r.
           db_bind (db_try (calibration (ap_wr a h) (ap_rd a h))) (\<lambda>c.
             test_reply s (is_ok u \<and> is_ok r \<and> is_ok c)
               [obj [(''name'', JStr ''connect''), (''ok'', JBool True),
                     (''detail'', JStr (sn_transport s @ '' '' @ sn_address s))],
                identify_check s u, reading_check r, calibration_check c]))))"

definition test_sensor :: "'s handler" where
  "test_sensor = admin_only (\<lambda>a rq.
     db_bind (db_try (with_db a (find_sensor (ap_conn a) (rq_match rq)))) (\<lambda>r.
       case r of Inl e \<Rightarrow> send_err 500 e | Inr s \<Rightarrow> or_404 ''sensor'' s (test_device a)))"

definition no_fields :: SensorFields where
  "no_fields = \<lparr>sf_name = None, sf_site = None, sf_serial_number = None, sf_model = None, sf_protocol_ver = None,
     sf_feature_ver = None, sf_latitude = None, sf_longitude = None, sf_elevation_m = None, sf_timezone = None,
     sf_transport = None, sf_address = None, sf_poll_interval_s = None, sf_status = None, sf_installed_at = None,
     sf_notes = None\<rparr>"

definition set_status :: "string \<Rightarrow> 's handler" where
  "set_status status = admin_only (\<lambda>a rq. after_reply True a (with_db a (
     update_then_show a rq (no_fields\<lparr>sf_status := Some status\<rparr>))))"

definition enable_sensor :: "'s handler" where "enable_sensor = set_status ''active''"
definition disable_sensor :: "'s handler" where "disable_sensor = set_status ''inactive''"

end
