(* ===== verification/NW_ApiMore.thy ===== *)
theory NW_ApiMore imports NW_Api begin

text \<open>
  The other handlers of \<^verbatim>\<open>src/api/http_server.cpp\<close>: calibration, weather stations, export targets,
  extensions, discovery, the platform helper, schema set-up, login and users; then the table of
  routes, the gate in front of them and the answer to a request.
\<close>

section \<open>Calibration\<close>

definition on_device :: "'s api \<Rightarrow> request \<Rightarrow> (SensorRow \<Rightarrow> nat \<Rightarrow> ('s, response) db) \<Rightarrow> ('s, response) db" where
  "on_device a rq f = or_error 502 (with_db a (
     db_bind (find_sensor (ap_conn a) (rq_match rq)) (\<lambda>s. or_404 ''sensor'' s (\<lambda>s.
       db_bind (open_dev a (sn_transport s) (sn_address s) 5000) (f s)))))"

definition get_calibration :: "'s handler" where
  "get_calibration a rq = on_device a rq (\<lambda>s h.
     db_bind (calibration (ap_wr a h) (ap_rd a h)) (\<lambda>c. send 200 (cal_json c)))"

definition get_calibration_history :: "'s handler" where
  "get_calibration_history a rq = or_error 500 (with_db a (send_list configlog_json
     (config_log (ap_conn a) (rq_match rq) (int_param rq ''limit'' 50))))"

text \<open>Reading the calibration, and storing it with who asked.\<close>

definition record_calibration :: "'s api \<Rightarrow> request \<Rightarrow> SensorRow \<Rightarrow> nat \<Rightarrow> string \<Rightarrow> string \<Rightarrow> ('s, response) db" where
  "record_calibration a rq s h kind note0 =
     db_bind (calibration (ap_wr a h) (ap_rd a h)) (\<lambda>c.
     db_bind (auth_user a rq) (\<lambda>who.
     db_bind (insert_calibration (ap_conn a) (sn_id s) c [] kind who note0) (\<lambda>_. send 200 (cal_json c))))"

definition post_calibration_record :: "'s handler" where
  "post_calibration_record = admin_only (\<lambda>a rq. on_device a rq (\<lambda>s h.
     record_calibration a rq s h ''calibration'' ''recorded snapshot''))"

definition post_calibration_arm :: "'s handler" where
  "post_calibration_arm = admin_only (\<lambda>a rq. json_body a rq (\<lambda>b.
     db_bind (db_lift (value_or get_str b ''mode'' [])) (\<lambda>md.
       if md \<noteq> ''light'' \<and> md \<noteq> ''dark''
       then send_err 400 (''mode must be '' @ quoted ''light'' @ '' or '' @ quoted ''dark'')
       else on_device a rq (\<lambda>s h.
         db_bind (if md = ''light'' then arm_light_calibration (ap_wr a h) (ap_rd a h)
                  else arm_dark_calibration (ap_wr a h) (ap_rd a h)) (\<lambda>st.
         db_bind (insert_event (ap_conn a) ''sqm'' ''info'' ''calibration_arm'' md (sn_id s)) (\<lambda>_.
           send 200 (calstatus_json st)))))))"

definition post_calibration_disarm :: "'s handler" where
  "post_calibration_disarm = admin_only (\<lambda>a rq. on_device a rq (\<lambda>s h.
     db_bind (disarm_calibration (ap_wr a h) (ap_rd a h)) (\<lambda>st. send 200 (calstatus_json st))))"

text \<open>The values of the body that are numbers are set, in this order; the note names them.\<close>

fun apply_sets ::
  "'s wr_op \<Rightarrow> 's rd_op \<Rightarrow> json \<Rightarrow>
   (string \<times> ('s wr_op \<Rightarrow> 's rd_op \<Rightarrow> double \<Rightarrow> 's \<Rightarrow> CalSetEcho result \<times> 's)) list \<Rightarrow> string \<Rightarrow> ('s, string) db" where
  "apply_sets wr rd b [] note0 = db_ret note0"
| "apply_sets wr rd b ((k, setter) # r) note0 =
     (case member b k of
        Some v \<Rightarrow>
          if is_number v
          then db_bind (db_lift (get_double v)) (\<lambda>x. db_bind (setter wr rd x) (\<lambda>_.
                 apply_sets wr rd b r (note0 @ '' '' @ k)))
          else apply_sets wr rd b r note0
      | None \<Rightarrow> apply_sets wr rd b r note0)"

definition cal_setters :: "(string \<times> ('s wr_op \<Rightarrow> 's rd_op \<Rightarrow> double \<Rightarrow> 's \<Rightarrow> CalSetEcho result \<times> 's)) list" where
  "cal_setters = [(''light_offset'', set_light_offset), (''light_temp'', set_light_temp),
     (''dark_period'', set_dark_period), (''dark_temp'', set_dark_temp)]"

definition post_calibration_set :: "'s handler" where
  "post_calibration_set = admin_only (\<lambda>a rq. json_body a rq (\<lambda>b. on_device a rq (\<lambda>s h.
     db_bind (apply_sets (ap_wr a h) (ap_rd a h) b cal_setters ''manual set:'') (\<lambda>note0.
       if note0 = ''manual set:'' then send_err 400 ''no calibration fields to set''
       else record_calibration a rq s h ''config_change'' note0))))"

section \<open>Events and extensions\<close>

definition get_events :: "'s handler" where
  "get_events a rq = or_error 500 (with_db a (send_list event_json
     (recent_events (ap_conn a) (int_param rq ''limit'' 50))))"

definition get_extensions :: "'s handler" where
  "get_extensions a rq = or_error 500 (with_db a (send_list extension_json (extensions (ap_conn a))))"

definition cell_json :: "cell \<Rightarrow> json" where
  "cell_json c = opt_json JStr c"

definition row_object :: "string list \<Rightarrow> cell list \<Rightarrow> json" where
  "row_object cols r = foldl (\<lambda>o1 (k, c). put k (cell_json c) o1) (JObj []) (zip cols r)"

definition get_extension_data :: "'s handler" where
  "get_extension_data a rq = or_error 500 (with_db a (
     db_bind (find_extension (ap_conn a) (rq_match rq)) (\<lambda>e. or_404 ''extension'' e (\<lambda>e.
       if ex_data_table e = [] \<or> \<not> valid_identifier (ex_data_table e)
       then send_err 400 ''extension has no valid data table''
       else db_bind (query_recent (ap_conn a) (ex_data_table e) (int_param rq ''limit'' 200)) (\<lambda>d.
         send 200 (obj [(''extension'', JStr (ex_name e)), (''label'', JStr (ex_label e)),
           (''columns'', JArr (map JStr (td_columns d))), (''rows'', JArr (map (row_object (td_columns d)) (td_rows d)))]))))))"

section \<open>The platform helper\<close>

definition platform_proxy :: "'s api \<Rightarrow> request \<Rightarrow> string \<Rightarrow> ('s, response) db" where
  "platform_proxy a rq path s =
     (if \<not> ap_helper a s then send_err 404 ''no platform helper on this system'' s
      else if path = [] \<or> hd path \<noteq> CHR ''/'' \<or> contains_str ''..'' path then send_err 400 ''invalid platform path'' s
      else
        let target = path @ (case find_chr CHR ''?'' (rq_target rq) of None \<Rightarrow> [] | Some q \<Rightarrow> substr (rq_target rq) q);
            ctype = (if rq_header rq ''Content-Type'' = [] then ''application/json'' else rq_header rq ''Content-Type'')
        in case (if rq_method rq = ''POST'' then ap_forward a ''POST'' target (rq_body rq) ctype s
                 else ap_forward a ''GET'' target [] [] s) of
             (None, s') \<Rightarrow> send_err 502 ''platform helper unreachable'' s'
           | (Some (status, rtype, body), s') \<Rightarrow>
               (ok \<lparr>rs_status = status, rs_headers = [],
                    rs_content = TextContent (if rtype = [] then ''application/json'' else rtype) body\<rparr>, s'))"

definition get_platform :: "'s handler" where
  "get_platform = admin_only (\<lambda>a rq. platform_proxy a rq ''/'')"

definition any_platform :: "'s handler" where
  "any_platform = admin_only (\<lambda>a rq. platform_proxy a rq (''/'' @ rq_match rq))"

section \<open>Weather stations\<close>

definition get_weather_stations :: "'s handler" where
  "get_weather_stations a rq = or_error 500 (with_db a (send_list (weather_json (sv_parse (ap_sv a))) (weather_stations (ap_conn a))))"

definition get_weather_station :: "'s handler" where
  "get_weather_station a rq = or_error 500 (with_db a (db_bind (find_weather_station (ap_conn a) (rq_match rq)) (\<lambda>w.
     or_404 ''weather station'' w (\<lambda>w. send 200 (weather_json (sv_parse (ap_sv a)) w)))))"

definition object_config :: "'s api \<Rightarrow> json \<Rightarrow> string option" where
  "object_config a b =
     (case member b ''config'' of Some c \<Rightarrow> if is_object c then Some (sv_dump (ap_sv a) c) else None | None \<Rightarrow> None)"

definition post_weather_stations :: "'s handler" where
  "post_weather_stations = admin_only (\<lambda>a rq. json_body a rq (\<lambda>b.
     case member b ''id'' of
       None \<Rightarrow> send_err 400 (''missing '' @ quoted ''id'')
     | Some iv \<Rightarrow> or_error 500 (with_db a (
         db_bind (db_lift (get_str iv)) (\<lambda>i.
         db_bind (db_lift (wx_fields_from_json b)) (\<lambda>f.
         db_bind (upsert_weather_station (ap_conn a) i (f\<lparr>wf_config := object_config a b\<rparr>)) (\<lambda>_.
         db_bind (find_weather_station (ap_conn a) i) (found_or_id (weather_json (sv_parse (ap_sv a))) i))))))))"

definition save_weather_station :: "'s api \<Rightarrow> request \<Rightarrow> WeatherStationFields \<Rightarrow> ('s, response) db" where
  "save_weather_station a rq f =
     db_bind (update_weather_station (ap_conn a) (rq_match rq) f) (\<lambda>there.
       if there then db_bind (find_weather_station (ap_conn a) (rq_match rq)) (found_or_empty (weather_json (sv_parse (ap_sv a))))
       else send_err 404 ''no such weather station'')"

definition patch_weather_station :: "'s handler" where
  "patch_weather_station = admin_only (\<lambda>a rq. json_body a rq (\<lambda>b. or_error 500 (with_db a (
     db_bind (db_lift (wx_fields_from_json b)) (\<lambda>f.
       case member b ''config'' of
         None \<Rightarrow> save_weather_station a rq f
       | Some edit \<Rightarrow> db_bind (find_weather_station (ap_conn a) (rq_match rq)) (\<lambda>w. or_404 ''weather station'' w (\<lambda>w.
           save_weather_station a rq
             (f\<lparr>wf_config := Some (merge_config (sv_parse (ap_sv a)) (sv_dump (ap_sv a)) (ws_config w) edit)\<rparr>))))))))"

definition delete_weather_station :: "'s handler" where
  "delete_weather_station = admin_only (\<lambda>a rq. or_error 500 (with_db a (
     db_bind (remove_weather_station (ap_conn a) (rq_match rq)) (\<lambda>_.
       send 200 (obj [(''deleted'', JStr (rq_match rq))])))))"

definition get_weather_readings :: "'s handler" where
  "get_weather_readings a rq = or_error 500 (with_db a (send_list wx_reading_json
     (weather_readings_between (ap_conn a) (rq_match rq) (str_param rq ''from'') (str_param rq ''to'') (int_param rq ''limit'' 100))))"

definition poll_weather_station :: "'s handler" where
  "poll_weather_station = admin_only (\<lambda>a rq. or_error 502 (with_db a (
     db_bind (find_weather_station (ap_conn a) (rq_match rq)) (\<lambda>w. or_404 ''weather station'' w (\<lambda>w.
       if ws_provider w = [] then send_err 400 ''no provider configured''
       else db_bind (db_lift (make_provider (sv_parse (ap_sv a)) (ws_provider w) (ws_config w))) (\<lambda>p.
            db_bind (db_map (\<lambda>r. r\<lparr>wr_station_id := ws_id w\<rparr>) (provider_fetch (ap_sv a) p)) (\<lambda>r.
            db_bind (insert_weather_reading (ap_conn a) r) (\<lambda>i.
              send 200 (put ''stored_id'' (JInt i) (wx_reading_json r))))))))))"

section \<open>Export targets\<close>

definition get_export_targets :: "'s handler" where
  "get_export_targets a rq = or_error 500 (with_db a (send_list (export_json (sv_parse (ap_sv a))) (export_targets (ap_conn a))))"

definition get_export_log :: "'s handler" where
  "get_export_log a rq = or_error 500 (with_db a (send_list export_log_json
     (export_log (ap_conn a) (rq_match rq) (int_param rq ''limit'' 50))))"

definition get_export_target :: "'s handler" where
  "get_export_target a rq = or_error 500 (with_db a (db_bind (find_export_target (ap_conn a) (rq_match rq)) (\<lambda>t.
     or_404 ''export target'' t (\<lambda>t. send 200 (export_json (sv_parse (ap_sv a)) t)))))"

definition post_export_targets :: "'s handler" where
  "post_export_targets = admin_only (\<lambda>a rq. json_body a rq (\<lambda>b.
     case member b ''id'' of
       None \<Rightarrow> send_err 400 (''missing '' @ quoted ''id'')
     | Some iv \<Rightarrow> or_error 500 (with_db a (
         db_bind (db_lift (get_str iv)) (\<lambda>i.
         db_bind (db_lift (export_fields_from_json b)) (\<lambda>f.
           if ef_sensor_id f = None then send_err 400 (''missing '' @ quoted ''sensor_id'')
           else if ef_target f = None then send_err 400 (''missing '' @ quoted ''target'')
           else db_bind (upsert_export_target (ap_conn a) i (f\<lparr>ef_config := object_config a b\<rparr>)) (\<lambda>_.
                db_bind (call_back (ap_reload a)) (\<lambda>_.
                db_bind (find_export_target (ap_conn a) i) (found_or_id (export_json (sv_parse (ap_sv a))) i)))))))))"

definition save_export_target :: "'s api \<Rightarrow> request \<Rightarrow> ExportTargetFields \<Rightarrow> ('s, response) db" where
  "save_export_target a rq f =
     db_bind (update_export_target (ap_conn a) (rq_match rq) f) (\<lambda>there.
       if there then db_bind (call_back (ap_reload a)) (\<lambda>_.
         db_bind (find_export_target (ap_conn a) (rq_match rq)) (found_or_empty (export_json (sv_parse (ap_sv a)))))
       else send_err 404 ''no such export target'')"

definition patch_export_target :: "'s handler" where
  "patch_export_target = admin_only (\<lambda>a rq. json_body a rq (\<lambda>b. or_error 500 (with_db a (
     db_bind (db_lift (export_fields_from_json b)) (\<lambda>f.
       case member b ''config'' of
         None \<Rightarrow> save_export_target a rq f
       | Some edit \<Rightarrow> db_bind (find_export_target (ap_conn a) (rq_match rq)) (\<lambda>t. or_404 ''export target'' t (\<lambda>t.
           save_export_target a rq
             (f\<lparr>ef_config := Some (merge_config (sv_parse (ap_sv a)) (sv_dump (ap_sv a)) (et_config t) edit)\<rparr>))))))))"

definition delete_export_target :: "'s handler" where
  "delete_export_target = admin_only (\<lambda>a rq. or_error 500 (with_db a (
     db_bind (remove_export_target (ap_conn a) (rq_match rq)) (\<lambda>_.
     db_bind (call_back (ap_reload a)) (\<lambda>_.
       send 200 (obj [(''deleted'', JStr (rq_match rq))]))))))"

definition run_export_target :: "'s handler" where
  "run_export_target = admin_only (\<lambda>a rq. or_error 502 (with_db a (
     db_bind (find_export_target (ap_conn a) (rq_match rq)) (\<lambda>t. or_404 ''export target'' t (\<lambda>t.
       db_bind (run_export (ap_conn a) (ap_sv a) t) (\<lambda>r.
         send 200 (obj [(''files'', JInt (xn_files r)), (''rows'', JInt (xn_rows r)), (''last_ts'', JStr (xn_last_ts r)),
                        (''file_names'', JArr (map JStr (xn_file_names r)))])))))))"

section \<open>Schema and discovery\<close>

definition get_db_status :: "'s handler" where
  "get_db_status a rq = or_error 500 (with_db a (db_bind (schema_status (ap_conn a)) (\<lambda>ts.
     send 200 (obj [(''tables'', JArr (map table_json ts))]))))"

definition post_db_init :: "'s handler" where
  "post_db_init = admin_only (\<lambda>a rq s.
     if ap_schema_file a = [] then send_err 503 ''schema_file not configured'' s
     else case ap_file a (ap_schema_file a) s of
         None \<Rightarrow> send_err 500 (''cannot open schema file: '' @ ap_schema_file a) s
       | Some sql \<Rightarrow> or_error 500 (with_db a (
           db_bind (run_schema_script (ap_conn a) sql) (\<lambda>_.
           db_bind (schema_status (ap_conn a)) (\<lambda>ts.
             send 200 (obj [(''initialized'', JBool True), (''tables'', JArr (map table_json ts))]))))) s)"

definition unit_members :: "UnitInfo \<Rightarrow> (string \<times> json) list" where
  "unit_members u = [(''serial'', JStr (ui_serial u)), (''model'', JInt (ui_model u)),
     (''feature'', JInt (ui_feature u)), (''protocol'', JInt (ui_protocol u))]"

definition get_discover :: "'s handler" where
  "get_discover a rq =
     (case rq_param rq ''cidr'' of
        None \<Rightarrow> send_err 400 (''missing '' @ quoted ''cidr'' @ '' query parameter'')
      | Some cidr \<Rightarrow> or_error 400 (send_list (\<lambda>d. obj ((''ip'', JStr (dc_ip d)) # unit_members (dc_info d))) (ap_scan a cidr)))"

definition get_discover_usb :: "'s handler" where
  "get_discover_usb a rq = or_error 500
     (send_list (\<lambda>d. obj ((''device'', JStr (ds_device d)) # unit_members (ds_info d))) (ap_scan_usb a))"

section \<open>Login and users\<close>

definition session_ttl :: int where "session_ttl = 604800"

definition random_token :: "'s api \<Rightarrow> ('s, string) db" where
  "random_token a s = (case ap_rand a 32 s of (r, s') \<Rightarrow> (random_hex r, s'))"

definition new_hash :: "'s api \<Rightarrow> string \<Rightarrow> ('s, string) db" where
  "new_hash a pw s = (case ap_rand a kSaltLen s of (r, s') \<Rightarrow> (hash_password (ap_kdf a) r pw, s'))"

definition login_reply :: "string \<Rightarrow> UserRow \<Rightarrow> response" where
  "login_reply sess u =
     \<lparr>rs_status = 200,
      rs_headers = [(''Set-Cookie'', ''nw_session='' @ sess @ ''; HttpOnly; SameSite=Strict; Path=/; Max-Age='' @ show_int session_ttl)],
      rs_content = JsonContent (obj [(''token'', JStr sess),
        (''user'', obj [(''username'', JStr (us_username u)), (''role'', JStr (us_role u))]),
        (''must_change_password'', JBool (us_must_change_password u))])\<rparr>"

definition password_matches :: "'s api \<Rightarrow> json \<Rightarrow> UserRow option \<Rightarrow> bool result" where
  "password_matches a pw u =
     (case u of None \<Rightarrow> ok False
      | Some x \<Rightarrow> then_res (get_str pw) (\<lambda>p. verify_password (ap_kdf a) p (us_password_hash x)))"

definition login_with :: "'s api \<Rightarrow> json \<Rightarrow> json \<Rightarrow> ('s, response) db" where
  "login_with a un pw = or_error 500 (with_db a (
     db_bind (db_lift (get_str un)) (\<lambda>username.
     db_bind (find_user (ap_conn a) username) (\<lambda>u.
     db_bind (db_lift (password_matches a pw u)) (\<lambda>good.
       case u of
         Some x \<Rightarrow>
           if \<not> good then send_err 401 ''invalid credentials''
           else db_bind (random_token a) (\<lambda>sess.
                db_bind (create_session (ap_conn a) sess (us_id x) session_ttl) (\<lambda>_. db_ret (login_reply sess x)))
       | None \<Rightarrow> send_err 401 ''invalid credentials'')))))"

definition post_login :: "'s handler" where
  "post_login a rq = json_body a rq (\<lambda>b.
     case (member b ''username'', member b ''password'') of
       (Some un, Some pw) \<Rightarrow> login_with a un pw
     | _ \<Rightarrow> send_err 400 ''username and password required'')"

definition ok_json :: json where "ok_json = obj [(''ok'', JBool True)]"

definition post_logout :: "'s handler" where
  "post_logout a rq =
     (let sess = session_token rq
      in db_bind (if sess = [] then db_ret ()
                  else db_catch (with_db a (delete_session (ap_conn a) sess)) (\<lambda>_. db_ret ())) (\<lambda>_.
           db_ret \<lparr>rs_status = 200,
             rs_headers = [(''Set-Cookie'', ''nw_session=; HttpOnly; SameSite=Strict; Path=/; Max-Age=0'')],
             rs_content = JsonContent ok_json\<rparr>))"

definition me_json :: "string \<Rightarrow> string \<Rightarrow> string \<Rightarrow> json" where
  "me_json username role via = obj [(''username'', JStr username), (''role'', JStr role), (''via'', JStr via)]"

definition get_me :: "'s handler" where
  "get_me a rq =
     (if token_ok a rq then send 200 (me_json ''(token)'' ''admin'' ''token'')
      else db_bind (session_info a rq) (\<lambda>si. case si of
          Some i \<Rightarrow> send 200 (me_json (si_username i) (si_role i) ''session'')
        | None \<Rightarrow> send_err 401 ''not logged in''))"

definition change_password :: "'s api \<Rightarrow> request \<Rightarrow> json \<Rightarrow> json \<Rightarrow> ('s, response) db" where
  "change_password a rq cur new_pw = or_error 500 (with_db a (
     db_bind (if session_token rq = [] then db_ret None else validate_session (ap_conn a) (session_token rq)) (\<lambda>si.
       case si of
         None \<Rightarrow> send_err 401 ''not logged in''
       | Some i \<Rightarrow>
           db_bind (find_user (ap_conn a) (si_username i)) (\<lambda>u.
           db_bind (db_lift (password_matches a cur u)) (\<lambda>good.
             if u = None \<or> \<not> good then send_err 403 ''current password is incorrect''
             else db_bind (db_lift (get_str new_pw)) (\<lambda>p.
                  db_bind (new_hash a p) (\<lambda>h.
                  db_bind (set_user_password (ap_conn a) (si_username i) h False) (\<lambda>_. send 200 ok_json))))))))"

definition post_me_password :: "'s handler" where
  "post_me_password a rq = json_body a rq (\<lambda>b.
     case (member b ''current_password'', member b ''new_password'') of
       (Some cur, Some new_pw) \<Rightarrow> change_password a rq cur new_pw
     | _ \<Rightarrow> send_err 400 ''current_password and new_password required'')"

definition user_json :: "UserRow \<Rightarrow> json" where
  "user_json u = obj [(''id'', JInt (us_id u)), (''username'', JStr (us_username u)), (''role'', JStr (us_role u)),
     (''must_change_password'', JBool (us_must_change_password u)), (''created_at'', JStr (us_created_at u))]"

definition get_users :: "'s handler" where
  "get_users = admin_only (\<lambda>a rq. or_error 500 (with_db a (send_list user_json (users (ap_conn a)))))"

definition role_of :: "json \<Rightarrow> string result" where
  "role_of b = (case member b ''role'' of None \<Rightarrow> ok ''viewer'' | Some v \<Rightarrow> get_str v)"

definition add_user :: "'s api \<Rightarrow> json \<Rightarrow> json \<Rightarrow> string \<Rightarrow> ('s, response) db" where
  "add_user a un pw role = or_error 500 (with_db a (
     db_bind (db_lift (get_str un)) (\<lambda>uname.
     db_bind (find_user (ap_conn a) uname) (\<lambda>u.
       if u \<noteq> None then send_err 409 ''user already exists''
       else db_bind (db_lift (get_str pw)) (\<lambda>p.
            db_bind (new_hash a p) (\<lambda>h.
            db_bind (create_user (ap_conn a) uname h role False) (\<lambda>_.
              send 201 (obj [(''username'', JStr uname), (''role'', JStr role)]))))))))"

definition post_users :: "'s handler" where
  "post_users = admin_only (\<lambda>a rq. json_body a rq (\<lambda>b.
     case (member b ''username'', member b ''password'') of
       (Some un, Some pw) \<Rightarrow> db_bind (db_lift (role_of b)) (add_user a un pw)
     | _ \<Rightarrow> send_err 400 ''username and password required''))"

definition admin_count :: "UserRow list \<Rightarrow> nat" where
  "admin_count us = length (filter (\<lambda>u. us_role u = ''admin'') us)"

definition remove_user :: "'s api \<Rightarrow> string \<Rightarrow> ('s, response) db" where
  "remove_user a uname = or_error 500 (with_db a (
     db_bind (find_user (ap_conn a) uname) (\<lambda>u. or_404 ''user'' u (\<lambda>u.
     db_bind (if us_role u = ''admin'' then db_map (\<lambda>us. admin_count us \<le> 1) (users (ap_conn a)) else db_ret False) (\<lambda>sole.
       if sole then send_err 409 ''cannot delete the last admin''
       else db_bind (delete_user (ap_conn a) uname) (\<lambda>_. send 200 (obj [(''deleted'', JStr uname)])))))))"

definition delete_users :: "'s handler" where
  "delete_users = admin_only (\<lambda>a rq. remove_user a (rq_match rq))"

section \<open>Routes\<close>

text \<open>
  The patterns the routes are registered under: a fixed path, a path with one segment matched by
  \<^verbatim>\<open>([^/]+)\<close>, and a prefix with the rest matched by \<^verbatim>\<open>(.*)\<close>. A match is of the whole path.
\<close>

datatype pattern = Fixed string | Segment string string | Rest string

definition api :: "string \<Rightarrow> string" where "api p = ''/api/v1/'' @ p"

definition matches :: "pattern \<Rightarrow> string \<Rightarrow> string option" where
  "matches p path =
     (case p of
        Fixed f \<Rightarrow> if path = f then Some [] else None
      | Segment pre suf \<Rightarrow>
          (let r = drop (length pre) path; seg = takeWhile (\<lambda>c. c \<noteq> CHR ''/'') r
           in if starts_with pre path \<and> seg \<noteq> [] \<and> drop (length seg) r = suf then Some seg else None)
      | Rest pre \<Rightarrow>
          (let r = drop (length pre) path
           in if starts_with pre path \<and> list_all (\<lambda>c. c \<noteq> CHR 0x0A \<and> c \<noteq> CHR 0x0D) r then Some r else None))"

definition sensor_path :: "string \<Rightarrow> pattern" where "sensor_path suf = Segment (api ''sensors/'') suf"
definition station_path :: "string \<Rightarrow> pattern" where "station_path suf = Segment (api ''weather-stations/'') suf"
definition target_path :: "string \<Rightarrow> pattern" where "target_path suf = Segment (api ''export-targets/'') suf"

definition read_routes :: "(pattern \<times> 's handler) list" where
  "read_routes =
     [(Fixed (api ''version''), get_version), (Fixed (api ''health''), get_health), (Fixed (api ''settings''), get_settings),
      (Fixed (api ''sensors''), get_sensors), (sensor_path [], get_sensor), (sensor_path ''/readings'', get_sensor_readings),
      (sensor_path ''/dsn'', get_sensor_dsn), (Fixed (api ''events''), get_events), (Fixed (api ''extensions''), get_extensions),
      (Segment (api ''extensions/'') ''/data'', get_extension_data), (Fixed (api ''platform''), get_platform),
      (Rest (api ''platform/''), any_platform), (Fixed (api ''weather-stations''), get_weather_stations),
      (station_path [], get_weather_station), (Fixed (api ''db/status''), get_db_status), (Fixed (api ''discover''), get_discover),
      (Fixed (api ''discover/usb''), get_discover_usb), (sensor_path ''/calibration'', get_calibration),
      (sensor_path ''/calibration/history'', get_calibration_history), (station_path ''/readings'', get_weather_readings),
      (Fixed (api ''export-targets''), get_export_targets), (target_path ''/log'', get_export_log),
      (target_path [], get_export_target), (Fixed (api ''me''), get_me), (Fixed (api ''users''), get_users)]"

definition post_routes :: "(pattern \<times> 's handler) list" where
  "post_routes =
     [(Fixed (api ''settings/apply''), post_settings_apply), (Rest (api ''platform/''), any_platform),
      (Fixed (api ''sensors''), post_sensors), (sensor_path ''/poll'', poll_sensor), (sensor_path ''/test'', test_sensor),
      (sensor_path ''/enable'', enable_sensor), (sensor_path ''/disable'', disable_sensor),
      (sensor_path ''/calibration/record'', post_calibration_record), (sensor_path ''/calibration/arm'', post_calibration_arm),
      (sensor_path ''/calibration/disarm'', post_calibration_disarm), (sensor_path ''/calibration/set'', post_calibration_set),
      (Fixed (api ''weather-stations''), post_weather_stations), (station_path ''/poll'', poll_weather_station),
      (Fixed (api ''export-targets''), post_export_targets), (target_path ''/run'', run_export_target),
      (Fixed (api ''db/init''), post_db_init), (Fixed (api ''login''), post_login), (Fixed (api ''logout''), post_logout),
      (Fixed (api ''me/password''), post_me_password), (Fixed (api ''users''), post_users)]"

definition put_routes :: "(pattern \<times> 's handler) list" where
  "put_routes = [(Fixed (api ''settings''), put_settings)]"

definition patch_routes :: "(pattern \<times> 's handler) list" where
  "patch_routes = [(sensor_path [], patch_sensor), (station_path [], patch_weather_station), (target_path [], patch_export_target)]"

definition delete_routes :: "(pattern \<times> 's handler) list" where
  "delete_routes =
     [(sensor_path ''/readings'', delete_readings), (sensor_path [], delete_sensor), (station_path [], delete_weather_station),
      (target_path [], delete_export_target), (Segment (api ''users/'') [], delete_users)]"

definition routes_of :: "string \<Rightarrow> (pattern \<times> 's handler) list" where
  "routes_of mth =
     (if mth = ''GET'' \<or> mth = ''HEAD'' then read_routes else if mth = ''POST'' then post_routes
      else if mth = ''PUT'' then put_routes else if mth = ''PATCH'' then patch_routes
      else if mth = ''DELETE'' then delete_routes else [])"

text \<open>The first route that matches; a request none matches is answered with 404.\<close>

definition not_found :: response where
  "not_found = \<lparr>rs_status = 404, rs_headers = [], rs_content = NoContent\<rparr>"

fun dispatch :: "(pattern \<times> 's handler) list \<Rightarrow> 's handler" where
  "dispatch [] a rq = db_ret not_found"
| "dispatch ((p, h) # r) a rq =
     (case matches p (rq_path rq) of Some m \<Rightarrow> h a (rq\<lparr>rq_match := m\<rparr>) | None \<Rightarrow> dispatch r a rq)"

definition static_or_route :: "'s handler" where
  "static_or_route a rq =
     (case (if rq_method rq = ''GET'' \<or> rq_method rq = ''HEAD'' then ap_static a (rq_path rq) else None) of
        Some (ctype, text0) \<Rightarrow> db_ret \<lparr>rs_status = 200, rs_headers = [], rs_content = TextContent ctype text0\<rparr>
      | None \<Rightarrow> dispatch (routes_of (rq_method rq)) a rq)"

text \<open>The gate of a server that listens beyond the local host.\<close>

definition public_path :: "string \<Rightarrow> bool" where
  "public_path p \<longleftrightarrow> \<not> starts_with (api []) p \<or>
     p \<in> {api ''login'', api ''logout'', api ''me'', api ''version'', api ''health''}"

definition handle :: "'s handler" where
  "handle a rq =
     (if ap_gated a \<and> \<not> public_path (rq_path rq)
      then db_bind (require_auth a rq False) (\<lambda>r. case r of Some refused \<Rightarrow> db_ret refused | None \<Rightarrow> static_or_route a rq)
      else static_or_route a rq)"

text \<open>An exception that leaves a handler is turned into a response by the HTTP library.\<close>

definition serve :: "'s api \<Rightarrow> request \<Rightarrow> 's \<Rightarrow> response \<times> 's" where
  "serve a rq s =
     (case handle a rq s of
        (Inr r, s') \<Rightarrow> (r, s')
      | (Inl e, s') \<Rightarrow> (\<lparr>rs_status = 500, rs_headers = [(''EXCEPTION_WHAT'', e)], rs_content = NoContent\<rparr>, s'))"

text \<open>Where the platform helper listens; an empty variable counts as none.\<close>

definition platform_socket_path :: "(string \<Rightarrow> string option) \<Rightarrow> string" where
  "platform_socket_path env =
     (case env ''NW_PLATFORM_SOCKET'' of
        Some p \<Rightarrow> if p = [] then ''/run/nightwatcher-platform.sock'' else p
      | None \<Rightarrow> ''/run/nightwatcher-platform.sock'')"

end
