(* ===== verification/NW_Store.thy ===== *)
theory NW_Store imports NW_Database NW_Json "HOL-Library.AList" "HOL-Library.Multiset" begin

text \<open>
  A reference database: the statements of the model executed on tables of rows, with the unique
  keys of \<^verbatim>\<open>sql/schema.sql\<close>. It is one concrete connection for which the laws below hold; the
  program itself talks to MariaDB, of which the laws are documented behaviour. Text is compared
  byte by byte, rows are kept in the order of insertion, and the value of an SQL expression is
  what \<open>db_eval\<close> says.
\<close>

section \<open>Tables\<close>

type_synonym row = "(string \<times> cell) list"

record database =
  db_rows :: "string \<Rightarrow> row list"
  db_next :: nat
  db_eval :: "string \<Rightarrow> cell"

definition row_get :: "row \<Rightarrow> string \<Rightarrow> cell" where
  "row_get r c = (case map_of r c of None \<Rightarrow> None | Some v \<Rightarrow> v)"

definition row_put :: "(string \<times> cell) list \<Rightarrow> row \<Rightarrow> row" where
  "row_put kvs r = foldl (\<lambda>m (k, v). AList.update k v m) r kvs"

definition val_of :: "(string \<Rightarrow> cell) \<Rightarrow> sql_val \<Rightarrow> cell" where
  "val_of ev v = (case v of VStr s \<Rightarrow> Some s | VLit s \<Rightarrow> Some s | VRaw e \<Rightarrow> ev e)"

definition compares :: "string \<Rightarrow> string \<Rightarrow> string \<Rightarrow> bool" where
  "compares op x y =
     (if op = ''='' then x = y else if op = ''<'' then str_less x y else if op = ''>'' then str_less y x
      else if op = ''<='' then \<not> str_less y x else if op = ''>='' then \<not> str_less x y else False)"

definition holds :: "(string \<Rightarrow> cell) \<Rightarrow> row \<Rightarrow> sql_cond \<Rightarrow> bool" where
  "holds ev r cnd =
     (case cnd of (c, op, v) \<Rightarrow>
        (case (row_get r c, val_of ev v) of
           (Some x, Some y) \<Rightarrow> compares (filter (\<lambda>ch. ch \<noteq> CHR '' '') op) x y
         | _ \<Rightarrow> False))"

definition all_hold :: "(string \<Rightarrow> cell) \<Rightarrow> sql_cond list \<Rightarrow> row \<Rightarrow> bool" where
  "all_hold ev cnds r = list_all (holds ev r) cnds"

text \<open>The unique keys of the schema; the two tables without one are logs.\<close>

definition unique_key :: "string \<Rightarrow> string list" where
  "unique_key t =
     (if t = ''users'' then [''username''] else if t = ''sessions'' then [''token'']
      else if t = ''settings'' \<or> t = ''extensions'' then [''name'']
      else if t = ''readings'' then [''sensor_id'', ''ts_utc''] else if t = ''weather_readings'' then [''station_id'', ''ts_utc'']
      else [''id''])"

text \<open>Key columns are never null: a row without its key does not count.\<close>

definition keyed :: "string \<Rightarrow> row \<Rightarrow> bool" where
  "keyed t r = list_all (\<lambda>k. row_get r k \<noteq> None) (unique_key t)"

definition same_key :: "string \<Rightarrow> row \<Rightarrow> row \<Rightarrow> bool" where
  "same_key t r r' \<longleftrightarrow> keyed t r \<and> list_all (\<lambda>k. row_get r k = row_get r' k) (unique_key t)"

definition put_rows :: "string \<Rightarrow> row list \<Rightarrow> database \<Rightarrow> database" where
  "put_rows t rs db = db\<lparr>db_rows := (db_rows db)(t := rs)\<rparr>"

definition insert_row :: "bool \<Rightarrow> string \<Rightarrow> row \<Rightarrow> string list \<Rightarrow> database \<Rightarrow> reply \<times> database" where
  "insert_row ignore t r dup db =
     (let full = (if map_of r ''id'' = None then (''id'', Some (show_nat (db_next db))) # r else r);
          rs = db_rows db t
      in if \<not> keyed t full then (Failed ''Column cannot be null'', db)
         else if list_ex (same_key t full) rs
         then if dup \<noteq> []
              then (Done 2 0, put_rows t (map (\<lambda>x. if same_key t full x
                                 then row_put (filter (\<lambda>(k, _). k \<in> set dup) r) x else x) rs) db)
              else if ignore then (Done 0 0, db) else (Failed ''Duplicate entry'', db)
         else (Done 1 (int (db_next db)), put_rows t (rs @ [full]) (db\<lparr>db_next := Suc (db_next db)\<rparr>)))"

definition session_join :: "database \<Rightarrow> row list" where
  "session_join db = concat (map (\<lambda>s. map (\<lambda>u. map (\<lambda>(k, v). (''s.'' @ k, v)) s @ map (\<lambda>(k, v). (''u.'' @ k, v)) u)
     (filter (\<lambda>u. row_get u ''id'' = row_get s ''user_id'' \<and> row_get u ''id'' \<noteq> None) (db_rows db ''users''))) (db_rows db ''sessions''))"

definition from_rows :: "string \<Rightarrow> database \<Rightarrow> row list" where
  "from_rows t db = (if t = ''sessions s JOIN users u ON u.id = s.user_id'' then session_join db else filter (keyed t) (db_rows db t))"

definition select_rows :: "string list \<Rightarrow> row list \<Rightarrow> (string \<times> bool) list \<Rightarrow> int option \<Rightarrow> cell list list" where
  "select_rows cols rs order limit =
     (if cols = [''COUNT(*)''] then [[Some (show_nat (length rs))]]
      else map (\<lambda>r. map (row_get r) cols)
             ((case limit of None \<Rightarrow> \<lambda>x. x | Some n \<Rightarrow> take (nat n)) (if list_ex snd order then rev rs else rs)))"

definition store_conn :: "database conn" where
  "store_conn db stmt =
     (case stmt of
        Insert ignore t cols vals dup \<Rightarrow> insert_row ignore t (zip cols (map (val_of (db_eval db)) vals)) dup db
      | Update t sets cnds \<Rightarrow>
          (Done (int (length (filter (all_hold (db_eval db) cnds) (db_rows db t)))) 0,
           put_rows t (map (\<lambda>r. if all_hold (db_eval db) cnds r
              then row_put (map (\<lambda>(k, v). (k, val_of (db_eval db) v)) sets) r else r) (db_rows db t)) db)
      | Delete t cnds \<Rightarrow>
          (Done (int (length (filter (all_hold (db_eval db) cnds) (db_rows db t)))) 0,
           put_rows t (filter (\<lambda>r. \<not> all_hold (db_eval db) cnds r) (db_rows db t)) db)
      | Select cols t cnds order limit \<Rightarrow>
          (Rows cols (select_rows cols (filter (all_hold (db_eval db) cnds) (from_rows t db)) order limit), db)
      | Script _ \<Rightarrow> (Failed ''unsupported'', db))"

section \<open>What the user methods rely on\<close>

text \<open>\<open>U s\<close> are the users stored in the state \<open>s\<close>.\<close>

locale user_store =
  fixes c :: "'s conn" and U :: "'s \<Rightarrow> UserRow list"
  assumes find: "find_user c n s = (fr, s') \<Longrightarrow>
      U s' = U s \<and> (case fr of Inl _ \<Rightarrow> True | Inr None \<Rightarrow> n \<notin> us_username ` set (U s)
        | Inr (Some u) \<Rightarrow> u \<in> set (U s) \<and> us_username u = n)"
    and all: "users c s = (ar, s') \<Longrightarrow> U s' = U s \<and> (\<forall>us. ar = Inr us \<longrightarrow> mset us = mset (U s))"
    and remove: "delete_user c n s = (dr, s') \<Longrightarrow>
      U s' = (if is_ok dr then filter (\<lambda>u. us_username u \<noteq> n) (U s) else U s)"
    and add: "create_user c n h role b s = (cr, s') \<Longrightarrow>
      if is_ok cr then \<exists>u. U s' = U s @ [u] \<and> us_username u = n \<and> us_password_hash u = h \<and> us_role u = role
      else U s' = U s"

definition user_of_row :: "row \<Rightarrow> UserRow" where
  "user_of_row r = user_from_row (map (row_get r) kUserCols)"

definition store_users :: "database \<Rightarrow> UserRow list" where
  "store_users db = map user_of_row (filter (keyed ''users'') (db_rows db ''users''))"

lemma keyed_users: "keyed ''users'' r \<longleftrightarrow> row_get r ''username'' \<noteq> None"
  by (simp add: keyed_def unique_key_def)

lemma user_of_row_name: "us_username (user_of_row r) = (case row_get r ''username'' of None \<Rightarrow> [] | Some s \<Rightarrow> s)"
  by (simp add: user_of_row_def user_from_row_def kUserCols_def str_cell_def cell_def)

lemma store_select:
  "store_conn db (Select cols t cnds order limit) =
     (Rows cols (select_rows cols (filter (all_hold (db_eval db) cnds) (from_rows t db)) order limit), db)"
  by (simp add: store_conn_def)

lemma store_fetch:
  "fetch_all store_conn f (Select cols t cnds order limit) db =
     (Inr (map f (select_rows cols (filter (all_hold (db_eval db) cnds) (from_rows t db)) order limit)), db)"
  "fetch_first store_conn f (Select cols t cnds order limit) db =
     (Inr (first_row f (select_rows cols (filter (all_hold (db_eval db) cnds) (from_rows t db)) order limit)), db)"
  by (simp_all add: fetch_all_def fetch_first_def select_def fetch_def exec_def store_select db_map_def db_bind_def db_ret_def)

lemma user_cols: "kUserCols \<noteq> [''COUNT(*)'']" and users_table: "from_rows ''users'' db = filter (keyed ''users'') (db_rows db ''users'')"
  by (simp_all add: kUserCols_def from_rows_def)

lemma name_holds: "all_hold ev [(''username'', ''='', VStr n)] r \<longleftrightarrow> keyed ''users'' r \<and> us_username (user_of_row r) = n"
  by (auto simp: all_hold_def holds_def val_of_def compares_def keyed_users user_of_row_name split: option.splits)

lemma store_find_user:
  "find_user store_conn n db =
     (Inr (case filter (\<lambda>u. us_username u = n) (store_users db) of [] \<Rightarrow> None | u # _ \<Rightarrow> Some u), db)"
proof -
  let ?rs = "filter (\<lambda>r. us_username (user_of_row r) = n) (filter (keyed ''users'') (db_rows db ''users''))"
  have u: "filter (\<lambda>u. us_username u = n) (store_users db) = map user_of_row ?rs"
    unfolding store_users_def by (simp add: filter_map comp_def)
  have f: "filter (all_hold (db_eval db) [(''username'', ''='', VStr n)]) (from_rows ''users'' db) = ?rs"
    unfolding users_table by (intro filter_cong refl) (simp only: name_holds set_filter mem_Collect_eq simp_thms)
  have "(case map user_of_row rs of [] \<Rightarrow> None | u # _ \<Rightarrow> Some u) =
      first_row user_from_row (select_rows kUserCols rs [] (Some 1))" for rs
    by (cases rs) (simp_all add: select_rows_def user_cols first_row_def user_of_row_def)
  then show ?thesis unfolding find_user_def store_fetch(2) f u by simp
qed

lemma store_all_users: "users store_conn db = (Inr (store_users db), db)"
  unfolding users_def store_fetch(1) users_table
  by (simp add: select_rows_def user_cols store_users_def user_of_row_def comp_def all_hold_def)

lemma store_delete_user:
  "delete_user store_conn n db = (r, db') \<Longrightarrow> is_ok r \<and> store_users db' = filter (\<lambda>u. us_username u \<noteq> n) (store_users db)"
proof -
  let ?rs = "db_rows db ''users''"
  have "filter (keyed ''users'') (filter (\<lambda>r. \<not> all_hold ev [(''username'', ''='', VStr n)] r) rs) =
      filter (\<lambda>r. us_username (user_of_row r) \<noteq> n) (filter (keyed ''users'') rs)" for ev rs
    unfolding filter_filter by (intro filter_cong refl) (simp only: name_holds, blast)
  moreover assume "delete_user store_conn n db = (r, db')"
  ultimately show ?thesis
    by (auto simp: delete_user_def exec_def store_conn_def db_map_def db_bind_def db_ret_def put_rows_def store_users_def
        filter_map comp_def)
qed

lemma row_get_Cons: "row_get ((k, v) # r) c = (if c = k then v else row_get r c)"
  by (simp add: row_get_def)

lemma store_create_user:
  assumes "create_user store_conn n h role b db = (r, db')"
  shows "if is_ok r then \<exists>u. store_users db' = store_users db @ [u] \<and> us_username u = n \<and> us_password_hash u = h \<and> us_role u = role
     else store_users db' = store_users db"
proof -
  let ?full = "[(''id'', Some (show_nat (db_next db))), (''username'', Some n), (''password_hash'', Some h), (''role'', Some role),
     (''must_change_password'', db_eval db (if b then ''1'' else ''0''))]"
  have k: "keyed ''users'' ?full" by (simp add: keyed_users row_get_def)
  have u: "us_username (user_of_row ?full) = n" "us_password_hash (user_of_row ?full) = h" "us_role (user_of_row ?full) = role"
    by (simp_all add: user_of_row_def user_from_row_def kUserCols_def str_cell_def cell_def row_get_def)
  have "store_conn db (Insert False ''users'' [''username'', ''password_hash'', ''role'', ''must_change_password'']
       [VStr n, VStr h, VStr role, vflag b] []) =
     (if list_ex (same_key ''users'' ?full) (db_rows db ''users'') then (Failed ''Duplicate entry'', db)
      else (Done 1 (int (db_next db)), put_rows ''users'' (db_rows db ''users'' @ [?full]) (db\<lparr>db_next := Suc (db_next db)\<rparr>)))"
    using k by (cases b) (simp_all add: store_conn_def insert_row_def Let_def val_of_def vflag_def)
  then show ?thesis
    using assms k u
    by (auto simp: create_user_def run_stmt_def exec_def db_map_def db_bind_def db_ret_def store_users_def put_rows_def
        split: if_splits)
qed

interpretation mem: user_store store_conn store_users
proof unfold_locales
  fix n s fr s'
  assume "find_user store_conn n s = (fr, s')"
  then show "store_users s' = store_users s \<and> (case fr of Inl _ \<Rightarrow> True | Inr None \<Rightarrow> n \<notin> us_username ` set (store_users s)
        | Inr (Some u) \<Rightarrow> u \<in> set (store_users s) \<and> us_username u = n)"
    unfolding store_find_user
    by (auto split: list.splits simp: filter_eq_Cons_iff filter_empty_conv)
next
  fix s ar s'
  assume "users store_conn s = (ar, s')"
  then show "store_users s' = store_users s \<and> (\<forall>us. ar = Inr us \<longrightarrow> mset us = mset (store_users s))"
    by (auto simp: store_all_users)
next
  fix n s dr s'
  assume "delete_user store_conn n s = (dr, s')"
  then show "store_users s' = (if is_ok dr then filter (\<lambda>u. us_username u \<noteq> n) (store_users s) else store_users s)"
    using store_delete_user by simp
next
  fix n h role b s cr s'
  assume "create_user store_conn n h role b s = (cr, s')"
  then show "if is_ok cr then \<exists>u. store_users s' = store_users s @ [u] \<and> us_username u = n \<and> us_password_hash u = h \<and> us_role u = role
      else store_users s' = store_users s"
    by (rule store_create_user)
qed

end
