(* ===== verification/NW_ApiProps.thy ===== *)
theory NW_ApiProps imports NW_ApiMore NW_Store begin

text \<open>
  Properties of the HTTP API as a whole: who gets in, what signing in requires, and what the user
  handlers keep of the user table. A server on the reference database shows that the hypotheses
  can hold.
\<close>

section \<open>Who gets in\<close>

lemma auth_of_match [simp]:
  "token_ok a (rq\<lparr>rq_match := m\<rparr>) = token_ok a rq" "session_info a (rq\<lparr>rq_match := m\<rparr>) = session_info a rq"
  "require_auth a (rq\<lparr>rq_match := m\<rparr>) n = require_auth a rq n"
  by (simp_all add: token_ok_def session_info_def session_token_def get_cookie_def require_auth_def)

text \<open>
  A server that listens beyond the local host answers every API request without a valid session
  or the API token with 401, whatever the method and the path, apart from sign-in, sign-out, the
  caller's own identity, version and health; its only access to the database is the look-up of
  the session.
\<close>

theorem gate_requires_credentials:
  assumes "ap_gated a" and "\<not> public_path (rq_path rq)" and "\<not> token_ok a rq"
    and "session_info a rq s = (Inr None, s')"
  shows "serve a rq s = (reply_err 401 ''unauthorized'', s')"
  using assms by (simp add: serve_def handle_def require_auth_def db_bind_def db_ret_def)

definition is_select :: "sql_stmt \<Rightarrow> bool" where
  "is_select stmt = (case stmt of Select _ _ _ _ _ \<Rightarrow> True | _ \<Rightarrow> False)"

lemma catch_returns: "\<exists>x s'. db_catch m (\<lambda>_. db_ret d) s = (Inr x, s')"
  by (cases "m s"; cases "fst (m s)") (auto simp: db_catch_def db_ret_def)

lemma session_info_returns: "\<exists>si s'. session_info a rq s = (Inr si, s')"
  by (cases "session_token rq = []") (simp add: session_info_def db_ret_def, simp add: session_info_def, rule catch_returns)

lemma keeps_session_info:
  assumes "conn_keeps I is_select (ap_conn a)" and "keeps I (ap_open a)"
  shows "keeps I (session_info a rq)"
  unfolding session_info_def Let_def with_db_def validate_session_def
  by (auto intro!: keeps_intro assms(2) keeps_fetch_first [OF assms(1)] simp: is_select_def)

text \<open>A caller without admin rights: no API token, and no admin session in any state with \<open>I\<close>.\<close>

definition not_admin :: "('s \<Rightarrow> bool) \<Rightarrow> 's api \<Rightarrow> request \<Rightarrow> bool" where
  "not_admin I a rq \<longleftrightarrow> \<not> token_ok a rq \<and>
     (\<forall>s i s'. I s \<longrightarrow> session_info a rq s = (Inr (Some i), s') \<longrightarrow> si_role i \<noteq> ''admin'')"

definition refused :: "response \<Rightarrow> bool" where
  "refused r \<longleftrightarrow> r \<in> {reply_err 401 ''unauthorized'', reply_err 403 ''admin role required'', not_found}"

lemma require_auth_refuses:
  assumes "not_admin I a rq" and "I s" and "keeps I (session_info a rq)"
  shows "\<exists>r s'. require_auth a rq True s = (Inr (Some r), s') \<and> refused r \<and> I s'"
proof -
  obtain si s' where si: "session_info a rq s = (Inr si, s')" using session_info_returns by metis
  have I: "I s'" using keepsD [OF assms(3,2) si] .
  show ?thesis
  proof (cases si)
    case None
    then show ?thesis using assms(1) si I by (simp add: require_auth_def not_admin_def db_bind_def db_ret_def refused_def)
  next
    case (Some i)
    then have "si_role i \<noteq> ''admin''" using assms(1,2) si unfolding not_admin_def by blast
    then show ?thesis
      using assms(1) si I Some by (simp add: require_auth_def not_admin_def db_bind_def db_ret_def refused_def)
  qed
qed

lemma admin_only_refuses:
  assumes "not_admin I a rq" and "I s" and "keeps I (session_info a rq)"
  shows "\<exists>r s'. admin_only h a (rq\<lparr>rq_match := m\<rparr>) s = (Inr r, s') \<and> refused r \<and> I s'"
proof -
  obtain r s' where "require_auth a rq True s = (Inr (Some r), s')" "refused r" "I s'"
    using require_auth_refuses [OF assms] by metis
  then show ?thesis by (simp add: admin_only_def db_bind_def db_ret_def)
qed

text \<open>Every write route but three is for admins only.\<close>

definition for_admins :: "'s handler \<Rightarrow> bool" where
  "for_admins h \<longleftrightarrow> (\<exists>g. h = admin_only g)"

lemma for_admins_sensors:
  "for_admins post_settings_apply" "for_admins put_settings" "for_admins post_sensors" "for_admins patch_sensor"
  "for_admins delete_readings" "for_admins delete_sensor" "for_admins poll_sensor" "for_admins test_sensor"
  "for_admins enable_sensor" "for_admins disable_sensor" "for_admins any_platform"
  unfolding for_admins_def post_settings_apply_def put_settings_def post_sensors_def patch_sensor_def delete_readings_def
    delete_sensor_def poll_sensor_def test_sensor_def enable_sensor_def disable_sensor_def set_status_def any_platform_def
  by blast+

lemma for_admins_more:
  "for_admins post_calibration_record" "for_admins post_calibration_arm" "for_admins post_calibration_disarm"
  "for_admins post_calibration_set" "for_admins post_weather_stations" "for_admins patch_weather_station"
  "for_admins delete_weather_station" "for_admins poll_weather_station" "for_admins post_export_targets"
  "for_admins patch_export_target" "for_admins delete_export_target" "for_admins run_export_target"
  "for_admins post_db_init" "for_admins post_users" "for_admins delete_users"
  unfolding for_admins_def post_calibration_record_def post_calibration_arm_def post_calibration_disarm_def
    post_calibration_set_def post_weather_stations_def patch_weather_station_def delete_weather_station_def
    poll_weather_station_def post_export_targets_def patch_export_target_def delete_export_target_def
    run_export_target_def post_db_init_def post_users_def delete_users_def
  by blast+

definition open_writes :: "string set" where
  "open_writes = {api ''login'', api ''logout'', api ''me/password''}"

lemma write_routes_for_admins:
  assumes "mth \<notin> {''GET'', ''HEAD''}"
  shows "list_all (\<lambda>(p, h). for_admins h \<or> (\<exists>f\<in>open_writes. p = Fixed f)) (routes_of mth :: (pattern \<times> 's handler) list)"
proof -
  have "list_all (\<lambda>(p, h). for_admins h \<or> (\<exists>f\<in>open_writes. p = Fixed f)) (post_routes :: (pattern \<times> 's handler) list)"
    by (simp add: post_routes_def for_admins_sensors for_admins_more open_writes_def)
  moreover have "list_all (\<lambda>(p, h). for_admins h \<or> (\<exists>f\<in>open_writes. p = Fixed f)) (put_routes @ patch_routes @ delete_routes :: (pattern \<times> 's handler) list)"
    by (simp add: put_routes_def patch_routes_def delete_routes_def for_admins_sensors for_admins_more)
  ultimately show ?thesis using assms by (simp add: routes_of_def)
qed

lemma dispatch_refuses:
  assumes "not_admin I a rq" and "I s" and "keeps I (session_info a rq)" and "rq_path rq \<notin> open_writes"
  shows "list_all (\<lambda>(p, h). for_admins h \<or> (\<exists>f\<in>open_writes. p = Fixed f)) rs \<Longrightarrow>
    \<exists>r s'. dispatch rs a rq s = (Inr r, s') \<and> refused r \<and> I s'"
proof (induction rs)
  case Nil
  then show ?case using assms(2) by (simp add: db_ret_def refused_def)
next
  case (Cons ph rs)
  obtain p h where ph: "ph = (p, h)" by (cases ph)
  show ?case
  proof (cases "matches p (rq_path rq)")
    case None
    then show ?thesis using Cons by (simp add: ph)
  next
    case (Some m)
    have "p \<noteq> Fixed f" if "f \<in> open_writes" for f
      using that Some assms(4) by (auto simp: matches_def split: if_splits)
    then obtain g where "h = admin_only g" using Cons.prems by (auto simp: ph for_admins_def)
    then show ?thesis using admin_only_refuses [OF assms(1-3)] Some by (simp add: ph)
  qed
qed

text \<open>
  C1. Without admin rights nothing can be changed over HTTP: any request that is not a read, other
  than signing in or out and changing one's own password, is refused with 401, 403 or 404, and
  whatever look-ups alone leave unchanged in the database, the devices and the host is
  unchanged.
\<close>

theorem writes_need_admin:
  assumes "rq_method rq \<notin> {''GET'', ''HEAD''}" and "rq_path rq \<notin> open_writes"
    and conn: "conn_keeps I is_select (ap_conn a)" "keeps I (ap_open a)"
    and who: "not_admin I a rq" and "I s"
  shows "refused (fst (serve a rq s)) \<and> I (snd (serve a rq s))"
proof -
  note k = keeps_session_info [OF conn, of rq]
  have "static_or_route a rq = dispatch (routes_of (rq_method rq)) a rq"
    using assms(1) by (simp add: static_or_route_def fun_eq_iff)
  then have route: "\<exists>r s'. static_or_route a rq s = (Inr r, s') \<and> refused r \<and> I s'" if "I s" for s
    using dispatch_refuses [OF who that k assms(2) write_routes_for_admins [OF assms(1)]] by simp
  obtain si s1 where si: "session_info a rq s = (Inr si, s1)" using session_info_returns by metis
  have I1: "I s1" using keepsD [OF k assms(6) si] .
  have "\<exists>r s'. handle a rq s = (Inr r, s') \<and> refused r \<and> I s'"
  proof (cases "ap_gated a \<and> \<not> public_path (rq_path rq)")
    case True
    then show ?thesis
      using si I1 who route [OF I1]
      by (cases si) (simp_all add: handle_def require_auth_def not_admin_def db_bind_def db_ret_def refused_def)
  next
    case False
    then have "handle a rq s = static_or_route a rq s" by (auto simp: handle_def)
    then show ?thesis using route [OF assms(6)] by simp
  qed
  then show ?thesis by (auto simp: serve_def)
qed

section \<open>Signing in\<close>

lemma db_lift_Inr: "db_lift r s = (Inr x, s') \<longleftrightarrow> r = Inr x \<and> s' = s"
  by (auto simp: db_lift_def)

lemma or_error_status: "status \<noteq> rs_status r \<Longrightarrow> or_error status m s = (Inr r, s') \<Longrightarrow> m s = (Inr r, s')"
  by (auto simp: or_error_def db_catch_def send_err_def db_ret_def reply_err_def reply_json_def split: prod.splits sum.splits)

lemma send_status: "send n j s = (Inr r, s') \<longleftrightarrow> r = reply_json n j \<and> s' = s"
  by (auto simp: send_def db_ret_def)

lemma send_err_status: "send_err n e s = (Inr r, s') \<longleftrightarrow> r = reply_err n e \<and> s' = s"
  by (auto simp: send_err_def db_ret_def)

lemma reply_status [simp]: "rs_status (reply_json n j) = n" "rs_status (reply_err n e) = n"
  by (simp_all add: reply_json_def reply_err_def)

text \<open>
  C7. Signing in succeeds only with the password of a stored user: a 200 means that the hash kept
  for that user name verifies the password sent, and that the token handed out, in the body and
  in the cookie, is the one a week-long session of that user was just stored under.
\<close>

theorem login_checks_password:
  assumes "post_login a rq s = (Inr r, s')" and "rs_status r = 200"
  shows "\<exists>b username pw u tok s1 s2 s3.
    sv_parse (ap_sv a) (rq_body rq) = Inr b \<and> member b ''username'' = Some (JStr username) \<and>
    member b ''password'' = Some (JStr pw) \<and>
    find_user (ap_conn a) username s1 = (Inr (Some u), s2) \<and>
    verify_password (ap_kdf a) pw (us_password_hash u) = Inr True \<and>
    create_session (ap_conn a) tok (us_id u) 604800 s3 = (Inr (), s') \<and> r = login_reply tok u"
proof -
  obtain b un pw where b: "sv_parse (ap_sv a) (rq_body rq) = Inr b" "member b ''username'' = Some un"
    "member b ''password'' = Some pw" and w: "login_with a un pw s = (Inr r, s')"
    using assms by (auto simp: post_login_def json_body_def send_err_status split: sum.splits option.splits)
  obtain username s1 s2 u good where f: "get_str un = Inr username" "find_user (ap_conn a) username s1 = (Inr u, s2)"
    "password_matches a pw u = Inr good"
    and rest: "(case u of
         Some x \<Rightarrow>
           if \<not> good then send_err 401 ''invalid credentials''
           else db_bind (random_token a) (\<lambda>sess.
                db_bind (create_session (ap_conn a) sess (us_id x) session_ttl) (\<lambda>_. db_ret (login_reply sess x)))
       | None \<Rightarrow> send_err 401 ''invalid credentials'') s2 = (Inr r, s')"
    using or_error_status [OF _ w [unfolded login_with_def]] assms(2)
    by (auto simp: with_db_def db_bind_Inr db_lift_Inr)
  obtain x where x: "u = Some x" "good"
    using rest assms(2) by (auto simp: send_err_status split: option.splits if_splits)
  obtain tok s3 where t: "create_session (ap_conn a) tok (us_id x) session_ttl s3 = (Inr (), s')" "r = login_reply tok x"
    using rest x by (auto simp: db_bind_Inr db_ret_def)
  have "un = JStr username" using f(1) by (cases un) (simp_all add: get_str_def type_error_def)
  moreover have "\<exists>p. pw = JStr p \<and> verify_password (ap_kdf a) p (us_password_hash x) = Inr True"
    using f(3) x by (cases pw) (auto simp: password_matches_def get_str_def type_error_def)
  ultimately show ?thesis using b f(2) x(1) t unfolding session_ttl_def by blast
qed

section \<open>Users\<close>

text \<open>\<open>triple P m Q E\<close>: from a state with \<open>P\<close>, \<open>m\<close> returns with \<open>Q\<close> or throws with \<open>E\<close>.\<close>

definition triple :: "('s \<Rightarrow> bool) \<Rightarrow> ('s, 'a) db \<Rightarrow> ('a \<Rightarrow> 's \<Rightarrow> bool) \<Rightarrow> ('s \<Rightarrow> bool) \<Rightarrow> bool" where
  "triple P m Q E \<longleftrightarrow> (\<forall>s. P s \<longrightarrow> (case m s of (Inr x, s') \<Rightarrow> Q x s' | (Inl e, s') \<Rightarrow> E s'))"

named_theorems triple_intro \<open>rules for the computations the handlers are made of\<close>

lemma triple_ret [triple_intro]: "(\<And>s. P s \<Longrightarrow> Q x s) \<Longrightarrow> triple P (db_ret x) Q E"
  by (simp add: triple_def db_ret_def)

lemma triple_bind: "triple P m R E \<Longrightarrow> (\<And>x. triple (R x) (f x) Q E) \<Longrightarrow> triple P (db_bind m f) Q E"
  unfolding triple_def db_bind_def by (fastforce split: prod.splits sum.splits)

lemma triple_map: "triple P m (\<lambda>x. Q (f x)) E \<Longrightarrow> triple P (db_map f m) Q E"
  unfolding db_map_def by (rule triple_bind) (auto intro: triple_ret)

lemma triple_lift [triple_intro]: "(\<And>s x. P s \<Longrightarrow> r = Inr x \<Longrightarrow> Q x s) \<Longrightarrow> (\<And>s. P s \<Longrightarrow> E s) \<Longrightarrow> triple P (db_lift r) Q E"
  by (cases r) (simp_all add: triple_def db_lift_def)

lemma triple_send [triple_intro]:
  "(\<And>s. P s \<Longrightarrow> Q (reply_json n j) s) \<Longrightarrow> triple P (send n j) Q E"
  "(\<And>s. P s \<Longrightarrow> Q (reply_err n e) s) \<Longrightarrow> triple P (send_err n e) Q E"
  unfolding send_def send_err_def by (auto intro: triple_ret)

lemma triple_or_error: "triple P m Q E \<Longrightarrow> (\<And>s e. E s \<Longrightarrow> Q (reply_err n e) s) \<Longrightarrow> triple P (or_error n m) Q F"
  unfolding triple_def or_error_def db_catch_def send_err_def db_ret_def by (fastforce split: prod.splits sum.splits)

lemma triple_weaken:
  "triple P m Q E \<Longrightarrow> (\<And>s. P' s \<Longrightarrow> P s) \<Longrightarrow> (\<And>x s. Q x s \<Longrightarrow> Q' x s) \<Longrightarrow> (\<And>s. E s \<Longrightarrow> E' s) \<Longrightarrow> triple P' m Q' E'"
  unfolding triple_def by (fastforce split: prod.splits sum.splits)

lemma triple_snd: "triple P m (\<lambda>_. R) R \<Longrightarrow> P s \<Longrightarrow> R (snd (m s))"
  unfolding triple_def by (cases "m s"; cases "fst (m s)") fastforce+

lemma triple_keeps: "(\<And>s. f (snd (m s)) = f s) \<Longrightarrow> triple (\<lambda>s. f s = x) m (\<lambda>_ s. f s = x) (\<lambda>s. f s = x)"
  by (auto simp: triple_def split: prod.splits sum.splits) (metis snd_conv)+

lemma tripleI:
  "(\<And>s r s'. P s \<Longrightarrow> m s = (r, s') \<Longrightarrow> (case r of Inl e \<Rightarrow> E s' | Inr x \<Rightarrow> Q x s')) \<Longrightarrow> triple P m Q E"
  by (auto simp: triple_def split: prod.splits sum.splits)

lemma tripleD: "triple P m Q E \<Longrightarrow> P s \<Longrightarrow> m s = (Inr x, s') \<Longrightarrow> Q x s'"
  by (auto simp: triple_def split: prod.splits)

lemma triple_assume: "(\<And>s. P s \<Longrightarrow> p) \<Longrightarrow> (p \<Longrightarrow> triple P m Q E) \<Longrightarrow> triple P m Q E"
  by (auto simp: triple_def)

text \<open>User names are unique and there is an admin.\<close>

definition users_ok :: "UserRow list \<Rightarrow> bool" where
  "users_ok us \<longleftrightarrow> distinct (map us_username us) \<and> 0 < admin_count us"

lemma admin_count_mset: "mset xs = mset ys \<Longrightarrow> admin_count xs = admin_count ys"
  unfolding admin_count_def by (metis mset_filter size_mset)

lemma users_ok_append:
  "users_ok us \<Longrightarrow> us_username u \<notin> us_username ` set us \<Longrightarrow> users_ok (us @ [u])"
  by (simp add: users_ok_def admin_count_def)

lemma filter_other_names:
  "distinct (map us_username us) \<Longrightarrow> u \<in> set us \<Longrightarrow> filter (\<lambda>x. us_username x \<noteq> us_username u) us = remove1 u us"
proof (induction us)
  case (Cons x us)
  show ?case
  proof (cases "x = u")
    case True
    have "us_username y \<noteq> us_username x" if "y \<in> set us" for y
      using Cons.prems(1) that by (metis distinct.simps(2) image_eqI list.set_map list.simps(9))
    then show ?thesis using True by simp
  next
    case False
    then have "us_username x \<noteq> us_username u" using Cons.prems by (auto simp: image_iff)
    then show ?thesis using Cons False by auto
  qed
qed simp

lemma admin_count_remove1:
  "u \<in> set us \<Longrightarrow> admin_count (remove1 u us) = admin_count us - (if us_role u = ''admin'' then 1 else 0)"
  unfolding admin_count_def by (simp add: filter_remove1 length_remove1)

lemma users_ok_remove:
  assumes "users_ok us" and "u \<in> set us" and "us_role u = ''admin'' \<Longrightarrow> 1 < admin_count us"
  shows "users_ok (filter (\<lambda>x. us_username x \<noteq> us_username u) us)"
proof -
  have eq: "filter (\<lambda>x. us_username x \<noteq> us_username u) us = remove1 u us"
    using assms(1,2) by (intro filter_other_names) (simp_all add: users_ok_def)
  have "distinct (map us_username (filter (\<lambda>x. us_username x \<noteq> us_username u) us))"
    using assms(1) by (simp add: users_ok_def distinct_map_filter)
  moreover have "0 < admin_count (remove1 u us)"
    using assms admin_count_remove1 [OF assms(2)] by (auto simp: users_ok_def)
  ultimately show ?thesis unfolding users_ok_def eq by blast
qed

text \<open>
  What the two user operations promise: they work on a map from names to a password hash and a role.
  A creation binds a fresh name, a removal unbinds a name unless it is the only admin, and a request
  that is not answered with success leaves the map alone.
\<close>

type_synonym accounts = "string \<rightharpoonup> string \<times> string"

definition accounts :: "UserRow list \<Rightarrow> accounts" where
  "accounts us = map_of (map (\<lambda>u. (us_username u, (us_password_hash u, us_role u))) us)"

definition admins :: "accounts \<Rightarrow> string set" where
  "admins m = {n. \<exists>h. m n = Some (h, ''admin'')}"

definition add_spec :: "(string \<Rightarrow> string \<Rightarrow> bool) \<Rightarrow> json \<Rightarrow> json \<Rightarrow> string \<Rightarrow> int \<Rightarrow> accounts \<Rightarrow> accounts \<Rightarrow> bool" where
  "add_spec ver un pw role st m m' \<longleftrightarrow>
     st = 201 \<and> (\<exists>n p h. un = JStr n \<and> pw = JStr p \<and> m n = None \<and> ver p h \<and> m' = m(n \<mapsto> (h, role))) \<or>
     st = 409 \<and> m' = m \<and> (\<exists>n. un = JStr n \<and> m n \<noteq> None) \<or>
     st = 500 \<and> m' = m"

definition remove_spec :: "string \<Rightarrow> int \<Rightarrow> accounts \<Rightarrow> accounts \<Rightarrow> bool" where
  "remove_spec n st m m' \<longleftrightarrow>
     st = 200 \<and> m n \<noteq> None \<and> admins m \<noteq> {n} \<and> m' = m(n := None) \<or>
     st = 404 \<and> m' = m \<and> m n = None \<or>
     st = 409 \<and> m' = m \<and> admins m = {n} \<or>
     st = 500 \<and> m' = m"

lemma accounts_None [simp]: "accounts us n = None \<longleftrightarrow> n \<notin> us_username ` set us"
  by (simp add: accounts_def map_of_eq_None_iff image_image)

lemma accounts_Some:
  "distinct (map us_username us) \<Longrightarrow> accounts us n = Some (h, r) \<longleftrightarrow>
     (\<exists>u \<in> set us. us_username u = n \<and> us_password_hash u = h \<and> us_role u = r)"
  unfolding accounts_def by (subst map_of_eq_Some_iff) (auto simp: comp_def)

lemma accounts_append:
  "us_username u \<notin> us_username ` set us \<Longrightarrow>
     accounts (us @ [u]) = (accounts us)(us_username u \<mapsto> (us_password_hash u, us_role u))"
  by (induction us) (auto simp: accounts_def fun_eq_iff)

lemma accounts_filter: "accounts (filter (\<lambda>u. us_username u \<noteq> n) us) = (accounts us)(n := None)"
  by (induction us) (auto simp: accounts_def fun_eq_iff)

lemma admins_accounts:
  "distinct (map us_username us) \<Longrightarrow> admins (accounts us) = us_username ` set (filter (\<lambda>u. us_role u = ''admin'') us)"
  by (auto simp: admins_def accounts_Some)

lemma sole_admin:
  assumes "distinct (map us_username us)" and "u \<in> set us"
  shows "us_role u = ''admin'' \<and> admin_count us \<le> 1 \<longleftrightarrow> admins (accounts us) = {us_username u}"
proof -
  let ?f = "filter (\<lambda>u. us_role u = ''admin'') us"
  have card: "card (admins (accounts us)) = admin_count us"
    unfolding admins_accounts [OF assms(1)] admin_count_def
    using distinct_card [OF distinct_map_filter [OF assms(1), of "\<lambda>u. us_role u = ''admin''"]] by simp
  have iff: "us_username u \<in> admins (accounts us) \<longleftrightarrow> us_role u = ''admin''"
    using assms by (auto simp: admins_accounts [OF assms(1)] distinct_map inj_on_def)
  have fin: "finite (admins (accounts us))" unfolding admins_accounts [OF assms(1)] by simp
  show ?thesis
  proof
    assume a: "us_role u = ''admin'' \<and> admin_count us \<le> 1"
    then show "admins (accounts us) = {us_username u}"
      using card fin iff by (metis card_le_Suc0_iff_eq One_nat_def insertI1 is_singletonI' is_singleton_the_elem singletonD empty_iff)
  next
    assume "admins (accounts us) = {us_username u}"
    then show "us_role u = ''admin'' \<and> admin_count us \<le> 1" using card iff by simp
  qed
qed

text \<open>A hash the server made of a password, with random bytes of its own.\<close>

definition made_from :: "'s api \<Rightarrow> string \<Rightarrow> string \<Rightarrow> bool" where
  "made_from a p h \<longleftrightarrow> (\<exists>s. hash_password (ap_kdf a) (fst (ap_rand a kSaltLen s)) p = Inr h)"

lemma made_from_verifies:
  assumes "\<And>pw s i n out. ap_kdf a pw s i n = Some out \<Longrightarrow> length out = n"
    and "\<And>k s b. fst (ap_rand a k s) = Some b \<Longrightarrow> length b = k" and "made_from a p h"
  shows "verify_password (ap_kdf a) p h = Inr True"
proof -
  obtain s where s: "hash_password (ap_kdf a) (fst (ap_rand a kSaltLen s)) p = Inr h"
    using assms(3) by (auto simp: made_from_def)
  then obtain b where b: "fst (ap_rand a kSaltLen s) = Some b"
    by (cases "fst (ap_rand a kSaltLen s)") (simp_all add: hash_password_def)
  show ?thesis
    by (rule conjunct1 [OF hash_verifies [where kdf = "ap_kdf a" and salt = b]])
      (use assms(1) assms(2) [OF b] s [unfolded b] in simp_all)
qed

context user_store begin

lemma find_triple:
  "triple (\<lambda>s. U s = us) (find_user c n) (\<lambda>fu s. U s = us \<and> (case fu of None \<Rightarrow> n \<notin> us_username ` set us
     | Some u \<Rightarrow> u \<in> set us \<and> us_username u = n)) (\<lambda>s. U s = us)"
proof (rule tripleI)
  fix s r s' assume s: "U s = us" and r: "find_user c n s = (r, s')"
  show "case r of Inl e \<Rightarrow> U s' = us | Inr fu \<Rightarrow> U s' = us \<and> (case fu of None \<Rightarrow> n \<notin> us_username ` set us
     | Some u \<Rightarrow> u \<in> set us \<and> us_username u = n)"
    using find [OF r] unfolding s by (cases r) simp_all
qed

lemma all_triple:
  "triple (\<lambda>s. U s = us) (users c) (\<lambda>l s. U s = us \<and> admin_count l = admin_count us) (\<lambda>s. U s = us)"
proof (rule tripleI)
  fix s r s' assume s: "U s = us" and r: "users c s = (r, s')"
  have a: "U s' = us" and m: "\<And>l. r = Inr l \<Longrightarrow> mset l = mset us" using all [OF r] unfolding s by simp_all
  show "case r of Inl e \<Rightarrow> U s' = us | Inr l \<Rightarrow> U s' = us \<and> admin_count l = admin_count us"
    using a admin_count_mset [OF m] by (cases r) simp_all
qed

lemma delete_triple:
  "triple (\<lambda>s. U s = us) (delete_user c n) (\<lambda>_ s. U s = filter (\<lambda>u. us_username u \<noteq> n) us) (\<lambda>s. U s = us)"
proof (rule tripleI)
  fix s r s' assume "U s = us" and "delete_user c n s = (r, s')"
  then show "case r of Inl e \<Rightarrow> U s' = us | Inr x \<Rightarrow> U s' = filter (\<lambda>u. us_username u \<noteq> n) us"
    using remove [of n s r s'] by (cases r) simp_all
qed

lemma create_triple:
  "triple (\<lambda>s. U s = us) (create_user c n h role b)
     (\<lambda>_ s. \<exists>u. U s = us @ [u] \<and> us_username u = n \<and> us_password_hash u = h \<and> us_role u = role) (\<lambda>s. U s = us)"
proof (rule tripleI)
  fix s r s' assume "U s = us" and "create_user c n h role b s = (r, s')"
  then show "case r of Inl e \<Rightarrow> U s' = us
     | Inr x \<Rightarrow> \<exists>u. U s' = us @ [u] \<and> us_username u = n \<and> us_password_hash u = h \<and> us_role u = role"
    using add [of n h role b s r s'] by (cases r) simp_all
qed

lemma open_triple:
  "(\<And>s. U (snd (ap_open a s)) = U s) \<Longrightarrow> triple (\<lambda>s. U s = us) (ap_open a) (\<lambda>_ s. U s = us) (\<lambda>s. U s = us)"
  by (rule triple_keeps)

lemma remove_user_triple:
  assumes c: "ap_conn a = c" and opn: "\<And>s. U (snd (ap_open a s)) = U s" and ok: "users_ok us"
  shows "triple (\<lambda>s. U s = us) (remove_user a n)
     (\<lambda>r s. users_ok (U s) \<and> remove_spec n (rs_status r) (accounts us) (accounts (U s))) E"
proof -
  let ?Q = "\<lambda>r s. users_ok (U s) \<and> remove_spec n (rs_status r) (accounts us) (accounts (U s))"
  have dist: "distinct (map us_username us)" using ok by (simp add: users_ok_def)
  have one: "triple (\<lambda>s. U s = us)
      (if us_role u = ''admin'' then db_map (\<lambda>l. admin_count l \<le> 1) (users c) else db_ret False)
      (\<lambda>sole s. U s = us \<and> sole = (us_role u = ''admin'' \<and> admin_count us \<le> 1)) (\<lambda>s. U s = us)" for u
    by (auto intro!: triple_map triple_ret triple_weaken [OF all_triple])
  have two: "triple (\<lambda>s. U s = us \<and> sole = (us_role u = ''admin'' \<and> admin_count us \<le> 1))
      (if sole then send_err 409 e else db_bind (delete_user c n) (\<lambda>_. send 200 j)) ?Q (\<lambda>s. U s = us)"
    if u: "u \<in> set us" "us_username u = n" for u sole e j
  proof (rule triple_assume)
    assume "sole = (us_role u = ''admin'' \<and> admin_count us \<le> 1)"
    then have sole: "sole \<longleftrightarrow> admins (accounts us) = {n}" using sole_admin [OF dist u(1)] u(2) by simp
    show "triple (\<lambda>s. U s = us \<and> sole = (us_role u = ''admin'' \<and> admin_count us \<le> 1))
      (if sole then send_err 409 e else db_bind (delete_user c n) (\<lambda>_. send 200 j)) ?Q (\<lambda>s. U s = us)"
    proof (cases sole)
      case True
      have "remove_spec n 409 (accounts us) (accounts us)" using True sole by (simp add: remove_spec_def)
      then show ?thesis unfolding if_P [OF True] by (intro triple_send) (simp add: ok)
    next
      case False
      have "users_ok (filter (\<lambda>x. us_username x \<noteq> n) us)"
        using users_ok_remove [OF ok u(1)] u(2) False sole sole_admin [OF dist u(1)] by (metis linorder_not_le)
      moreover have "remove_spec n 200 (accounts us) (accounts (filter (\<lambda>x. us_username x \<noteq> n) us))"
        unfolding remove_spec_def accounts_filter using u False sole by simp blast
      ultimately show ?thesis
        using False by (auto intro!: triple_bind [where R = "\<lambda>_. ?Q (reply_json 200 j)"] triple_weaken [OF delete_triple] triple_send)
    qed
  qed simp
  have three: "triple (\<lambda>s. U s = us \<and> (case fu of None \<Rightarrow> n \<notin> us_username ` set us | Some u \<Rightarrow> u \<in> set us \<and> us_username u = n))
     (or_404 ''user'' fu (\<lambda>u. db_bind (if us_role u = ''admin'' then db_map (\<lambda>l. admin_count l \<le> 1) (users c) else db_ret False)
       (\<lambda>sole. if sole then send_err 409 (e u) else db_bind (delete_user c n) (\<lambda>_. send 200 (j u)))))
     ?Q (\<lambda>s. U s = us)" for fu e j
  proof (cases fu)
    case None
    then show ?thesis using ok by (auto simp: or_404_def remove_spec_def intro!: triple_send)
  next
    case (Some u)
    show ?thesis
    proof (rule triple_assume [of _ "u \<in> set us \<and> us_username u = n"])
      assume u: "u \<in> set us \<and> us_username u = n"
      show ?thesis
        unfolding or_404_def Some option.case
        by (rule triple_weaken [OF triple_bind [OF one two [OF conjunct1 [OF u] conjunct2 [OF u]]]]) simp_all
    qed (simp add: Some)
  qed
  show ?thesis
    unfolding remove_user_def with_db_def c
    by (rule triple_or_error [OF triple_bind [OF open_triple [OF opn] triple_bind [OF find_triple three]]]) (simp add: ok remove_spec_def)
qed

lemma add_user_triple:
  assumes c: "ap_conn a = c" and opn: "\<And>s. U (snd (ap_open a s)) = U s" and rand: "\<And>k s. U (snd (ap_rand a k s)) = U s"
    and ok: "users_ok us"
  shows "triple (\<lambda>s. U s = us) (add_user a un pw role) (\<lambda>r s. users_ok (U s) \<and>
     add_spec (made_from a) un pw role (rs_status r) (accounts us) (accounts (U s))) E"
proof -
  let ?Q = "\<lambda>r s. users_ok (U s) \<and> add_spec (made_from a) un pw role (rs_status r) (accounts us) (accounts (U s))"
  have hash: "triple (\<lambda>s. U s = us) (new_hash a p) (\<lambda>h s. U s = us \<and> made_from a p h) (\<lambda>s. U s = us)" for p
  proof (rule tripleI)
    fix s r s' assume s: "U s = us" and h: "new_hash a p s = (r, s')"
    obtain q where q: "ap_rand a kSaltLen s = (q, s')" and r: "hash_password (ap_kdf a) q p = r"
      using h by (auto simp: new_hash_def split: prod.splits)
    have "U s' = us" using rand [of kSaltLen s] q s by simp
    moreover have "made_from a p h" if "r = Inr h" for h unfolding made_from_def using q r that by (metis fst_conv)
    ultimately show "case r of Inl e \<Rightarrow> U s' = us | Inr h \<Rightarrow> U s' = us \<and> made_from a p h"
      by (cases r) auto
  qed
  have create: "triple (\<lambda>s. U s = us \<and> made_from a p h)
      (db_bind (create_user c n h role False) (\<lambda>_. send 201 j)) ?Q (\<lambda>s. U s = us)"
    if n: "n \<notin> us_username ` set us" "un = JStr n" "pw = JStr p" for n p h j
  proof (rule triple_assume [of _ "made_from a p h"])
    assume h: "made_from a p h"
    have "?Q (reply_json 201 j) s" if "\<exists>u. U s = us @ [u] \<and> us_username u = n \<and> us_password_hash u = h \<and> us_role u = role" for s
      using that n h users_ok_append [OF ok] by (auto simp: add_spec_def accounts_append)
    then show ?thesis
      by (intro triple_bind [where R = "\<lambda>_. ?Q (reply_json 201 j)"] triple_weaken [OF create_triple] triple_send) auto
  qed simp
  have rest: "triple (\<lambda>s. U s = us \<and> (case fu of None \<Rightarrow> n \<notin> us_username ` set us | Some u \<Rightarrow> u \<in> set us \<and> us_username u = n))
      (if fu \<noteq> None then send_err 409 e else db_bind (db_lift (get_str pw)) (\<lambda>p. db_bind (new_hash a p) (\<lambda>h.
         db_bind (create_user c n h role False) (\<lambda>_. send 201 (j p h))))) ?Q (\<lambda>s. U s = us)" if "un = JStr n" for fu n e j
  proof (cases fu)
    case (Some u)
    then show ?thesis using ok that by (auto simp: add_spec_def intro!: triple_send)
  next
    case None
    show ?thesis
    proof (rule triple_assume [of _ "n \<notin> us_username ` set us"])
      assume n: "n \<notin> us_username ` set us"
      show ?thesis
      proof (cases pw)
        case (JStr p)
        have "triple (\<lambda>s. U s = us) (db_bind (new_hash a p) (\<lambda>h. db_bind (create_user c n h role False) (\<lambda>_. send 201 (j p h)))) ?Q (\<lambda>s. U s = us)"
          by (rule triple_bind [OF hash create [OF n that JStr]])
        then show ?thesis using None JStr by (auto intro!: triple_bind [OF triple_weaken [OF _]] simp: db_bind_def db_lift_def triple_def)
      qed (auto simp: None triple_def db_bind_def db_lift_def get_str_def type_error_def)
    qed (simp add: None)
  qed
  have "triple (\<lambda>s. U s = us) (db_bind (db_lift (get_str un)) (\<lambda>uname. db_bind (find_user c uname) (\<lambda>u.
       if u \<noteq> None then send_err 409 ''user already exists''
       else db_bind (db_lift (get_str pw)) (\<lambda>p. db_bind (new_hash a p) (\<lambda>h.
            db_bind (create_user c uname h role False) (\<lambda>_.
              send 201 (obj [(''username'', JStr uname), (''role'', JStr role)]))))))) ?Q (\<lambda>s. U s = us)"
  proof (cases un)
    case (JStr n)
    note f = triple_bind [OF find_triple rest [OF JStr]]
    have b: "db_bind (db_lift (get_str un)) g = g n" for g :: "string \<Rightarrow> ('s, response) db"
      by (simp add: fun_eq_iff JStr db_bind_def db_lift_def)
    show ?thesis unfolding b by (rule f)
  qed (auto simp: triple_def db_bind_def db_lift_def get_str_def type_error_def)
  then show ?thesis
    unfolding add_user_def with_db_def c
    by (rule triple_or_error [OF triple_bind [OF open_triple [OF opn]]]) (simp_all add: ok add_spec_def)
qed

end


lemma add_spec_mono: "add_spec v un pw role st m m' \<Longrightarrow> (\<And>p h. v p h \<Longrightarrow> w p h) \<Longrightarrow> add_spec w un pw role st m m'"
  unfolding add_spec_def by blast


section \<open>A server on the reference database\<close>

definition demo_api :: "json \<Rightarrow> database api" where
  "demo_api body = \<lparr>ap_open = (\<lambda>s. (ok (), s)), ap_conn = store_conn, ap_sv = demo_services (\<lambda>_ s. (HttpError ''down'', s)) body,
     ap_version = ''0.1.2'', ap_token = ''t0'', ap_schema_file = [], ap_bind = ''0.0.0.0'', ap_port = 8080, ap_tls = False,
     ap_gated = True, ap_reload = None, ap_apply = None, ap_dev = (\<lambda>_ s. (throw ''no device'', s)),
     ap_wr = (\<lambda>_ s _. (throw ''no device'', s)), ap_rd = (\<lambda>_ s. (throw ''no device'', s)),
     ap_scan = (\<lambda>_ s. (ok [], s)), ap_scan_usb = (\<lambda>s. (ok [], s)), ap_kdf = (\<lambda>_ _ _ n. Some (replicate n 7)),
     ap_rand = (\<lambda>k s. (Some (replicate k 5), s)), ap_file = (\<lambda>_ _. None), ap_static = (\<lambda>_. None),
     ap_helper = (\<lambda>_. False), ap_forward = (\<lambda>_ _ _ _ s. (None, s))\<rparr>"

definition demo_request :: "string \<Rightarrow> string \<Rightarrow> request" where
  "demo_request mth path = \<lparr>rq_method = mth, rq_path = path, rq_target = path, rq_header = (\<lambda>_. []), rq_param = (\<lambda>_. None),
     rq_body = [], rq_match = []\<rparr>"

definition admin_row :: row where
  "admin_row = [(''id'', Some ''1''), (''username'', Some ''admin''), (''password_hash'', Some []), (''role'', Some ''admin'')]"

definition demo_db :: database where
  "demo_db = \<lparr>db_rows = (\<lambda>t. if t = ''users'' then [admin_row] else []), db_next = 2,
     db_eval = (\<lambda>e. if e = ''NULL'' then None else Some e)\<rparr>"

lemma demo_caller:
  "\<not> token_ok (demo_api b) (demo_request mth path)" "session_info (demo_api b) (demo_request mth path) = db_ret None"
  by (simp_all add: token_ok_def demo_api_def demo_request_def session_info_def session_token_def get_cookie_def starts_with_def)

lemma demo_users: "users_ok (store_users demo_db)"
  by (simp add: users_ok_def admin_count_def demo_db_def store_users_def keyed_users admin_row_def row_get_def user_of_row_def
      user_from_row_def kUserCols_def str_cell_def cell_def)

theorem gate_requires_credentials_witness:
  "serve (demo_api JNull) (demo_request ''GET'' (api ''sensors'')) demo_db = (reply_err 401 ''unauthorized'', demo_db)"
proof (rule gate_requires_credentials)
  show "\<not> public_path (rq_path (demo_request ''GET'' (api ''sensors'')))"
    by (simp add: demo_request_def public_path_def api_def starts_with_def)
  show "ap_gated (demo_api JNull)" by (simp add: demo_api_def)
qed (simp_all add: demo_caller db_ret_def)

theorem writes_need_admin_witness:
  "refused (fst (serve (demo_api JNull) (demo_request ''DELETE'' (api ''sensors/s1'')) demo_db)) \<and>
   store_users (snd (serve (demo_api JNull) (demo_request ''DELETE'' (api ''sensors/s1'')) demo_db)) = store_users demo_db"
proof (rule writes_need_admin)
  show "rq_path (demo_request ''DELETE'' (api ''sensors/s1'')) \<notin> open_writes"
    by (simp add: demo_request_def open_writes_def api_def)
  show "conn_keeps (\<lambda>s. store_users s = store_users demo_db) is_select (ap_conn (demo_api JNull))"
    by (auto simp: conn_keeps_def demo_api_def is_select_def store_select split: sql_stmt.splits)
  show "keeps (\<lambda>s. store_users s = store_users demo_db) (ap_open (demo_api JNull))"
    by (simp add: keeps_def demo_api_def)
  show "not_admin (\<lambda>s. store_users s = store_users demo_db) (demo_api JNull) (demo_request ''DELETE'' (api ''sensors/s1''))"
    by (simp add: not_admin_def demo_caller db_ret_def)
qed (simp_all add: demo_request_def)



theorem login_checks_password_witness:
  "\<exists>body db pw u s1 s2 r s'. post_login (demo_api body) (demo_request ''POST'' (api ''login'')) db = (Inr r, s') \<and> rs_status r = 200 \<and>
     find_user store_conn ''admin'' s1 = (Inr (Some u), s2) \<and> verify_password (ap_kdf (demo_api body)) pw (us_password_hash u) = Inr True"
proof -
  let ?body = "JObj [(''password'', JStr ''pw''), (''username'', JStr ''admin'')]"
  let ?a = "demo_api ?body" and ?rq = "demo_request ''POST'' (api ''login'')"
  obtain h where h: "hash_password (ap_kdf ?a) (Some (replicate kSaltLen 5)) ''pw'' = Inr h"
    by (simp add: hash_password_def demo_api_def pbkdf2_def)
  have "made_from ?a ''pw'' h" unfolding made_from_def using h by (simp add: demo_api_def)
  then have good: "verify_password (ap_kdf ?a) ''pw'' h = Inr True"
    by (rule made_from_verifies [rotated 2]) (auto simp: demo_api_def)
  let ?row = "[(''id'', Some ''1''), (''username'', Some ''admin''), (''password_hash'', Some h), (''role'', Some ''admin'')]"
  let ?db = "demo_db\<lparr>db_rows := (\<lambda>t. if t = ''users'' then [?row] else [])\<rparr>"
  let ?u = "user_of_row ?row"
  have u: "us_password_hash ?u = h"
    by (simp add: user_of_row_def user_from_row_def kUserCols_def str_cell_def cell_def row_get_def)
  have f: "find_user store_conn ''admin'' ?db = (Inr (Some ?u), ?db)"
    by (simp add: store_find_user store_users_def keyed_users row_get_def user_of_row_name)
  let ?tok = "to_hex (replicate 32 5)"
  obtain x s' where c: "create_session store_conn ?tok (us_id ?u) session_ttl ?db = (Inr x, s')"
    by (simp add: create_session_def run_stmt_def exec_def db_map_def db_bind_def db_ret_def store_conn_def insert_row_def
        val_of_def keyed_def row_get_def unique_key_def Let_def)
  have "post_login ?a ?rq ?db = (Inr (login_reply ?tok ?u), s')"
    using f good u c
    by (simp add: post_login_def json_body_def login_with_def or_error_def with_db_def db_catch_def db_bind_def db_lift_def db_ret_def
        demo_api_def demo_services_def password_matches_def random_token_def random_hex_def)
  note run = this
  have ok: "rs_status (login_reply ?tok ?u) = 200" by (simp add: login_reply_def)
  obtain b username pw v s1 s2 where "sv_parse (ap_sv ?a) (rq_body ?rq) = Inr b" "member b ''username'' = Some (JStr username)"
    "find_user (ap_conn ?a) username s1 = (Inr (Some v), s2)" "verify_password (ap_kdf ?a) pw (us_password_hash v) = Inr True"
    using login_checks_password [OF run ok] by blast
  moreover have "sv_parse (ap_sv ?a) (rq_body ?rq) = Inr ?body" "ap_conn ?a = store_conn"
    by (simp_all add: demo_api_def demo_services_def)
  ultimately have "find_user store_conn ''admin'' s1 = (Inr (Some v), s2)" "verify_password (ap_kdf ?a) pw (us_password_hash v) = Inr True"
    by auto
  then show ?thesis using run ok by blast
qed

section \<open>New sensors\<close>

lemma db_bindE:
  assumes "db_bind m f s = (Inr y, s')"
  obtains x s1 where "m s = (Inr x, s1)" "f x s1 = (Inr y, s')"
  using assms by (auto simp: db_bind_Inr)

lemma db_try_run: "db_try m s = (Inr (fst (m s)), snd (m s))"
  by (simp add: db_try_def split_beta)

lemma field_str: "field get_str b k = Inr v \<Longrightarrow> v = str_member b k"
  by (auto simp: field_def str_member_def get_str_def type_error_def split: option.splits json.splits)

lemma sensor_fields_status:
  "sensor_fields_from_json b = Inr f \<Longrightarrow> sf_status f = str_member b ''status''"
  unfolding sensor_fields_from_json_def res_simps
  by (elim exE conjE) (auto dest!: field_str [of b "''status''"])

lemma probe_fill_status:
  assumes "probe_fill a f s = (Inr g, s')"
  shows "sf_status g = sf_status f"
proof -
  have "sf_status (filled f u) = sf_status f" for u by (simp add: filled_def)
  then show ?thesis
    using assms
    by (auto simp: probe_fill_def db_catch_def db_map_def db_bind_def db_ret_def split: option.splits prod.splits sum.splits)
qed

text \<open>
  A sensor that is registered starts disabled: whenever the request is answered with 201, the row
  was stored with the status of the request or, when the request has none, as inactive.
\<close>

theorem new_sensors_start_disabled:
  assumes "post_sensors a rq s = (Inr r, s')" and "rs_status r = 201"
  shows "\<exists>b i f s1 s2. sv_parse (ap_sv a) (rq_body rq) = Inr b \<and> member b ''id'' = Some (JStr i) \<and>
    upsert_sensor (ap_conn a) i f s1 = (Inr (), s2) \<and>
    sf_status f = Some (case str_member b ''status'' of None \<Rightarrow> ''inactive'' | Some st \<Rightarrow> st)"
proof -
  have "\<exists>res s0. require_auth a rq True s = (Inr res, s0)"
    using session_info_returns [of a rq s]
    by (auto simp: require_auth_def db_bind_def db_ret_def split: option.splits)
  then obtain res s0 where ra: "require_auth a rq True s = (Inr res, s0)" by blast
  have "res = None"
  proof (rule ccontr)
    assume "res \<noteq> None"
    then obtain e where e: "res = Some e" by blast
    then have "rs_status e \<in> {401, 403}"
      using ra by (auto simp: require_auth_def db_bind_def db_ret_def split: if_splits prod.splits sum.splits option.splits)
    moreover have "r = e" using assms(1) ra e by (simp add: post_sensors_def admin_only_def db_bind_def db_ret_def)
    ultimately show False using assms(2) by auto
  qed
  then obtain b where b: "sv_parse (ap_sv a) (rq_body rq) = Inr b"
    and body: "(case member b ''id'' of
       None \<Rightarrow> send_err 400 (''missing '' @ quoted ''id'')
     | Some iv \<Rightarrow>
         db_bind (db_lift (get_str iv)) (\<lambda>i.
         db_bind (db_lift (then_res (sensor_fields_from_json b) (\<lambda>f. ok (disabled_at_first f)))) (\<lambda>f.
           if sf_transport f = None \<or> sf_address f = None
           then send_err 400 (''missing transport/address (or '' @ quoted ''tcp'' @ '')'')
           else db_bind (db_lift (want_probe b)) (\<lambda>probe.
                db_bind (if probe then probe_fill a f else db_ret f) (store_sensor a i))))) s0 = (Inr r, s')"
    using assms ra \<open>res = None\<close>
    by (auto simp: post_sensors_def admin_only_def json_body_def db_bind_def send_err_def db_ret_def split: sum.splits)
  obtain iv where iv: "member b ''id'' = Some iv"
    using body assms(2) by (auto simp: send_err_status split: option.splits)
  let ?fill = "\<lambda>f probe. if probe then probe_fill a f else db_ret f"
  obtain i f1 where i: "get_str iv = Inr i" and f1: "then_res (sensor_fields_from_json b) (\<lambda>f. ok (disabled_at_first f)) = Inr f1"
    and st1: "(if sf_transport f1 = None \<or> sf_address f1 = None
           then send_err 400 (''missing transport/address (or '' @ quoted ''tcp'' @ '')'')
           else db_bind (db_lift (want_probe b)) (\<lambda>probe. db_bind (?fill f1 probe) (store_sensor a i))) s0 = (Inr r, s')"
    using body unfolding iv option.case by (elim db_bindE) (auto simp: db_lift_Inr)
  have "db_bind (db_lift (want_probe b)) (\<lambda>probe. db_bind (?fill f1 probe) (store_sensor a i)) s0 = (Inr r, s')"
    using st1 assms(2) by (simp add: send_err_status split: if_splits)
  then obtain probe s3 f s4 where f: "?fill f1 probe s3 = (Inr f, s4)" and st: "store_sensor a i f s4 = (Inr r, s')"
    by (elim db_bindE) blast
  obtain f0 where f0: "sensor_fields_from_json b = Inr f0" and f1: "f1 = disabled_at_first f0"
    using f1 by (auto simp: res_simps)
  have i: "iv = JStr i" using i by (cases iv) (simp_all add: get_str_def type_error_def)
  have "sf_status f = sf_status (disabled_at_first f0)"
    using f unfolding f1 by (auto simp: db_ret_def dest: probe_fill_status split: if_splits)
  then have "sf_status f = Some (case str_member b ''status'' of None \<Rightarrow> ''inactive'' | Some st \<Rightarrow> st)"
    using sensor_fields_status [OF f0] by (auto simp: disabled_at_first_def split: option.splits)
  moreover obtain s1 s2 where "upsert_sensor (ap_conn a) i f s1 = (Inr (), s2)"
    using or_error_status [OF _ st [unfolded store_sensor_def]] assms(2) by (auto simp: with_db_def db_bind_Inr)
  ultimately show ?thesis using b iv i by blast
qed

theorem new_sensors_start_disabled_witness:
  "\<exists>b i f s1 s2. member b ''id'' = Some (JStr i) \<and>
     upsert_sensor store_conn i f s1 = (Inr (), s2) \<and> sf_status f = Some ''inactive''"
proof -
  let ?body = "JObj [(''id'', JStr ''s9''), (''probe'', JBool False), (''tcp'', JStr ''10.0.0.9'')]"
  let ?a = "demo_api ?body" and ?rq = "(demo_request ''POST'' (api ''sensors''))\<lparr>rq_header := (\<lambda>k. if k = ''Authorization'' then ''t0'' else [])\<rparr>"
  have auth: "require_auth ?a ?rq True demo_db = (Inr None, demo_db)"
    by (simp add: require_auth_def token_ok_def demo_api_def demo_request_def db_ret_def)
  let ?f = "no_fields\<lparr>sf_transport := Some ''tcp'', sf_address := Some ''10.0.0.9'', sf_status := Some ''inactive''\<rparr>"
  have parse: "sv_parse (ap_sv ?a) t = Inr ?body" for t by (simp add: demo_api_def demo_services_def)
  have fields: "sensor_fields_from_json ?body = Inr (?f\<lparr>sf_status := None\<rparr>)"
    by (simp add: sensor_fields_from_json_def field_def no_fields_def)
  have key: "str_member ?body ''status'' = None" by (simp add: str_member_def)
  obtain x s2 where up: "upsert_sensor store_conn ''s9'' ?f demo_db = (Inr x, s2)"
    by (simp add: upsert_sensor_def run_stmt_def exec_def db_map_def db_bind_def db_ret_def store_conn_def upsert_stmt_def
        insert_row_def val_of_def keyed_def row_get_def unique_key_def demo_db_def Let_def)
  obtain y s3 where fs: "find_sensor store_conn ''s9'' s2 = (Inr y, s3)"
    unfolding find_sensor_def store_fetch(2) by blast
  have "post_sensors ?a ?rq demo_db = (Inr (reply_json 201 (case y of None \<Rightarrow> obj [(''id'', JStr ''s9'')] | Some z \<Rightarrow> sensor_json z)), s3)"
    using auth fields up fs
    by (simp add: post_sensors_def admin_only_def json_body_def parse db_bind_def db_lift_def disabled_at_first_def want_probe_def
        db_ret_def store_sensor_def or_error_def db_catch_def with_db_def found_or_id_def send_def)
      (simp add: demo_api_def no_fields_def db_bind_def found_or_id_def send_def db_ret_def)
  from new_sensors_start_disabled [OF this] obtain b i f s1 s4 where
    "sv_parse (ap_sv ?a) (rq_body ?rq) = Inr b" "member b ''id'' = Some (JStr i)" "upsert_sensor (ap_conn ?a) i f s1 = (Inr (), s4)"
    "sf_status f = Some (case str_member b ''status'' of None \<Rightarrow> ''inactive'' | Some st \<Rightarrow> st)"
    by auto
  moreover have "ap_conn ?a = store_conn" by (simp add: demo_api_def)
  ultimately have "member ?body ''id'' = Some (JStr i)" "upsert_sensor store_conn i f s1 = (Inr (), s4)" "sf_status f = Some ''inactive''"
    using parse [of "rq_body ?rq"] key by simp_all
  then show ?thesis by blast
qed

section \<open>A settings update is not all or nothing\<close>

text \<open>
  A request with a good address and a bad port is answered with 400, but the address has been stored
  by then and takes effect at the next restart.
\<close>

lemma bad_port_keeps_bind:
  assumes "str_member b ''bind'' = Some v" and "valid_bind v" and "member b ''port'' = Some (JInt p)"
    and "to_i32 p < 1 \<or> 65535 < to_i32 p" and "set_setting (ap_conn a) ''api_bind'' v s = (Inr (), s')"
  shows "db_bind (put_bind a b) (\<lambda>r. case r of Some e \<Rightarrow> db_ret e | None \<Rightarrow>
      db_bind (put_port a b) (\<lambda>r. case r of Some e \<Rightarrow> db_ret e | None \<Rightarrow> f)) s =
    (Inr (reply_err 400 ''port out of range (1-65535)''), s')"
  using assms
  by (simp add: put_bind_def put_port_def port_of_def is_number_def get_int_def db_map_def db_bind_def db_lift_def db_ret_def)

end
