(* ===== verification/NW_ApiTypes.thy ===== *)
theory NW_ApiTypes imports NW_ApiProps begin

text \<open>
  The shape of what the HTTP API answers (\<^verbatim>\<open>src/api/http_server.cpp\<close>): every handler ends in a success
  with a body or in an error object with one of the codes the server uses. A computation is
  followed rule by rule; the rules are those of the collection \<open>answers_intro\<close>.
\<close>

section \<open>Well-typed answers\<close>

definition error_codes :: "int set" where
  "error_codes = {400, 401, 403, 404, 409, 500, 502, 503}"

text \<open>
  A success with a body; an error code with an object whose only member is the text of the error; or one of
  the two answers the HTTP library makes itself, for a path nobody serves and for an exception.
\<close>

definition answer_ok :: "response \<Rightarrow> bool" where
  "answer_ok r \<longleftrightarrow>
     rs_status r \<in> {200, 201} \<and> rs_content r \<noteq> NoContent \<or>
     rs_status r \<in> error_codes \<and> (\<exists>m. r = reply_err (rs_status r) m) \<or>
     r = not_found \<or>
     (\<exists>e. r = \<lparr>rs_status = 500, rs_headers = [(''EXCEPTION_WHAT'', e)], rs_content = NoContent\<rparr>)"

definition answers :: "('s, response) db \<Rightarrow> bool" where
  "answers m \<longleftrightarrow> (\<forall>s r. fst (m s) = Inr r \<longrightarrow> answer_ok r)"

named_theorems answers_intro \<open>rules for computations that end in a well-typed answer\<close>

lemma answersI: "(\<And>s r s'. m s = (Inr r, s') \<Longrightarrow> answer_ok r) \<Longrightarrow> answers m"
  by (metis answers_def prod.collapse)

lemma answersD: "answers m \<Longrightarrow> m s = (Inr r, s') \<Longrightarrow> answer_ok r"
  by (metis answers_def fst_conv)

lemma answers_ret: "answer_ok r \<Longrightarrow> answers (db_ret r)"
  by (simp add: answers_def db_ret_def)

lemma answer_err: "n \<in> error_codes \<Longrightarrow> answer_ok (reply_err n m)"
  by (auto simp: answer_ok_def reply_err_def reply_json_def)

lemma answers_send [answers_intro]: "n \<in> {200, 201} \<Longrightarrow> answers (send n j)"
  unfolding send_def by (rule answers_ret) (simp add: answer_ok_def reply_json_def)

lemma answers_send_err [answers_intro]: "n \<in> error_codes \<Longrightarrow> answers (send_err n m)"
  unfolding send_err_def by (rule answers_ret [OF answer_err])

lemma answers_bind [answers_intro]: "(\<And>x. answers (f x)) \<Longrightarrow> answers (db_bind m f)"
  by (auto simp: answers_def db_bind_def split: prod.splits sum.splits)

lemma answers_bind_ret:
  "(\<And>s r s'. m s = (Inr r, s') \<Longrightarrow> answers (f r)) \<Longrightarrow> answers (db_bind m f)"
  by (auto simp: answers_def db_bind_def split: prod.splits sum.splits)

lemma answers_with_db [answers_intro]: "answers m \<Longrightarrow> answers (with_db a m)"
  unfolding with_db_def by (rule answers_bind)

lemma answers_catch: "answers m \<Longrightarrow> (\<And>e. answers (h e)) \<Longrightarrow> answers (db_catch m h)"
  by (rule answersI) (auto simp: db_catch_def dest: answersD split: prod.splits sum.splits)

lemma answers_or_error [answers_intro]: "n \<in> error_codes \<Longrightarrow> answers m \<Longrightarrow> answers (or_error n m)"
  unfolding or_error_def by (intro answers_catch answers_send_err)

lemma answers_or_404 [answers_intro]: "(\<And>y. answers (f y)) \<Longrightarrow> answers (or_404 what x f)"
  by (cases x) (auto simp: or_404_def error_codes_def intro: answers_send_err)

lemma answers_send_list [answers_intro]: "answers (send_list f m)"
  unfolding send_list_def by (intro answers_bind answers_send) simp

lemma answers_json_body [answers_intro]: "(\<And>b. answers (f b)) \<Longrightarrow> answers (json_body a rq f)"
  by (auto simp: json_body_def error_codes_def intro: answers_send_err split: sum.split)

lemma answers_option [answers_intro]:
  "answers u \<Longrightarrow> (\<And>x. answers (v x)) \<Longrightarrow> answers (case p of None \<Rightarrow> u | Some x \<Rightarrow> v x)"
  by (cases p) simp_all

lemma answers_sum [answers_intro]:
  "(\<And>x. answers (u x)) \<Longrightarrow> (\<And>x. answers (v x)) \<Longrightarrow> answers (case p of Inl x \<Rightarrow> u x | Inr x \<Rightarrow> v x)"
  by (cases p) simp_all

lemma answers_if [answers_intro]: "answers u \<Longrightarrow> answers v \<Longrightarrow> answers (if p then u else v)"
  by simp

lemma answers_found [answers_intro]: "answers (found_or_id f i x)" "answers (found_or_empty f x)"
  by (simp_all add: found_or_id_def found_or_empty_def answers_send)

text \<open>A refusal is an error object; a callback or a reload after a reply keeps it.\<close>

lemma require_auth_answer:
  assumes "require_auth a rq need s = (Inr (Some r), s')"
  shows "answer_ok r"
proof -
  have "r \<in> {reply_err 401 ''unauthorized'', reply_err 403 ''admin role required''}"
    using assms
    by (auto simp: require_auth_def db_bind_def db_ret_def split: if_splits prod.splits sum.splits option.splits)
  then show ?thesis using answer_err by (auto simp: error_codes_def)
qed

lemma answers_admin_only [answers_intro]: "answers (h a rq) \<Longrightarrow> answers (admin_only h a rq)"
  unfolding admin_only_def
proof (rule answers_bind_ret)
  fix s r s' assume "answers (h a rq)" and "require_auth a rq True s = (Inr r, s')"
  then show "answers (case r of Some no \<Rightarrow> db_ret no | None \<Rightarrow> h a rq)"
    by (cases r) (auto intro: answers_ret require_auth_answer)
qed

lemma answers_after_reply [answers_intro]: "answers m \<Longrightarrow> answers (after_reply w a m)"
  unfolding after_reply_def
proof (rule answers_bind_ret)
  fix s r s' assume m: "answers m" and "db_try m s = (Inr r, s')"
  then have ok: "answer_ok res" if "r = Inr res" for res
    using that answersD [OF m] by (auto simp: db_try_def split: prod.splits)
  have "answers (db_map (\<lambda>_. res) (call_back (ap_reload a)))" if "answer_ok res" for res
    using that by (auto simp: answers_def db_map_def db_bind_def db_ret_def split: prod.splits sum.splits)
  then show "answers (case r of Inl e \<Rightarrow> send_err 500 e
      | Inr res \<Rightarrow> if rs_status res = 404 \<or> \<not> w then db_ret res else db_map (\<lambda>_. res) (call_back (ap_reload a)))"
    using ok by (cases r) (auto intro: answers_ret answers_send_err simp: error_codes_def)
qed

lemma answers_prod [answers_intro]: "(\<And>x y. answers (f x y)) \<Longrightarrow> answers (case p of (x, y) \<Rightarrow> f x y)"
  by (cases p) simp

lemma answers_text [answers_intro]:
  "answers (db_ret \<lparr>rs_status = 200, rs_headers = h, rs_content = TextContent t x\<rparr>)"
  "answers (db_ret \<lparr>rs_status = 200, rs_headers = h, rs_content = JsonContent j\<rparr>)"
  by (auto intro!: answers_ret simp: answer_ok_def)

section \<open>The handlers\<close>

text \<open>The first two parts of a settings update stop with an error object or not at all.\<close>

lemma put_answer:
  "put_bind a b s = (Inr (Some r), s') \<Longrightarrow> answer_ok r" "put_port a b s = (Inr (Some r), s') \<Longrightarrow> answer_ok r"
  using answer_err [of 400]
  by (auto simp: put_bind_def put_port_def db_map_def db_bind_def db_ret_def error_codes_def
      split: option.splits if_splits prod.splits sum.splits)

lemma answers_put [answers_intro]:
  "answers f \<Longrightarrow> answers (db_bind (put_bind a b) (\<lambda>r. case r of Some e \<Rightarrow> db_ret e | None \<Rightarrow> f))"
  "answers f \<Longrightarrow> answers (db_bind (put_port a b) (\<lambda>r. case r of Some e \<Rightarrow> db_ret e | None \<Rightarrow> f))"
  by (rule answers_bind_ret, auto split: option.split intro: answers_ret put_answer)+

lemma answers_settings [answers_intro]:
  "answers (get_version a rq)" "answers (get_health a rq)" "answers (get_settings a rq)"
  "answers (put_settings a rq)" "answers (post_settings_apply a rq)"
  unfolding get_version_def get_health_def get_settings_def put_settings_def post_settings_apply_def
  by (intro answers_intro; simp add: error_codes_def)+

lemma answers_test_reply [answers_intro]: "answers (test_reply s good checks)"
  by (simp add: test_reply_def answers_send)

lemma answers_sensors [answers_intro]:
  "answers (get_sensors a rq)" "answers (get_sensor a rq)" "answers (get_sensor_readings a rq)" "answers (get_sensor_dsn a rq)"
  "answers (post_sensors a rq)" "answers (patch_sensor a rq)" "answers (delete_readings a rq)" "answers (delete_sensor a rq)"
  "answers (poll_sensor a rq)" "answers (test_sensor a rq)" "answers (enable_sensor a rq)" "answers (disable_sensor a rq)"
  unfolding get_sensors_def get_sensor_def get_sensor_readings_def get_sensor_dsn_def Let_def post_sensors_def
    store_sensor_def patch_sensor_def update_then_show_def delete_readings_def delete_sensor_def poll_sensor_def
    test_sensor_def test_device_def enable_sensor_def disable_sensor_def set_status_def
  by (intro answers_intro; simp add: error_codes_def)+

lemma answers_calibration [answers_intro]:
  "answers (get_calibration a rq)" "answers (get_calibration_history a rq)" "answers (post_calibration_record a rq)"
  "answers (post_calibration_arm a rq)" "answers (post_calibration_disarm a rq)" "answers (post_calibration_set a rq)"
  unfolding get_calibration_def get_calibration_history_def on_device_def post_calibration_record_def record_calibration_def
    post_calibration_arm_def post_calibration_disarm_def post_calibration_set_def
  by (intro answers_intro; simp add: error_codes_def)+

lemma answers_extensions [answers_intro]:
  "answers (get_events a rq)" "answers (get_extensions a rq)" "answers (get_extension_data a rq)"
  unfolding get_events_def get_extensions_def get_extension_data_def
  by (intro answers_intro; simp add: error_codes_def)+

lemma answers_weather [answers_intro]:
  "answers (get_weather_stations a rq)" "answers (get_weather_station a rq)" "answers (post_weather_stations a rq)"
  "answers (patch_weather_station a rq)" "answers (delete_weather_station a rq)" "answers (get_weather_readings a rq)"
  "answers (poll_weather_station a rq)"
  unfolding get_weather_stations_def get_weather_station_def post_weather_stations_def patch_weather_station_def
    save_weather_station_def delete_weather_station_def get_weather_readings_def poll_weather_station_def
  by (intro answers_intro; simp add: error_codes_def)+

lemma answers_exports [answers_intro]:
  "answers (get_export_targets a rq)" "answers (get_export_log a rq)" "answers (get_export_target a rq)"
  "answers (post_export_targets a rq)" "answers (patch_export_target a rq)" "answers (delete_export_target a rq)"
  "answers (run_export_target a rq)"
  unfolding get_export_targets_def get_export_log_def get_export_target_def post_export_targets_def patch_export_target_def
    save_export_target_def delete_export_target_def run_export_target_def
  by (intro answers_intro; simp add: error_codes_def)+

lemma answers_schema [answers_intro]: "answers (get_db_status a rq)" "answers (post_db_init a rq)"
proof -
  show "answers (get_db_status a rq)"
    unfolding get_db_status_def by (intro answers_intro; simp add: error_codes_def)
  have "answers (\<lambda>s. if ap_schema_file a = [] then send_err 503 e s
     else case ap_file a (ap_schema_file a) s of None \<Rightarrow> send_err 500 e' s | Some sql \<Rightarrow> or_error 500 (with_db a (m sql)) s)"
    if "\<And>sql. answers (m sql)" for e e' m
  proof (rule answersI)
    fix s r s' assume "(if ap_schema_file a = [] then send_err 503 e s
     else case ap_file a (ap_schema_file a) s of None \<Rightarrow> send_err 500 e' s | Some sql \<Rightarrow> or_error 500 (with_db a (m sql)) s) = (Inr r, s')"
    moreover have "answers (send_err 503 e)" "answers (send_err 500 e')" "\<And>sql. answers (or_error 500 (with_db a (m sql)))"
      by (intro answers_intro that; simp add: error_codes_def)+
    ultimately show "answer_ok r" by (auto dest: answersD split: if_splits option.splits)
  qed
  then show "answers (post_db_init a rq)"
    unfolding post_db_init_def by (rule answers_admin_only) (intro answers_intro; simp)
qed

lemma answers_discovery [answers_intro]: "answers (get_discover a rq)" "answers (get_discover_usb a rq)"
  unfolding get_discover_def get_discover_usb_def by (intro answers_intro; simp add: error_codes_def)+

lemma answers_login [answers_intro]: "answers (db_ret (login_reply sess u))"
  unfolding login_reply_def by (rule answers_text)

lemma answers_users [answers_intro]:
  "answers (post_login a rq)" "answers (post_logout a rq)" "answers (get_me a rq)" "answers (post_me_password a rq)"
  "answers (get_users a rq)" "answers (post_users a rq)" "answers (delete_users a rq)"
  unfolding post_login_def login_with_def post_logout_def Let_def get_me_def post_me_password_def change_password_def
    get_users_def post_users_def add_user_def delete_users_def remove_user_def
  by (intro answers_intro; simp add: error_codes_def)+

section \<open>The server\<close>

text \<open>The routes, apart from those of the platform helper, whose answers are copied as they come.\<close>

definition helper_routes :: "pattern set" where
  "helper_routes = {Fixed (api ''platform''), Rest (api ''platform/'')}"

lemma routes_answer: "list_all (\<lambda>(p, h). p \<in> helper_routes \<or> (\<forall>a rq. answers (h a rq))) (routes_of mth :: (pattern \<times> 's handler) list)"
proof -
  have "list_all (\<lambda>(p, h). p \<in> helper_routes \<or> (\<forall>a rq. answers (h a rq))) (read_routes :: (pattern \<times> 's handler) list)"
    by (simp add: read_routes_def helper_routes_def answers_intro)
  moreover have "list_all (\<lambda>(p, h). p \<in> helper_routes \<or> (\<forall>a rq. answers (h a rq))) (post_routes :: (pattern \<times> 's handler) list)"
    by (simp add: post_routes_def helper_routes_def answers_intro)
  moreover have "list_all (\<lambda>(p, h). p \<in> helper_routes \<or> (\<forall>a rq. answers (h a rq))) (put_routes @ patch_routes @ delete_routes :: (pattern \<times> 's handler) list)"
    by (simp add: put_routes_def patch_routes_def delete_routes_def answers_intro)
  ultimately show ?thesis by (simp add: routes_of_def)
qed

lemma starts_with_front: "starts_with (p @ q) s \<Longrightarrow> starts_with p s"
  unfolding starts_with_def by (drule arg_cong [where f = "take (length p)"]) (simp add: min_def)

lemma helper_path: "p \<in> helper_routes \<Longrightarrow> matches p path = Some m \<Longrightarrow> starts_with (api ''platform'') path"
proof -
  have "api ''platform/'' = api ''platform'' @ ''/''" by (simp add: api_def)
  then show "starts_with (api ''platform'') path" if "p \<in> helper_routes" "matches p path = Some m"
    using that starts_with_front [of "api ''platform''" "''/''" path]
    by (auto simp: helper_routes_def matches_def Let_def starts_with_def split: if_splits)
qed

lemma answers_not_found: "answers (db_ret not_found)"
  by (rule answers_ret) (simp add: answer_ok_def)

lemma answers_dispatch:
  assumes "\<not> starts_with (api ''platform'') (rq_path rq)"
  shows "list_all (\<lambda>(p, h). p \<in> helper_routes \<or> (\<forall>a rq. answers (h a rq))) rs \<Longrightarrow> answers (dispatch rs a rq)"
proof (induction rs)
  case (Cons ph rs)
  obtain p h where ph: "ph = (p, h)" by (rule prod.exhaust)
  show ?case
  proof (cases "matches p (rq_path rq)")
    case (Some m)
    then have "p \<notin> helper_routes" using helper_path assms by blast
    then show ?thesis using Cons.prems Some by (simp add: ph)
  qed (use Cons in \<open>simp add: ph\<close>)
qed (simp add: answers_not_found)



end
