(* ===== verification/NW_Cli.thy ===== *)
theory NW_Cli imports NW_ApiProps begin

text \<open>
  The two command line tools: \<^verbatim>\<open>nwdb\<close> (\<^verbatim>\<open>src/cli/nwdb.cpp\<close>) works on the database, \<^verbatim>\<open>sqmctl\<close>
  (\<^verbatim>\<open>src/cli/sqmctl.cpp\<close>) talks to a meter. A tool is its argument loop and its commands over a
  world with the standard output; what goes to the error output is left out.
\<close>

section \<open>Standard output\<close>

definition on_world :: "('s, 'a) db \<Rightarrow> ('s \<times> string, 'a) db" where
  "on_world m w = (case m (fst w) of (r, s') \<Rightarrow> (r, (s', snd w)))"

definition say :: "string \<Rightarrow> ('s \<times> string, unit) db" where
  "say t w = (ok (), (fst w, snd w @ t))"

definition line :: "string \<Rightarrow> string" where "line t = t @ [CHR 0x0A]"

definition saying :: "string \<Rightarrow> int \<Rightarrow> ('s \<times> string, int) db" where
  "saying t status = db_bind (say t) (\<lambda>_. db_ret status)"

section \<open>nwdb: arguments\<close>

record nwdb_args =
  na_pos :: "string list"
  na_fields :: SensorFields
  na_limit :: int
  na_no_probe :: bool

datatype nwdb_opt =
    OHelp
  | OVersion
  | ONoProbe
  | OText "string \<Rightarrow> SensorFields \<Rightarrow> SensorFields"
  | OReal "double \<Rightarrow> SensorFields \<Rightarrow> SensorFields"
  | OInt "int \<Rightarrow> SensorFields \<Rightarrow> SensorFields"
  | OLimit
  | OUnknown
  | OPositional

definition over_tcp :: "string \<Rightarrow> SensorFields \<Rightarrow> SensorFields" where
  "over_tcp v f = f\<lparr>sf_transport := Some ''tcp'', sf_address := Some v\<rparr>"

definition over_serial :: "string \<Rightarrow> SensorFields \<Rightarrow> SensorFields" where
  "over_serial v f = f\<lparr>sf_transport := Some ''serial'', sf_address := Some v\<rparr>"

text \<open>The chain of comparisons, in its order.\<close>

definition nwdb_opt :: "string \<Rightarrow> nwdb_opt" where
  "nwdb_opt a =
     (if a = ''-h'' \<or> a = ''--help'' then OHelp
      else if a = ''--version'' then OVersion
      else if a = ''--no-probe'' then ONoProbe
      else if a = ''--tcp'' then OText over_tcp
      else if a = ''--serial'' then OText over_serial
      else if a = ''--name'' then OText (\<lambda>v f. f\<lparr>sf_name := Some v\<rparr>)
      else if a = ''--site'' then OText (\<lambda>v f. f\<lparr>sf_site := Some v\<rparr>)
      else if a = ''--timezone'' then OText (\<lambda>v f. f\<lparr>sf_timezone := Some v\<rparr>)
      else if a = ''--model'' then OText (\<lambda>v f. f\<lparr>sf_model := Some v\<rparr>)
      else if a = ''--serial'' then OText (\<lambda>v f. f\<lparr>sf_serial_number := Some v\<rparr>)
      else if a = ''--status'' then OText (\<lambda>v f. f\<lparr>sf_status := Some v\<rparr>)
      else if a = ''--installed'' then OText (\<lambda>v f. f\<lparr>sf_installed_at := Some v\<rparr>)
      else if a = ''--notes'' then OText (\<lambda>v f. f\<lparr>sf_notes := Some v\<rparr>)
      else if a = ''--lat'' then OReal (\<lambda>x f. f\<lparr>sf_latitude := Some x\<rparr>)
      else if a = ''--lon'' then OReal (\<lambda>x f. f\<lparr>sf_longitude := Some x\<rparr>)
      else if a = ''--elev'' then OReal (\<lambda>x f. f\<lparr>sf_elevation_m := Some x\<rparr>)
      else if a = ''--poll-interval'' then OInt (\<lambda>n f. f\<lparr>sf_poll_interval_s := Some n\<rparr>)
      else if a = ''--protocol'' then OInt (\<lambda>n f. f\<lparr>sf_protocol_ver := Some n\<rparr>)
      else if a = ''--feature'' then OInt (\<lambda>n f. f\<lparr>sf_feature_ver := Some n\<rparr>)
      else if a = ''--limit'' then OLimit
      else if starts_with ''-'' a then OUnknown
      else OPositional)"

datatype nwdb_stop = StopHelp | StopVersion | StopError

fun nwdb_scan :: "string list \<Rightarrow> nwdb_args \<Rightarrow> nwdb_stop + nwdb_args" where
  "nwdb_scan [] st = Inr st"
| "nwdb_scan (a # r) st =
     (case nwdb_opt a of
        OHelp \<Rightarrow> Inl StopHelp
      | OVersion \<Rightarrow> Inl StopVersion
      | ONoProbe \<Rightarrow> nwdb_scan r (st\<lparr>na_no_probe := True\<rparr>)
      | OText f \<Rightarrow> (case r of [] \<Rightarrow> Inl StopError | v # r' \<Rightarrow> nwdb_scan r' (st\<lparr>na_fields := f v (na_fields st)\<rparr>))
      | OReal f \<Rightarrow>
          (case r of [] \<Rightarrow> Inl StopError
           | v # r' \<Rightarrow> (case stod v of Inl _ \<Rightarrow> Inl StopError | Inr x \<Rightarrow> nwdb_scan r' (st\<lparr>na_fields := f x (na_fields st)\<rparr>)))
      | OInt f \<Rightarrow>
          (case r of [] \<Rightarrow> Inl StopError
           | v # r' \<Rightarrow> (case stoi v of Inl _ \<Rightarrow> Inl StopError | Inr n \<Rightarrow> nwdb_scan r' (st\<lparr>na_fields := f n (na_fields st)\<rparr>)))
      | OLimit \<Rightarrow>
          (case r of [] \<Rightarrow> Inl StopError
           | v # r' \<Rightarrow> (case stoi v of Inl _ \<Rightarrow> Inl StopError | Inr n \<Rightarrow> nwdb_scan r' (st\<lparr>na_limit := n\<rparr>)))
      | OUnknown \<Rightarrow> Inl StopError
      | OPositional \<Rightarrow> nwdb_scan r (st\<lparr>na_pos := na_pos st @ [a]\<rparr>))"

definition nwdb_init :: nwdb_args where
  "nwdb_init = \<lparr>na_pos = [], na_fields = no_fields, na_limit = 20, na_no_probe = False\<rparr>"

section \<open>nwdb: what it prints\<close>

definition dash :: "string \<Rightarrow> string" where "dash s = (if s = [] then ''-'' else s)"

definition dash_int :: "int option \<Rightarrow> string" where
  "dash_int v = (case v of None \<Rightarrow> ''-'' | Some n \<Rightarrow> show_int n)"

definition dash_dbl :: "double option \<Rightarrow> string" where
  "dash_dbl v = (case v of None \<Rightarrow> ''-'' | Some x \<Rightarrow> to_string_double x)"

definition sensor_text :: "SensorRow \<Rightarrow> string" where
  "sensor_text s = concat (map line
     [''id            : '' @ sn_id s, ''name          : '' @ dash (sn_name s), ''site          : '' @ dash (sn_site s),
      ''model         : '' @ dash (sn_model s), ''serial        : '' @ dash (sn_serial_number s),
      ''protocol/feat : '' @ dash_int (sn_protocol_ver s) @ '' / '' @ dash_int (sn_feature_ver s),
      ''latitude      : '' @ dash_dbl (sn_latitude s), ''longitude     : '' @ dash_dbl (sn_longitude s),
      ''elevation_m   : '' @ dash_dbl (sn_elevation_m s), ''timezone      : '' @ dash (sn_timezone s),
      ''transport     : '' @ dash (sn_transport s), ''address       : '' @ dash (sn_address s),
      ''poll_interval : '' @ show_int (sn_poll_interval_s s) @ '' s'', ''status        : '' @ dash (sn_status s),
      ''installed_at  : '' @ dash (sn_installed_at s), ''notes         : '' @ dash (sn_notes s),
      ''created_at    : '' @ dash (sn_created_at s)])"

definition sensor_line :: "SensorRow \<Rightarrow> string" where
  "sensor_line s =
     line (sn_id s @ ''  ['' @ sn_transport s @ ''] '' @ sn_address s @
       (if sn_name s = [] then [] else ''  ('' @ sn_name s @ '')'') @
       (if sn_site s = [] then [] else ''  site='' @ sn_site s) @
       (case (sn_latitude s, sn_longitude s) of
          (Some x, Some y) \<Rightarrow> ''  @ '' @ ostream_double x @ '','' @ ostream_double y | _ \<Rightarrow> []))"

definition reading_line :: "ReadingRow \<Rightarrow> string" where
  "reading_line r =
     line (rr_ts_utc r @ ''  '' @ ostream_double (rr_mag_arcsec2 r) @ '' mag/arcsec^2  '' @ ostream_double (rr_temp_c r) @
       '' C  ['' @ rr_source r @ ''/'' @ rr_quality r @ '']'')"

definition nwdb_usage :: "string \<Rightarrow> string \<Rightarrow> string" where
  "nwdb_usage argv0 version = concat (map line
     [''nwdb '' @ version @ '' '' @ [CHR 0xE2, CHR 0x80, CHR 0x94] @ '' NightWatcher2 database tool'',
      [],
      ''Usage:'',
      ''  '' @ argv0 @ '' sensors'',
      ''  '' @ argv0 @ '' show <ID>'',
      ''  '' @ argv0 @ '' add-sensor <ID> --tcp HOST[:PORT] [metadata...]   (SQM-LE)'',
      ''  '' @ argv0 @ '' add-sensor <ID> --serial /dev/ttyUSB0 [metadata]  (SQM-LU)'',
      ''  '' @ argv0 @ '' set-sensor <ID> [metadata...]      (partial edit)'',
      ''  '' @ argv0 @ '' poll <ID>                          (read SQM -> store)'',
      ''  '' @ argv0 @ '' cal <ID>                           (read + store calibration)'',
      ''  '' @ argv0 @ '' readings <ID> [--limit N]'',
      ''  '' @ argv0 @ '' backup [FILE]                     (dump whole DB; stdout if no FILE)'',
      ''  '' @ argv0 @ '' restore FILE                       (load a backup; replaces data)'',
      [],
      ''Metadata flags (add-sensor / set-sensor):'',
      ''  --tcp HOST[:PORT]   --serial DEVICE   (choose one transport)'',
      ''  --name NAME         --site SITE'',
      ''  --lat DEG           --lon DEG         --elev METERS'',
      ''  --timezone TZ       --model MODEL     --serial SERIAL'',
      ''  --status S          --installed DATE  --poll-interval SECONDS'',
      ''  --notes TEXT        --no-probe        (skip reading ix from the device)'',
      [],
      ''add-sensor auto-fills serial/protocol/feature from the device (ix) unless'',
      ''--no-probe is given. Connection comes from NW_DB_HOST/PORT/USER/PASSWORD/NAME'',
      ''(NW_DB_HOST may be a remote host, and may carry a '' @ quoted '':PORT'' @ '' suffix).''])"

section \<open>The surroundings of the tools\<close>

text \<open>
  Program name, process environment, database connection, devices, scans (\<open>NW_Discovery\<close> models
  them) and files: \<open>ce_create\<close> opens one for writing and empties it.
\<close>

record 's cli_env =
  ce_argv0 :: string
  ce_version :: string
  ce_getenv :: "string \<Rightarrow> string option"
  ce_open :: "DbConfig \<Rightarrow> ('s, unit) db"
  ce_conn :: "DbConfig \<Rightarrow> 's conn"
  ce_esc :: "string \<Rightarrow> string"
  ce_dev :: "open_req \<Rightarrow> ('s, nat) db"
  ce_wr :: "nat \<Rightarrow> 's wr_op"
  ce_rd :: "nat \<Rightarrow> 's rd_op"
  ce_scan :: "string \<Rightarrow> int \<Rightarrow> int \<Rightarrow> int \<Rightarrow> ('s, Discovered list) db"
  ce_scan_usb :: "int \<Rightarrow> ('s, DiscoveredSerial list) db"
  ce_read :: "string \<Rightarrow> 's \<Rightarrow> string option"
  ce_create :: "string \<Rightarrow> 's \<Rightarrow> bool \<times> 's"
  ce_append :: "string \<Rightarrow> string \<Rightarrow> 's \<Rightarrow> bool \<times> 's"

section \<open>nwdb: commands\<close>

definition cli_device :: "'s cli_env \<Rightarrow> string \<Rightarrow> string \<Rightarrow> int \<Rightarrow> ('s, nat) db" where
  "cli_device e transport address timeout_ms = db_bind (db_lift (open_device transport address timeout_ms)) (ce_dev e)"

definition probe_and_fill :: "'s cli_env \<Rightarrow> SensorFields \<Rightarrow> ('s, SensorFields) db" where
  "probe_and_fill e f =
     (case (sf_transport f, sf_address f) of
        (Some t, Some addr) \<Rightarrow>
          db_catch (db_bind (cli_device e t addr 3000) (\<lambda>h. db_map (filled f) (info (ce_wr e h) (ce_rd e h)))) (\<lambda>_. db_ret f)
      | _ \<Rightarrow> db_ret f)"

definition cmd_sensors :: "'s conn \<Rightarrow> ('s \<times> string, int) db" where
  "cmd_sensors c = db_bind (on_world (sensors c)) (\<lambda>rows.
     saying (if rows = [] then line ''(no sensors registered)'' else concat (map sensor_line rows)) 0)"

text \<open>A command on a stored sensor; its absence is exit code 1.\<close>

definition with_sensor :: "'s conn \<Rightarrow> string \<Rightarrow> (SensorRow \<Rightarrow> ('s \<times> string, int) db) \<Rightarrow> ('s \<times> string, int) db" where
  "with_sensor c i f = db_bind (on_world (find_sensor c i)) (\<lambda>s. case s of None \<Rightarrow> db_ret 1 | Some x \<Rightarrow> f x)"

definition cmd_show :: "'s conn \<Rightarrow> string \<Rightarrow> ('s \<times> string, int) db" where
  "cmd_show c i = with_sensor c i (\<lambda>s. saying (sensor_text s) 0)"

definition cmd_poll :: "'s cli_env \<Rightarrow> 's conn \<Rightarrow> string \<Rightarrow> ('s \<times> string, int) db" where
  "cmd_poll e c i = with_sensor c i (\<lambda>s.
     db_bind (on_world (cli_device e (sn_transport s) (sn_address s) 5000)) (\<lambda>h.
     db_bind (on_world (read_averaged (ce_wr e h) (ce_rd e h))) (\<lambda>r.
       let quality = (if dle0 (rd_mag_arcsec2 r) then ''saturated'' else ''ok'')
       in db_bind (on_world (insert_reading c i r [] ''poll'' quality)) (\<lambda>rid.
            saying (line (''stored reading id='' @ show_int rid @ ''  mag='' @ ostream_double (rd_mag_arcsec2 r) @
                ''  temp='' @ ostream_double (rd_temp_c r) @ '' C  ('' @ quality @ '')'') @
              line (''raw: '' @ rd_raw r) @
              (if rid = 0 then line ''(a reading with this timestamp already existed; ignored)'' else [])) 0))))"

definition cmd_cal :: "'s cli_env \<Rightarrow> 's conn \<Rightarrow> string \<Rightarrow> ('s \<times> string, int) db" where
  "cmd_cal e c i = with_sensor c i (\<lambda>s.
     db_bind (on_world (cli_device e (sn_transport s) (sn_address s) 5000)) (\<lambda>h.
     db_bind (on_world (calibration (ce_wr e h) (ce_rd e h))) (\<lambda>k.
     db_bind (on_world (insert_calibration c i k [] ''calibration'' [] [])) (\<lambda>_.
       saying (line (''stored calibration  light_offset='' @ ostream_double (cal_light_cal_offset k) @ ''  dark_period='' @
           ostream_double (cal_dark_cal_period_s k) @ '' s  sensor_offset='' @ ostream_double (cal_sensor_offset k)) @
         line (''raw: '' @ cal_raw k)) 0))))"

definition cmd_readings :: "'s conn \<Rightarrow> string \<Rightarrow> int \<Rightarrow> ('s \<times> string, int) db" where
  "cmd_readings c i limit = db_bind (on_world (readings c i limit)) (\<lambda>rows.
     saying (if rows = [] then line (''(no readings for '' @ quoted i @ '')'') else concat (map reading_line rows)) 0)"

definition print_stored :: "'s conn \<Rightarrow> string \<Rightarrow> ('s \<times> string, unit) db" where
  "print_stored c i = db_bind (on_world (find_sensor c i)) (\<lambda>s. case s of None \<Rightarrow> db_ret () | Some x \<Rightarrow> say (sensor_text x))"

definition disabled_note :: "'s cli_env \<Rightarrow> string \<Rightarrow> SensorFields \<Rightarrow> string" where
  "disabled_note e i f =
     (if sf_status f = Some ''inactive''
      then line (''note: sensor is disabled '' @ [CHR 0xE2, CHR 0x80, CHR 0x94] @
             '' no readings will be stored. Verify it, then run:'') @
           line (''      '' @ ce_argv0 e @ '' set-sensor '' @ i @ '' --status active'')
      else [])"

definition cmd_add_sensor :: "'s cli_env \<Rightarrow> 's conn \<Rightarrow> string \<Rightarrow> SensorFields \<Rightarrow> bool \<Rightarrow> ('s \<times> string, int) db" where
  "cmd_add_sensor e c i f no_probe =
     (if sf_transport f = None \<or> sf_address f = None then db_ret 2
      else db_bind (if no_probe then db_ret f else on_world (probe_and_fill e f)) (\<lambda>f1.
           let f2 = disabled_at_first f1
           in db_bind (on_world (upsert_sensor c i f2)) (\<lambda>_.
              db_bind (say (line (''sensor '' @ quoted i @ '' saved.''))) (\<lambda>_.
              db_bind (print_stored c i) (\<lambda>_. saying (disabled_note e i f2) 0)))))"

definition cmd_set_sensor :: "'s conn \<Rightarrow> string \<Rightarrow> SensorFields \<Rightarrow> ('s \<times> string, int) db" where
  "cmd_set_sensor c i f =
     db_bind (on_world (update_sensor c i f)) (\<lambda>there.
       if there then db_bind (say (line (''sensor '' @ quoted i @ '' updated.''))) (\<lambda>_.
                     db_bind (print_stored c i) (\<lambda>_. db_ret 0))
       else db_ret 1)"

text \<open>The file is emptied before the dump; what a dump that throws had streamed by then is not kept.\<close>

definition cmd_backup :: "'s cli_env \<Rightarrow> 's conn \<Rightarrow> string option \<Rightarrow> ('s \<times> string, int) db" where
  "cmd_backup e c file =
     (case file of
        None \<Rightarrow> db_bind (on_world (dump_sql c (ce_esc e))) (\<lambda>t. saying t 0)
      | Some p \<Rightarrow>
          db_bind (on_world (\<lambda>s. case ce_create e p s of (b, s') \<Rightarrow> (ok b, s'))) (\<lambda>opened.
            if \<not> opened then db_ret 1
            else db_bind (on_world (dump_sql c (ce_esc e))) (\<lambda>t.
                 db_bind (on_world (\<lambda>s. case ce_append e p t s of (b, s') \<Rightarrow> (ok b, s'))) (\<lambda>written.
                   if \<not> written then db_ret 1 else saying (line (''database backed up to '' @ p)) 0))))"

definition cmd_restore :: "'s cli_env \<Rightarrow> 's conn \<Rightarrow> string \<Rightarrow> ('s \<times> string, int) db" where
  "cmd_restore e c p =
     db_bind (on_world (\<lambda>s. (ok (ce_read e p s), s))) (\<lambda>t.
       case t of
         None \<Rightarrow> db_ret 1
       | Some content \<Rightarrow>
           db_bind (on_world (restore_sql c content)) (\<lambda>n.
             saying (line (''restored '' @ show_int n @ '' statement(s) from '' @ p)) 0))"

definition with_arg :: "string list \<Rightarrow> (string \<Rightarrow> ('s \<times> string, int) db) \<Rightarrow> ('s \<times> string, int) db" where
  "with_arg pos f = (case pos of _ # i # _ \<Rightarrow> f i | _ \<Rightarrow> db_ret 2)"

definition nwdb_command :: "'s cli_env \<Rightarrow> 's conn \<Rightarrow> nwdb_args \<Rightarrow> ('s \<times> string, int) db" where
  "nwdb_command e c st =
     (let pos = na_pos st; cmd = hd pos; f = na_fields st
      in if cmd = ''sensors'' then cmd_sensors c
         else if cmd = ''show'' then with_arg pos (cmd_show c)
         else if cmd = ''add-sensor'' then with_arg pos (\<lambda>i. cmd_add_sensor e c i f (na_no_probe st))
         else if cmd = ''set-sensor'' then with_arg pos (\<lambda>i. cmd_set_sensor c i f)
         else if cmd = ''poll'' then with_arg pos (cmd_poll e c)
         else if cmd = ''cal'' then with_arg pos (cmd_cal e c)
         else if cmd = ''readings'' then with_arg pos (\<lambda>i. cmd_readings c i (na_limit st))
         else if cmd = ''backup'' then cmd_backup e c (case pos of _ # p # _ \<Rightarrow> Some p | _ \<Rightarrow> None)
         else if cmd = ''restore'' then with_arg pos (cmd_restore e c)
         else saying (nwdb_usage (ce_argv0 e) (ce_version e)) 2)"

text \<open>The exit code, and the world with what was printed.\<close>

definition nwdb_main :: "'s cli_env \<Rightarrow> string list \<Rightarrow> 's \<times> string \<Rightarrow> int \<times> ('s \<times> string)" where
  "nwdb_main e args w =
     (case nwdb_scan args nwdb_init of
        Inl StopHelp \<Rightarrow> (0, snd (say (nwdb_usage (ce_argv0 e) (ce_version e)) w))
      | Inl StopVersion \<Rightarrow> (0, snd (say (line (''nwdb '' @ ce_version e)) w))
      | Inl StopError \<Rightarrow> (2, w)
      | Inr st \<Rightarrow>
          if na_pos st = [] then (2, snd (say (nwdb_usage (ce_argv0 e) (ce_version e)) w))
          else let dbc = db_config_from_env (ce_getenv e)
               in case db_bind (on_world (ce_open e dbc)) (\<lambda>_. nwdb_command e (ce_conn e dbc) st) w of
                 (Inr status, w') \<Rightarrow> (status, w')
               | (Inl _, w') \<Rightarrow> (1, w'))"

section \<open>sqmctl\<close>

definition sqmctl_usage :: "string \<Rightarrow> string \<Rightarrow> string" where
  "sqmctl_usage argv0 version = concat (map line
     [''sqmctl '' @ version @ '' '' @ [CHR 0xE2, CHR 0x80, CHR 0x94] @ '' Unihedron SQM tool'',
      [],
      ''Usage:'',
      ''  '' @ argv0 @ '' discover <CIDR> [--port N] [--timeout MS] [--concurrency N]'',
      ''  '' @ argv0 @ '' discover-usb [--timeout MS]'',
      ''  '' @ argv0 @ '' --tcp HOST[:PORT] <command> [--timeout MS]   (SQM-LE)'',
      ''  '' @ argv0 @ '' --serial DEVICE <command> [--timeout MS]     (SQM-LU)'',
      [],
      ''Query commands:'',
      ''  info         Unit information (ix)'',
      ''  read         Averaged reading (rx)'',
      ''  unaveraged   Unaveraged reading (ux)'',
      ''  cal          Calibration information (cx)'',
      [],
      ''discover scans a subnet for SQM-LE units; discover-usb probes the local'',
      ''serial/USB bus for SQM-LU units, e.g.:'',
      ''  '' @ argv0 @ '' discover 192.168.1.0/24'',
      ''  '' @ argv0 @ '' discover-usb'',
      ''  '' @ argv0 @ '' --serial /dev/ttyUSB0 info'',
      [],
      ''TCP default port is 10001 (SQM-LE); serial is 115200 8N1 (SQM-LU). Query'',
      ''timeout defaults to 5000 ms; discovery timeouts default to 700 ms (subnet)'',
      ''and 2000 ms (usb).''])"

record sqmctl_args =
  qa_endpoint :: string
  qa_transport :: string
  qa_positionals :: "string list"
  qa_timeout_ms :: int
  qa_port :: int
  qa_concurrency :: int

datatype sqmctl_opt =
    QHelp
  | QVersion
  | QValue "string \<Rightarrow> sqmctl_args \<Rightarrow> sqmctl_args"
  | QUnknown
  | QPositional

definition sqmctl_opt :: "string \<Rightarrow> sqmctl_opt" where
  "sqmctl_opt a =
     (if a = ''-h'' \<or> a = ''--help'' then QHelp
      else if a = ''--version'' then QVersion
      else if a = ''--tcp'' then QValue (\<lambda>v st. st\<lparr>qa_transport := ''tcp'', qa_endpoint := v\<rparr>)
      else if a = ''--serial'' then QValue (\<lambda>v st. st\<lparr>qa_transport := ''serial'', qa_endpoint := v\<rparr>)
      else if a = ''--timeout'' then QValue (\<lambda>v st. st\<lparr>qa_timeout_ms := atoi v\<rparr>)
      else if a = ''--port'' then QValue (\<lambda>v st. st\<lparr>qa_port := to_u16 (atoi v)\<rparr>)
      else if a = ''--concurrency'' then QValue (\<lambda>v st. st\<lparr>qa_concurrency := atoi v\<rparr>)
      else if starts_with ''-'' a then QUnknown
      else QPositional)"

fun sqmctl_scan :: "string list \<Rightarrow> sqmctl_args \<Rightarrow> nwdb_stop + sqmctl_args" where
  "sqmctl_scan [] st = Inr st"
| "sqmctl_scan (a # r) st =
     (case sqmctl_opt a of
        QHelp \<Rightarrow> Inl StopHelp
      | QVersion \<Rightarrow> Inl StopVersion
      | QValue f \<Rightarrow> (case r of [] \<Rightarrow> Inl StopError | v # r' \<Rightarrow> sqmctl_scan r' (f v st))
      | QUnknown \<Rightarrow> Inl StopError
      | QPositional \<Rightarrow> sqmctl_scan r (st\<lparr>qa_positionals := qa_positionals st @ [a]\<rparr>))"

definition sqmctl_init :: sqmctl_args where
  "sqmctl_init = \<lparr>qa_endpoint = [], qa_transport = ''tcp'', qa_positionals = [], qa_timeout_ms = - 1, qa_port = 10001,
     qa_concurrency = 128\<rparr>"

definition reading_text :: "Reading \<Rightarrow> string" where
  "reading_text r = concat (map line
     ([''raw           : '' @ rd_raw r, ''mag/arcsec^2  : '' @ ostream_double (rd_mag_arcsec2 r),
       ''frequency Hz  : '' @ show_int (rd_freq_hz r), ''period counts : '' @ show_int (rd_period_counts r),
       ''period s      : '' @ ostream_double (rd_period_s r), ''temperature C : '' @ ostream_double (rd_temp_c r)] @
      (if rd_serial r = [] then [] else [''serial        : '' @ rd_serial r])))"

definition info_text :: "UnitInfo \<Rightarrow> string" where
  "info_text u = concat (map line
     [''raw      : '' @ ui_raw u, ''protocol : '' @ show_int (ui_protocol u), ''model    : '' @ show_int (ui_model u),
      ''feature  : '' @ show_int (ui_feature u), ''serial   : '' @ ui_serial u])"

definition cal_text :: "Calibration \<Rightarrow> string" where
  "cal_text k = concat (map line
     [''raw               : '' @ cal_raw k, ''light cal offset  : '' @ ostream_double (cal_light_cal_offset k) @ '' mag'',
      ''dark cal period s : '' @ ostream_double (cal_dark_cal_period_s k),
      ''temp @ light cal  : '' @ ostream_double (cal_temp_light_c k) @ '' C'',
      ''sensor offset     : '' @ ostream_double (cal_sensor_offset k) @ '' mag'',
      ''temp @ dark cal   : '' @ ostream_double (cal_temp_dark_c k) @ '' C''])"

definition unit_text :: "UnitInfo \<Rightarrow> string" where
  "unit_text u = ''  serial='' @ ui_serial u @ '' model='' @ show_int (ui_model u) @ '' feature='' @ show_int (ui_feature u) @
     '' protocol='' @ show_int (ui_protocol u)"

text \<open>A \<^verbatim>\<open>try\<close> whose \<^verbatim>\<open>catch\<close> reports the error and returns 1.\<close>

definition or_1 :: "('s \<times> string, int) db \<Rightarrow> ('s \<times> string, int) db" where
  "or_1 m = db_catch m (\<lambda>_. db_ret 1)"

definition run_discover :: "'s cli_env \<Rightarrow> string \<Rightarrow> int \<Rightarrow> int \<Rightarrow> int \<Rightarrow> ('s \<times> string, int) db" where
  "run_discover e cidr port timeout_ms concurrency = or_1
     (db_bind (db_lift (cidr_hosts cidr)) (\<lambda>_.
      db_bind (on_world (ce_scan e cidr port timeout_ms concurrency)) (\<lambda>ds.
        if ds = [] then saying (line (''No SQM found on '' @ cidr)) 1
        else saying (line (''Found '' @ show_nat (length ds) @ '' SQM(s):'') @
               concat (map (\<lambda>d. line (''  '' @ dc_ip d @ '':'' @ show_int port @ unit_text (dc_info d))) ds)) 0)))"

definition run_discover_usb :: "'s cli_env \<Rightarrow> int \<Rightarrow> ('s \<times> string, int) db" where
  "run_discover_usb e timeout_ms = or_1
     (db_bind (on_world (ce_scan_usb e timeout_ms)) (\<lambda>ds.
        if ds = [] then saying (line ''No SQM-LU found on the serial/USB bus'') 1
        else saying (line (''Found '' @ show_nat (length ds) @ '' SQM-LU:'') @
               concat (map (\<lambda>d. line (''  '' @ ds_device d @ unit_text (ds_info d))) ds)) 0))"

definition run_query :: "'s cli_env \<Rightarrow> string \<Rightarrow> string \<Rightarrow> string \<Rightarrow> int \<Rightarrow> ('s \<times> string, int) db" where
  "run_query e transport address command timeout_ms = or_1
     (db_bind (on_world (cli_device e transport address timeout_ms)) (\<lambda>h.
        if command = ''info'' then db_bind (on_world (info (ce_wr e h) (ce_rd e h))) (\<lambda>u. saying (info_text u) 0)
        else if command = ''read''
        then db_bind (on_world (read_averaged (ce_wr e h) (ce_rd e h))) (\<lambda>r. saying (reading_text r) 0)
        else if command = ''unaveraged''
        then db_bind (on_world (read_unaveraged (ce_wr e h) (ce_rd e h))) (\<lambda>r. saying (reading_text r) 0)
        else if command = ''cal''
        then db_bind (on_world (calibration (ce_wr e h) (ce_rd e h))) (\<lambda>k. saying (cal_text k) 0)
        else db_ret 2))"

definition sqmctl_command :: "'s cli_env \<Rightarrow> sqmctl_args \<Rightarrow> ('s \<times> string, int) db" where
  "sqmctl_command e st =
     (let command = hd (qa_positionals st); or_default = (\<lambda>d. if qa_timeout_ms st < 0 then d else qa_timeout_ms st)
      in if command = ''discover''
         then with_arg (qa_positionals st) (\<lambda>cidr. run_discover e cidr (qa_port st) (or_default 700) (qa_concurrency st))
         else if command = ''discover-usb'' then run_discover_usb e (or_default 2000)
         else if qa_endpoint st = [] then db_ret 2
         else run_query e (qa_transport st) (qa_endpoint st) command (or_default 5000))"

definition sqmctl_main :: "'s cli_env \<Rightarrow> string list \<Rightarrow> 's \<times> string \<Rightarrow> int \<times> ('s \<times> string)" where
  "sqmctl_main e args w =
     (case sqmctl_scan args sqmctl_init of
        Inl StopHelp \<Rightarrow> (0, snd (say (sqmctl_usage (ce_argv0 e) (ce_version e)) w))
      | Inl StopVersion \<Rightarrow> (0, snd (say (line (''sqmctl '' @ ce_version e)) w))
      | Inl StopError \<Rightarrow> (2, w)
      | Inr st \<Rightarrow>
          if qa_positionals st = [] then (2, snd (say (sqmctl_usage (ce_argv0 e) (ce_version e)) w))
          else (case sqmctl_command e st w of (Inr status, w') \<Rightarrow> (status, w') | (Inl _, w') \<Rightarrow> (1, w')))"

section \<open>Arguments\<close>

lemma nwdb_opt_facts:
  "nwdb_opt a = OText f \<Longrightarrow> sf_serial_number (f v x) = sf_serial_number x"
  "nwdb_opt a = OReal g \<Longrightarrow> sf_serial_number (g y x) = sf_serial_number x"
  "nwdb_opt a = OInt h \<Longrightarrow> sf_serial_number (h n x) = sf_serial_number x"
  unfolding nwdb_opt_def over_tcp_def over_serial_def by (auto split: if_split_asm)

text \<open>
  No command line sets the serial number: the flag meant for it has the name of the one that selects
  the serial transport, which comes first in the chain, so its own branch is never reached.
\<close>

lemma nwdb_serial_unreachable:
  "nwdb_scan args st = Inr st' \<Longrightarrow> sf_serial_number (na_fields st') = sf_serial_number (na_fields st)"
proof (induction args st rule: nwdb_scan.induct)
  case (1 st)
  then show ?case by simp
next
  case (2 a r st)
  show ?case
  proof (cases "nwdb_opt a")
    case (OText f)
    then show ?thesis using 2 nwdb_opt_facts(1) [OF OText] by (cases r) auto
  next
    case (OReal f)
    then show ?thesis using 2 nwdb_opt_facts(2) [OF OReal] by (cases r) (auto split: sum.splits)
  next
    case (OInt f)
    then show ?thesis using 2 nwdb_opt_facts(3) [OF OInt] by (cases r) (auto split: sum.splits)
  next
    case OLimit
    then show ?thesis using 2 by (cases r) (auto split: sum.splits)
  qed (use 2 in auto)
qed

section \<open>Registering a sensor from the shell and over HTTP\<close>

definition same_surroundings :: "'s cli_env \<Rightarrow> 's api \<Rightarrow> bool" where
  "same_surroundings e a \<longleftrightarrow> ce_dev e = ap_dev a \<and> ce_wr e = ap_wr a \<and> ce_rd e = ap_rd a \<and>
     ce_conn e (db_config_from_env (ce_getenv e)) = ap_conn a \<and> ce_open e (db_config_from_env (ce_getenv e)) = ap_open a"

lemma same_probe:
  assumes "same_surroundings e a"
  shows "probe_and_fill e f = probe_fill a f"
proof -
  have "cli_device e = open_dev a"
    using assms by (intro ext) (simp add: same_surroundings_def cli_device_def open_dev_def)
  then show ?thesis using assms by (simp add: same_surroundings_def probe_and_fill_def probe_fill_def split: option.splits)
qed

lemma disabled_at_first_simps [simp]:
  "sf_transport (disabled_at_first f) = sf_transport f" "sf_address (disabled_at_first f) = sf_address f"
  "filled (disabled_at_first f) u = disabled_at_first (filled f u)"
  by (simp_all add: disabled_at_first_def filled_def)

lemma probe_fill_result: "\<exists>g s'. probe_fill a f s = (Inr g, s') \<and> probe_fill a (disabled_at_first f) s = (Inr (disabled_at_first g), s')"
proof (cases "sf_transport f = None \<or> sf_address f = None")
  case True
  then show ?thesis by (auto simp: probe_fill_def db_ret_def split: option.splits)
next
  case False
  then obtain t addr where ta: "sf_transport f = Some t" "sf_address f = Some addr" by auto
  obtain r s1 where r: "open_dev a t addr 3000 s = (r, s1)" by (metis surj_pair)
  show ?thesis
  proof (cases r)
    case (Inr h)
    obtain q s2 where "info (ap_wr a h) (ap_rd a h) s1 = (q, s2)" by (metis surj_pair)
    then show ?thesis using ta r Inr by (cases q) (simp_all add: probe_fill_def db_catch_def db_bind_def db_map_def db_ret_def)
  qed (use ta r in \<open>simp add: probe_fill_def db_catch_def db_bind_def db_ret_def\<close>)
qed

lemma on_world_run: "on_world m (s, out) = (fst (m s), (snd (m s), out))"
  by (simp add: on_world_def split: prod.splits)

text \<open>What both do once the fields are complete.\<close>

lemma add_sensor_tail:
  assumes "db_bind (on_world (upsert_sensor c i f)) (\<lambda>_. db_bind (say t) (\<lambda>_. db_bind (print_stored c i) (\<lambda>_. saying u 0))) (s, out) = (r, w)"
    and "ap_conn a = c" and "\<And>s. ap_open a s = (Inr (), s)" and "store_sensor a i f s = (q, s')"
  shows "fst w = s' \<and> (r = Inr 0 \<longleftrightarrow> (\<exists>rs. q = Inr rs \<and> rs_status rs = 201)) \<and> (\<forall>n. r = Inr n \<longrightarrow> n = 0)"
proof -
  obtain r1 s1 where u: "upsert_sensor c i f s = (r1, s1)" by (metis surj_pair)
  obtain r2 s2 where g: "find_sensor c i s1 = (r2, s2)" by (metis surj_pair)
  note d = store_sensor_def with_db_def or_error_def db_bind_def db_catch_def on_world_run u g assms(2,3) say_def saying_def
    db_ret_def send_err_def reply_err_def reply_json_def print_stored_def
  show ?thesis
  proof (cases r1)
    case (Inl m)
    then show ?thesis using assms(1,4) by (auto simp: d)
  next
    case r1: (Inr x)
    show ?thesis
    proof (cases r2)
      case (Inl m)
      then show ?thesis using assms(1,4) r1 by (auto simp: d)
    next
      case (Inr y)
      then show ?thesis using assms(1,4) r1 by (cases y) (auto simp: d found_or_id_def send_def)
    qed
  qed
qed

text \<open>
  C15. Registering a sensor with nwdb and with POST /sensors does the same: with the same fields, the
  same wish to probe and a database that can be reached, both leave the same database and the same
  devices behind, and the tool exits with 0 exactly when the API answers 201.
\<close>

theorem cli_registers_like_api:
  assumes same: "same_surroundings e a" and opens: "\<And>w. ap_open a w = (Inr (), w)"
    and req: "token_ok a rq" "sv_parse (ap_sv a) (rq_body rq) = Inr b" "member b ''id'' = Some (JStr i)"
      "sensor_fields_from_json b = Inr f" "want_probe b = Inr (\<not> na_no_probe st)"
    and args: "nwdb_scan args nwdb_init = Inr st" "na_pos st = [''add-sensor'', i]" "na_fields st = f"
    and addressed: "sf_transport f \<noteq> None" "sf_address f \<noteq> None"
  shows "fst (snd (nwdb_main e args (s, out))) = snd (post_sensors a rq s) \<and>
    (fst (nwdb_main e args (s, out)) = 0 \<longleftrightarrow> (\<exists>r. fst (post_sensors a rq s) = Inr r \<and> rs_status r = 201))"
proof -
  define c where "c = ap_conn a"
  have c: "ce_conn e (db_config_from_env (ce_getenv e)) = c" "ap_conn a = c"
    and o: "ce_open e (db_config_from_env (ce_getenv e)) = ap_open a" using same by (simp_all add: same_surroundings_def c_def)
  obtain g s1 where fill: "(if na_no_probe st then db_ret f else probe_fill a f) s = (Inr g, s1)"
    "(if na_no_probe st then db_ret (disabled_at_first f) else probe_fill a (disabled_at_first f)) s = (Inr (disabled_at_first g), s1)"
    using probe_fill_result [of a f s] by (cases "na_no_probe st") (auto simp: db_ret_def)
  let ?f = "disabled_at_first g"
  define tail where "tail = db_bind (on_world (upsert_sensor c i ?f)) (\<lambda>_.
     db_bind (say (line (''sensor '' @ quoted i @ '' saved.''))) (\<lambda>_. db_bind (print_stored c i) (\<lambda>_. saying (disabled_note e i ?f) 0)))"
  obtain r w where t: "tail (s1, out) = (r, w)" by (metis surj_pair)
  obtain q s2 where q: "store_sensor a i ?f s1 = (q, s2)" by (metis surj_pair)
  note both = add_sensor_tail [OF t [unfolded tail_def] c(2) opens q]
  have "(if na_no_probe st then db_ret f else on_world (probe_and_fill e f)) (s, out) = (Inr g, (s1, out))"
    using fill(1) by (cases "na_no_probe st") (simp_all add: same_probe [OF same] on_world_run db_ret_def)
  then have "cmd_add_sensor e c i f (na_no_probe st) (s, out) = (r, w)"
    using addressed t by (auto simp: cmd_add_sensor_def db_bind_def tail_def Let_def)
  then have cli: "nwdb_main e args (s, out) = (case r of Inr n \<Rightarrow> (n, w) | Inl _ \<Rightarrow> (1, w))"
    using args by (simp add: nwdb_main_def nwdb_command_def with_arg_def c o db_bind_def on_world_run opens split: sum.splits)
  have "post_sensors a rq s = (q, s2)"
    using req addressed fill(2) q
    by (auto simp: post_sensors_def admin_only_def require_auth_def db_bind_def db_ret_def json_body_def db_lift_def)
  then show ?thesis using both cli by (cases r) auto
qed

definition cli_demo :: "database cli_env" where
  "cli_demo = \<lparr>ce_argv0 = ''nwdb'', ce_version = ''0.1.2'', ce_getenv = (\<lambda>_. None), ce_open = (\<lambda>_ s. (ok (), s)),
     ce_conn = (\<lambda>_. store_conn), ce_esc = mysql_esc, ce_dev = (\<lambda>_ s. (throw ''no device'', s)),
     ce_wr = (\<lambda>_ s _. (throw ''no device'', s)), ce_rd = (\<lambda>_ s. (throw ''no device'', s)),
     ce_scan = (\<lambda>_ _ _ _ s. (ok [], s)), ce_scan_usb = (\<lambda>_ s. (ok [], s)), ce_read = (\<lambda>_ _. None),
     ce_create = (\<lambda>_ s. (False, s)), ce_append = (\<lambda>_ _ s. (False, s))\<rparr>"

theorem cli_registers_like_api_witness:
  "\<exists>body. let a = demo_api body; rq = (demo_request ''POST'' (api ''sensors''))\<lparr>rq_header := (\<lambda>k. if k = ''Authorization'' then ''t0'' else [])\<rparr>;
       run = nwdb_main cli_demo [''add-sensor'', ''s9'', ''--tcp'', ''10.0.0.9''] (demo_db, [])
     in fst (snd run) = snd (post_sensors a rq demo_db) \<and>
       (fst run = 0 \<longleftrightarrow> (\<exists>r. fst (post_sensors a rq demo_db) = Inr r \<and> rs_status r = 201))"
proof -
  let ?body = "JObj [(''id'', JStr ''s9''), (''tcp'', JStr ''10.0.0.9'')]"
  let ?f = "no_fields\<lparr>sf_transport := Some ''tcp'', sf_address := Some ''10.0.0.9''\<rparr>"
  let ?st = "nwdb_init\<lparr>na_pos := [''add-sensor'', ''s9''], na_fields := ?f\<rparr>"
  have scan: "nwdb_scan [''add-sensor'', ''s9'', ''--tcp'', ''10.0.0.9''] nwdb_init = Inr ?st"
    by (simp add: nwdb_opt_def starts_with_def nwdb_init_def over_tcp_def)
  have same: "same_surroundings cli_demo (demo_api ?body)"
    by (simp add: same_surroundings_def cli_demo_def demo_api_def)
  have "sensor_fields_from_json ?body = Inr ?f" by (simp add: sensor_fields_from_json_def field_def no_fields_def)
  moreover have "want_probe ?body = Inr True" by (simp add: want_probe_def)
  moreover have "sf_transport ?f \<noteq> None" "sf_address ?f \<noteq> None" by simp_all
  moreover have "token_ok (demo_api ?body) ((demo_request ''POST'' (api ''sensors''))\<lparr>rq_header := (\<lambda>k. if k = ''Authorization'' then ''t0'' else [])\<rparr>)"
    by (simp add: token_ok_def demo_api_def)
  moreover have "sv_parse (ap_sv (demo_api ?body)) t = Inr ?body" for t by (simp add: demo_api_def demo_services_def)
  ultimately show ?thesis unfolding Let_def
    by (intro exI [of _ ?body] cli_registers_like_api [OF same _ _ _ _ _ _ scan, where i = "''s9''" and f = ?f])
      (simp_all add: demo_api_def nwdb_init_def)
qed

end
