(* ===== verification/NW_Tls.thy ===== *)
theory NW_Tls imports NW_Sql NW_Drive begin

text \<open>
  The self-signed certificate of the HTTPS listener (\<^verbatim>\<open>src/api/tls_cert.cpp\<close>): the alternative
  names, the parent directories, the fingerprint and the order in which key and certificate are
  made and written. OpenSSL and the file system are the operations of the record \<open>tls_ops\<close>.
\<close>

unbundle bit_operations_syntax

section \<open>Subject alternative names\<close>

datatype sockaddr = NoAddr | Inet | Inet6 "8 word list" | OtherFamily

text \<open>One entry of \<^verbatim>\<open>getifaddrs\<close>; \<open>if_text\<close> is what \<^verbatim>\<open>inet_ntop\<close> makes of its address.\<close>

record ifaddr =
  if_addr :: sockaddr
  if_up :: bool
  if_loopback :: bool
  if_text :: "string option"

definition link_local :: "8 word list \<Rightarrow> bool" where
  "link_local b \<longleftrightarrow> b ! 0 = 0xFE \<and> b ! 1 AND 0xC0 = 0x80"

definition add_entry :: "string list \<Rightarrow> string \<Rightarrow> string list" where
  "add_entry es e = (if e \<in> set es then es else es @ [e])"

definition iface_entry :: "ifaddr \<Rightarrow> string option" where
  "iface_entry p =
     (if if_addr p = NoAddr \<or> \<not> if_up p \<or> if_loopback p then None
      else case if_addr p of
          Inet \<Rightarrow> map_option (\<lambda>t. ''IP:'' @ t) (if_text p)
        | Inet6 b \<Rightarrow> if link_local b then None else map_option (\<lambda>t. ''IP:'' @ t) (if_text p)
        | _ \<Rightarrow> None)"

text \<open>\<open>host\<close> is what \<^verbatim>\<open>gethostname\<close> filled in, \<open>ifs\<close> the interfaces; \<open>None\<close> is a failed call.\<close>

definition san_entries :: "string \<Rightarrow> string option \<Rightarrow> ifaddr list option \<Rightarrow> string list" where
  "san_entries cn host ifs =
     foldl add_entry []
       ([''DNS:localhost'', ''IP:127.0.0.1'', ''IP:0:0:0:0:0:0:0:1''] @
        (if cn \<noteq> [] \<and> cn \<noteq> ''localhost'' then [''DNS:'' @ cn] else []) @
        (case host of None \<Rightarrow> [] | Some h \<Rightarrow> if h = [] then [] else [''DNS:'' @ h]) @
        (case ifs of None \<Rightarrow> [] | Some ps \<Rightarrow> List.map_filter iface_entry ps))"

definition build_san_list :: "string \<Rightarrow> string option \<Rightarrow> ifaddr list option \<Rightarrow> string" where
  "build_san_list cn host ifs = join '','' (san_entries cn host ifs)"

section \<open>Directories and fingerprint\<close>

text \<open>The directories \<^verbatim>\<open>ensure_parent_dir\<close> asks for, in its order.\<close>

function dir_prefixes :: "string \<Rightarrow> nat \<Rightarrow> string list" where
  "dir_prefixes dir pos =
     (if length dir < pos then []
      else case find_chr_from CHR ''/'' dir pos of
          None \<Rightarrow> filter (\<lambda>p. p \<noteq> []) [dir]
        | Some k \<Rightarrow> filter (\<lambda>p. p \<noteq> []) [substr_n dir 0 k] @ dir_prefixes dir (k + 1))"
  by pat_completeness auto
termination
  by (relation "measure (\<lambda>(dir, pos). Suc (length dir) - pos)") (auto simp: find_chr_from_def)

declare dir_prefixes.simps [simp del]

definition parent_dirs :: "string \<Rightarrow> string list" where
  "parent_dirs path =
     (case rfind_chr CHR ''/'' path of
        None \<Rightarrow> [] | Some k \<Rightarrow> if k = 0 then [] else dir_prefixes (substr_n path 0 k) 0)"

definition hex_fingerprint :: "8 word list option \<Rightarrow> string" where
  "hex_fingerprint md =
     (case md of
        None \<Rightarrow> ''?''
      | Some bs \<Rightarrow> join '':'' (map (\<lambda>b. [hex_upper (unat (drop_bit 4 b)), hex_upper (unat (b AND 0x0F))]) bs))"

section \<open>The certificate\<close>

record 'k cert =
  xt_version :: int
  xt_serial :: int
  xt_not_before :: int
  xt_not_after :: int
  xt_pubkey :: 'k
  xt_subject :: "(string \<times> string) list"
  xt_issuer :: "(string \<times> string) list"
  xt_san :: "string option"

text \<open>
  What the code calls: key generation, the certificate object, \<^verbatim>\<open>X509_set_pubkey\<close>, the extension
  parser, \<^verbatim>\<open>X509_sign\<close>, the PEM texts and the digest, then the file system: can a file be read,
  \<^verbatim>\<open>mkdir\<close>, \<^verbatim>\<open>fopen\<close> for writing, writing the text, \<^verbatim>\<open>chmod\<close>, host name and interfaces.
\<close>

record ('k, 's) tls_ops =
  to_ctx :: "'s \<Rightarrow> bool"
  to_keygen :: "int \<Rightarrow> 's \<Rightarrow> 'k option \<times> 's"
  to_new :: "'s \<Rightarrow> bool"
  to_pubkey_ok :: "'k \<Rightarrow> bool"
  to_san_ok :: "string \<Rightarrow> bool"
  to_sign :: "'k cert \<Rightarrow> 'k \<Rightarrow> bool"
  to_key_pem :: "'k \<Rightarrow> string"
  to_cert_pem :: "'k cert \<Rightarrow> string"
  to_digest :: "'k cert \<Rightarrow> 8 word list option"
  to_readable :: "string \<Rightarrow> 's \<Rightarrow> bool"
  to_mkdir :: "string \<Rightarrow> 's \<Rightarrow> 's"
  to_fopen :: "string \<Rightarrow> 's \<Rightarrow> bool \<times> 's"
  to_write :: "string \<Rightarrow> string \<Rightarrow> 's \<Rightarrow> bool \<times> 's"
  to_chmod :: "string \<Rightarrow> nat \<Rightarrow> 's \<Rightarrow> 's"
  to_hostname :: "'s \<Rightarrow> string option"
  to_ifaddrs :: "'s \<Rightarrow> ifaddr list option"

definition ensure_parent_dir :: "('k, 's) tls_ops \<Rightarrow> string \<Rightarrow> 's \<Rightarrow> 's" where
  "ensure_parent_dir t path s = foldl (\<lambda>s d. to_mkdir t d s) s (parent_dirs path)"

definition make_cert :: "('k, 's) tls_ops \<Rightarrow> string \<Rightarrow> 'k \<Rightarrow> 's \<Rightarrow> 'k cert" where
  "make_cert t cn k s =
     (let nm = [(''O'', ''NightWatcher''), (''CN'', cn)]; san = build_san_list cn (to_hostname t s) (to_ifaddrs t s)
      in \<lparr>xt_version = 2, xt_serial = 1, xt_not_before = 0, xt_not_after = 60 * 60 * 24 * 365 * 10, xt_pubkey = k,
          xt_subject = nm, xt_issuer = nm, xt_san = (if to_san_ok t san then Some san else None)\<rparr>)"

text \<open>\<^verbatim>\<open>fopen\<close>, the PEM writer and \<^verbatim>\<open>fclose\<close> of one of the two files.\<close>

definition write_pem :: "('k, 's) tls_ops \<Rightarrow> string \<Rightarrow> string \<Rightarrow> string \<Rightarrow> string \<Rightarrow> ('s, unit) db" where
  "write_pem t what failed path text0 s =
     (case to_fopen t path s of
        (False, s') \<Rightarrow> (throw (''cannot open '' @ what @ '' file for writing: '' @ path), s')
      | (True, s') \<Rightarrow>
          (case to_write t path text0 s' of
             (False, s'') \<Rightarrow> (throw failed, s'')
           | (True, s'') \<Rightarrow> (ok (), s'')))"

definition generate_pair :: "('k, 's) tls_ops \<Rightarrow> string \<Rightarrow> string \<Rightarrow> string \<Rightarrow> ('s, string) db" where
  "generate_pair t cert_path key_path cn s =
     (if \<not> to_ctx t s then (throw ''EVP_PKEY_CTX_new_id failed'', s)
      else case to_keygen t 2048 s of
        (None, s') \<Rightarrow> (throw ''RSA key generation failed'', s')
      | (Some k, s') \<Rightarrow>
          if \<not> to_new t s' then (throw ''X509_new failed'', s')
          else if \<not> to_pubkey_ok t k then (throw ''X509_set_pubkey failed'', s')
          else let x = make_cert t cn k s'
               in if \<not> to_sign t x k then (throw ''X509_sign failed'', s')
                  else db_bind (write_pem t ''key'' ''PEM_write_PrivateKey failed'' key_path (to_key_pem t k)) (\<lambda>_ u.
                       db_bind (write_pem t ''cert'' ''PEM_write_X509 failed'' cert_path (to_cert_pem t x)) (\<lambda>_.
                         db_ret (''generated self-signed certificate (CN='' @ cn @ '', SHA-256 '' @
                           hex_fingerprint (to_digest t x) @ '') at '' @ cert_path))
                         (to_chmod t key_path 0x180 u))
                       (ensure_parent_dir t cert_path (ensure_parent_dir t key_path s')))"

text \<open>\<open>Inr\<close> is the result true with \<^verbatim>\<open>info\<close>, \<open>Inl\<close> false with it.\<close>

definition ensure_self_signed_cert :: "('k, 's) tls_ops \<Rightarrow> string \<Rightarrow> string \<Rightarrow> string \<Rightarrow> ('s, string) db" where
  "ensure_self_signed_cert t cert_path key_path common_name s =
     (if to_readable t cert_path s \<and> to_readable t key_path s
      then (ok (''using existing certificate '' @ cert_path), s)
      else generate_pair t cert_path key_path (if common_name = [] then ''nightwatcher'' else common_name) s)"

section \<open>Names and directories\<close>

lemma add_entry_facts: "set (add_entry es e) = insert e (set es)" "distinct es \<Longrightarrow> distinct (add_entry es e)"
  by (auto simp: add_entry_def)

lemma foldl_add_entry:
  "set (foldl add_entry es xs) = set es \<union> set xs" "distinct es \<Longrightarrow> distinct (foldl add_entry es xs)"
  by (induction xs arbitrary: es) (auto simp: add_entry_facts)

lemma set_map_filter: "set (List.map_filter f xs) = {y. \<exists>x\<in>set xs. f x = Some y}"
  by (induction xs) (auto simp: map_filter_simps split: option.splits)

text \<open>
  A disk: files with a mode, directories, and the paths that cannot be written. A file or directory
  is created only in a directory that is there; paths without a slash and those directly below the
  root have one.
\<close>

record disk =
  dk_files :: "string \<Rightarrow> (string \<times> nat) option"
  dk_dirs :: "string list"
  dk_broken :: "string list"

definition has_parent :: "string \<Rightarrow> disk \<Rightarrow> bool" where
  "has_parent p s \<longleftrightarrow>
     (case rfind_chr CHR ''/'' p of None \<Rightarrow> True | Some k \<Rightarrow> k = 0 \<or> substr_n p 0 k \<in> set (dk_dirs s))"

definition disk_mkdir :: "string \<Rightarrow> disk \<Rightarrow> disk" where
  "disk_mkdir d s = (if has_parent d s then s\<lparr>dk_dirs := d # dk_dirs s\<rparr> else s)"

definition disk_fopen :: "string \<Rightarrow> disk \<Rightarrow> bool \<times> disk" where
  "disk_fopen p s =
     (if has_parent p s
      then (True, s\<lparr>dk_files := (dk_files s)(p \<mapsto> ([], case dk_files s p of None \<Rightarrow> 0x1A4 | Some (_, m) \<Rightarrow> m))\<rparr>)
      else (False, s))"

definition disk_write :: "string \<Rightarrow> string \<Rightarrow> disk \<Rightarrow> bool \<times> disk" where
  "disk_write p d s =
     (if p \<in> set (dk_broken s) then (False, s)
      else (True, s\<lparr>dk_files := (dk_files s)(p := map_option (\<lambda>(_, m). (d, m)) (dk_files s p))\<rparr>))"

definition disk_chmod :: "string \<Rightarrow> nat \<Rightarrow> disk \<Rightarrow> disk" where
  "disk_chmod p m s = s\<lparr>dk_files := (dk_files s)(p := map_option (\<lambda>(x, _). (x, m)) (dk_files s p))\<rparr>"

definition on_disk :: "('k, disk) tls_ops \<Rightarrow> ('k, disk) tls_ops" where
  "on_disk t = t\<lparr>to_readable := \<lambda>p s. dk_files s p \<noteq> None, to_mkdir := disk_mkdir, to_fopen := disk_fopen,
     to_write := disk_write, to_chmod := disk_chmod, to_keygen := \<lambda>n s. (fst (to_keygen t n s), s)\<rparr>"

text \<open>What key, certificate and disk rely on; \<open>F s p\<close> is the content and mode of a file.\<close>

locale pair_files =
  fixes t :: "('k, 's) tls_ops" and F :: "'s \<Rightarrow> string \<Rightarrow> (string \<times> nat) option"
  assumes readable: "to_readable t p s \<longleftrightarrow> F s p \<noteq> None"
    and keygen: "to_keygen t n s = (k, s') \<Longrightarrow> F s' = F s"
    and mkdir: "F (to_mkdir t d s) = F s"
    and fopen: "to_fopen t p s = (b, s') \<Longrightarrow> if b then \<exists>m. F s' = (F s)(p \<mapsto> ([], m)) else F s' = F s"
    and written: "to_write t p d s = (b, s') \<Longrightarrow> F s p = Some (x, m) \<Longrightarrow> \<exists>y. F s' = (F s)(p \<mapsto> (y, m)) \<and> (b \<longrightarrow> y = d)"
    and chmod: "F s p = Some (x, m0) \<Longrightarrow> F (to_chmod t p m s) = (F s)(p \<mapsto> (x, m))"
begin

lemma dirs_keep: "F (ensure_parent_dir t p s) = F s"
proof -
  have "F (foldl (\<lambda>s d. to_mkdir t d s) s ds) = F s" for ds by (induction ds arbitrary: s) (simp_all add: mkdir)
  then show ?thesis by (simp add: ensure_parent_dir_def)
qed

lemma write_pem:
  assumes "write_pem t what e p d s = (r, s')"
  shows "case r of Inl _ \<Rightarrow> \<forall>q. q \<noteq> p \<longrightarrow> F s' q = F s q | Inr _ \<Rightarrow> \<exists>m. F s' = (F s)(p \<mapsto> (d, m))"
proof -
  obtain b s1 where o: "to_fopen t p s = (b, s1)" by (metis surj_pair)
  obtain b2 s2 where w: "to_write t p d s1 = (b2, s2)" by (metis surj_pair)
  show ?thesis
  proof (cases b)
    case True
    with fopen [OF o] obtain m where f: "F s1 = (F s)(p \<mapsto> ([], m))" by auto
    then obtain y where y: "F s2 = (F s1)(p \<mapsto> (y, m))" "b2 \<longrightarrow> y = d" using written [OF w, of "[]" m] by auto
    show ?thesis
    proof (cases b2)
      case True
      then have "r = Inr ()" "s' = s2" using assms o w \<open>b\<close> by (simp_all add: write_pem_def)
      then show ?thesis using y f True by auto
    next
      case False
      then have "r = Inl e" "s' = s2" using assms o w \<open>b\<close> by (simp_all add: write_pem_def)
      then show ?thesis using y f by simp
    qed
  next
    case False
    then show ?thesis using fopen [OF o] assms o by (auto simp: write_pem_def split: prod.splits sum.splits)
  qed
qed

lemma generated:
  assumes "generate_pair t cp kp cn s = (r, s')"
  shows "case r of
      Inl _ \<Rightarrow> \<forall>q. q \<noteq> cp \<longrightarrow> q \<noteq> kp \<longrightarrow> F s' q = F s q
    | Inr _ \<Rightarrow> \<exists>k s0 m. to_sign t (make_cert t cn k s0) k \<and>
        F s' = (F s)(kp \<mapsto> (to_key_pem t k, 0x180), cp \<mapsto> (to_cert_pem t (make_cert t cn k s0), m))"
proof (cases "to_ctx t s")
  case True
  obtain ko s1 where g: "to_keygen t 2048 s = (ko, s1)" by (metis surj_pair)
  note f1 = keygen [OF g]
  show ?thesis
  proof (cases ko)
    case None
    then show ?thesis using assms True g f1 by (auto simp: generate_pair_def)
  next
    case (Some k)
    define x where "x = make_cert t cn k s1"
    define s2 where "s2 = ensure_parent_dir t cp (ensure_parent_dir t kp s1)"
    have f2: "F s2 = F s" by (simp add: s2_def dirs_keep f1)
    show ?thesis
    proof (cases "to_new t s1 \<and> to_pubkey_ok t k \<and> to_sign t x k")
      case ready: True
      obtain r3 s3 where w3: "write_pem t ''key'' ''PEM_write_PrivateKey failed'' kp (to_key_pem t k) s2 = (r3, s3)" by (metis surj_pair)
      obtain r4 s5 where w4: "write_pem t ''cert'' ''PEM_write_X509 failed'' cp (to_cert_pem t x) (to_chmod t kp 0x180 s3) = (r4, s5)"
        by (metis surj_pair)
      have run: "(r, s') = (case r3 of Inl e \<Rightarrow> (Inl e, s3) | Inr _ \<Rightarrow> (case r4 of Inl e \<Rightarrow> (Inl e, s5)
          | Inr _ \<Rightarrow> (Inr (''generated self-signed certificate (CN='' @ cn @ '', SHA-256 '' @
              hex_fingerprint (to_digest t x) @ '') at '' @ cp), s5)))"
        using assms True g Some ready w3 w4
        by (auto simp: generate_pair_def Let_def x_def [symmetric] s2_def [symmetric] db_bind_def db_ret_def split: sum.splits)
      show ?thesis
      proof (cases r3)
        case Inl
        then show ?thesis using write_pem [OF w3] run f2 by auto
      next
        case (Inr u)
        then obtain m where "F s3 = (F s)(kp \<mapsto> (to_key_pem t k, m))" using write_pem [OF w3] f2 by auto
        then have f4: "F (to_chmod t kp 0x180 s3) = (F s)(kp \<mapsto> (to_key_pem t k, 0x180))"
          by (simp add: chmod)
        show ?thesis
        proof (cases r4)
          case Inl
          then show ?thesis using write_pem [OF w4] run Inr f4 by auto
        next
          case (Inr v)
          then obtain m5 where "F s5 = (F s)(kp \<mapsto> (to_key_pem t k, 0x180), cp \<mapsto> (to_cert_pem t x, m5))"
            using write_pem [OF w4] f4 by auto
          then show ?thesis using run \<open>r3 = Inr u\<close> Inr ready by (auto simp: x_def)
        qed
      qed
    next
      case False
      then show ?thesis using assms True g Some f1 by (auto simp: generate_pair_def Let_def x_def split: if_splits)
    qed
  qed
qed (use assms in \<open>auto simp: generate_pair_def\<close>)

end

interpretation disk: pair_files "on_disk t" dk_files for t
proof unfold_locales
  fix p n s k d s' b x m m0
  show "to_readable (on_disk t) p s \<longleftrightarrow> dk_files s p \<noteq> None" by (simp add: on_disk_def)
  show "dk_files (to_mkdir (on_disk t) d s) = dk_files s" by (simp add: on_disk_def disk_mkdir_def)
  show "to_keygen (on_disk t) n s = (k, s') \<Longrightarrow> dk_files s' = dk_files s" by (simp add: on_disk_def)
  show "to_fopen (on_disk t) p s = (b, s') \<Longrightarrow>
      if b then \<exists>m. dk_files s' = (dk_files s)(p \<mapsto> ([], m)) else dk_files s' = dk_files s"
    by (auto simp: on_disk_def disk_fopen_def split: if_splits)
  show "to_write (on_disk t) p d s = (b, s') \<Longrightarrow> dk_files s p = Some (x, m) \<Longrightarrow>
      \<exists>y. dk_files s' = (dk_files s)(p \<mapsto> (y, m)) \<and> (b \<longrightarrow> y = d)"
    using fun_upd_triv [of "dk_files s" p] by (cases "p \<in> set (dk_broken s)") (auto simp: on_disk_def disk_write_def, metis)
  show "dk_files s p = Some (x, m0) \<Longrightarrow> dk_files (to_chmod (on_disk t) p m s) = (dk_files s)(p \<mapsto> (x, m))"
    by (simp add: on_disk_def disk_chmod_def)
qed

text \<open>The directories that are asked for are there afterwards, each made in one that is there.\<close>

lemma mkdir_prefixes:
  assumes "dir \<noteq> []"
    and "pos = 0 \<or> 0 < pos \<and> pos \<le> length dir \<and> dir ! (pos - 1) = CHR ''/'' \<and>
      (pos = 1 \<or> take (pos - 1) dir \<in> set (dk_dirs s))"
  shows "dir \<in> set (dk_dirs (foldl (\<lambda>s d. disk_mkdir d s) s (dir_prefixes dir pos))) \<and>
    set (dk_dirs s) \<subseteq> set (dk_dirs (foldl (\<lambda>s d. disk_mkdir d s) s (dir_prefixes dir pos)))"
  using assms
proof (induction dir pos arbitrary: s rule: dir_prefixes.induct)
  case (1 dir pos)
  note simps = dir_prefixes.simps [of dir pos]
  have made: "p \<in> set (dk_dirs (disk_mkdir p s)) \<and> set (dk_dirs s) \<subseteq> set (dk_dirs (disk_mkdir p s))"
    if "p = take n dir" "pos \<le> n" "n \<le> length dir" "CHR ''/'' \<notin> set (drop pos p)" for p n
  proof -
    have "has_parent p s"
    proof (cases "pos = 0")
      case True
      then show ?thesis using that rfind_chr_None [of "CHR ''/''" p] by (simp add: has_parent_def)
    next
      case False
      with 1(3) have pos: "0 < pos" "pos \<le> length dir" "dir ! (pos - 1) = CHR ''/''"
        "pos = 1 \<or> take (pos - 1) dir \<in> set (dk_dirs s)" by auto
      have "p = take (pos - 1) p @ p ! (pos - 1) # drop (Suc (pos - 1)) p"
        using that pos by (intro id_take_nth_drop) simp
      moreover have "take (pos - 1) p = take (pos - 1) dir" "p ! (pos - 1) = CHR ''/''" "Suc (pos - 1) = pos"
        using that pos by auto
      ultimately have "p = take (pos - 1) dir @ CHR ''/'' # drop pos p" by simp
      then have "rfind_chr CHR ''/'' p = Some (length (take (pos - 1) dir))"
        using rfind_chr_append that(4) by metis
      then show ?thesis using pos \<open>take (pos - 1) p = take (pos - 1) dir\<close> by (auto simp: has_parent_def substr_n_def min_def)
    qed
    then show ?thesis by (auto simp: disk_mkdir_def)
  qed
  have le: "\<not> length dir < pos" using 1(3) by auto
  show ?case
  proof (cases "find_chr_from CHR ''/'' dir pos")
    case None
    then have "CHR ''/'' \<notin> set (drop pos dir)" by (simp add: find_chr_from_def find_chr_None_iff)
    then show ?thesis using made [of dir "length dir"] None le 1(2) by (simp add: simps)
  next
    case (Some k)
    then obtain j where j: "find_chr CHR ''/'' (drop pos dir) = Some j" "k = pos + j" by (auto simp: find_chr_from_def)
    then have k: "k < length dir" "dir ! k = CHR ''/''" "CHR ''/'' \<notin> set (drop pos (take k dir))"
      using le by (auto simp: find_chr_Some_iff take_drop add.commute)
    define s1 where "s1 = (if take k dir = [] then s else disk_mkdir (take k dir) s)"
    have m: "set (dk_dirs s) \<subseteq> set (dk_dirs s1)" "take k dir = [] \<or> take k dir \<in> set (dk_dirs s1)"
      using made [of "take k dir" k] j(2) k by (auto simp: s1_def)
    have "k + 1 = 1 \<or> take (k + 1 - 1) dir \<in> set (dk_dirs s1)" using m(2) k(1) by auto
    then have "dir \<in> set (dk_dirs (foldl (\<lambda>s d. disk_mkdir d s) s1 (dir_prefixes dir (k + 1)))) \<and>
        set (dk_dirs s1) \<subseteq> set (dk_dirs (foldl (\<lambda>s d. disk_mkdir d s) s1 (dir_prefixes dir (k + 1))))"
      using k by (intro 1(1) [OF le Some 1(2)]) auto
    moreover have "foldl (\<lambda>s d. disk_mkdir d s) s (dir_prefixes dir pos) =
        foldl (\<lambda>s d. disk_mkdir d s) s1 (dir_prefixes dir (k + 1))"
      using le by (simp add: simps Some s1_def substr_n_def)
    ultimately show ?thesis using m(1) by auto
  qed
qed

lemma parent_dir_there: "has_parent p (ensure_parent_dir (on_disk t) p s)"
proof (cases "rfind_chr CHR ''/'' p")
  case (Some k)
  show ?thesis
  proof (cases "k = 0")
    case False
    have "k < length p" using Some by (auto simp: rfind_chr_def find_chr_Some_iff)
    then have "substr_n p 0 k \<noteq> []" using False by (auto simp: substr_n_def)
    then show ?thesis
      using mkdir_prefixes [of "substr_n p 0 k" 0 s] Some False
      by (simp add: has_parent_def ensure_parent_dir_def parent_dirs_def on_disk_def)
  qed (simp add: has_parent_def Some)
qed (simp add: has_parent_def)

lemma disk_mkdir_grows: "set (dk_dirs s) \<subseteq> set (dk_dirs (disk_mkdir d s)) \<and> dk_broken (disk_mkdir d s) = dk_broken s"
  by (auto simp: disk_mkdir_def)

lemma dirs_grow:
  "set (dk_dirs s) \<subseteq> set (dk_dirs (ensure_parent_dir (on_disk t) p s)) \<and> dk_broken (ensure_parent_dir (on_disk t) p s) = dk_broken s"
proof -
  have "set (dk_dirs s) \<subseteq> set (dk_dirs (foldl (\<lambda>s d. disk_mkdir d s) s ds)) \<and> dk_broken (foldl (\<lambda>s d. disk_mkdir d s) s ds) = dk_broken s" for ds
  proof (induction ds arbitrary: s)
    case (Cons d ds)
    then show ?case using Cons.IH [of "disk_mkdir d s"] disk_mkdir_grows [of s d] by auto
  qed simp
  then show ?thesis by (simp add: ensure_parent_dir_def on_disk_def)
qed

lemma has_parent_mono: "has_parent p s \<Longrightarrow> set (dk_dirs s) \<subseteq> set (dk_dirs s') \<Longrightarrow> has_parent p s'"
  by (auto simp: has_parent_def split: option.splits)

definition openssl_works :: "('k, 's) tls_ops \<Rightarrow> bool" where
  "openssl_works t \<longleftrightarrow> (\<forall>s. to_ctx t s \<and> fst (to_keygen t 2048 s) \<noteq> None \<and> to_new t s) \<and>
     (\<forall>k. to_pubkey_ok t k) \<and> (\<forall>x k. to_sign t x k)"

lemma disk_dirs:
  "dk_dirs (disk_chmod p m s) = dk_dirs s" "disk_fopen p s = (b, s') \<Longrightarrow> dk_dirs s' = dk_dirs s \<and> dk_broken s' = dk_broken s \<and> b = has_parent p s"
  "disk_write p d s = (b, s') \<Longrightarrow> dk_dirs s' = dk_dirs s \<and> dk_broken s' = dk_broken s \<and> b = (p \<notin> set (dk_broken s))"
  "dk_broken (disk_chmod p m s) = dk_broken s"
  by (auto simp: disk_chmod_def disk_fopen_def disk_write_def split: if_splits)

lemma disk_write_pem:
  assumes "has_parent p s" and "dk_broken s = []" and "write_pem (on_disk t) what e p d s = (r, s')"
  shows "r = Inr () \<and> dk_dirs s' = dk_dirs s \<and> dk_broken s' = []"
proof -
  obtain b s1 where o: "disk_fopen p s = (b, s1)" by (metis surj_pair)
  obtain b2 s2 where w: "disk_write p d s1 = (b2, s2)" by (metis surj_pair)
  show ?thesis using assms(3) disk_dirs(2) [OF o] disk_dirs(3) [OF w] assms(1,2)
    by (simp add: write_pem_def on_disk_def o w)
qed

lemma generates_on_disk:
  assumes "openssl_works t" and "dk_broken s = []"
  shows "is_ok (fst (generate_pair (on_disk t) cp kp cn s))"
proof -
  have t: "to_ctx (on_disk t) s" "to_new (on_disk t) s" "to_pubkey_ok (on_disk t) k" "to_sign (on_disk t) x k" for x k
    using assms(1) by (simp_all add: openssl_works_def on_disk_def)
  obtain k where g: "to_keygen (on_disk t) 2048 s = (Some k, s)" using assms(1) unfolding openssl_works_def on_disk_def by fastforce
  define s1 where "s1 = ensure_parent_dir (on_disk t) cp (ensure_parent_dir (on_disk t) kp s)"
  have k1: "has_parent kp s1"
    unfolding s1_def using parent_dir_there dirs_grow by (rule has_parent_mono [OF _ conjunct1])
  have c1: "has_parent cp s1" unfolding s1_def by (rule parent_dir_there)
  have b1: "dk_broken s1 = []" unfolding s1_def using dirs_grow assms(2) by metis
  define x where "x = make_cert (on_disk t) cn k s"
  obtain r2 s2 where w2: "write_pem (on_disk t) ''key'' ''PEM_write_PrivateKey failed'' kp (to_key_pem (on_disk t) k) s1 = (r2, s2)"
    by (metis surj_pair)
  note d2 = disk_write_pem [OF k1 b1 w2]
  define s3 where "s3 = to_chmod (on_disk t) kp 0x180 s2"
  have "dk_dirs s3 = dk_dirs s2" "dk_broken s3 = dk_broken s2" by (simp_all add: s3_def on_disk_def disk_dirs)
  then have c3: "has_parent cp s3" and b3: "dk_broken s3 = []" using d2 c1 by (simp_all add: has_parent_def split: option.splits)
  obtain r4 s4 where w4: "write_pem (on_disk t) ''cert'' ''PEM_write_X509 failed'' cp (to_cert_pem (on_disk t) x) s3 = (r4, s4)"
    by (metis surj_pair)
  note d4 = disk_write_pem [OF c3 b3 w4]
  show ?thesis
    using d2 d4 by (simp add: generate_pair_def t g Let_def s1_def [symmetric] x_def [symmetric] db_bind_def w2 s3_def [symmetric] w4 db_ret_def)
qed

lemma made_names:
  assumes "xt_san (make_cert t cn k s) = Some san"
  shows "\<exists>es. san = join '','' es \<and> distinct es \<and> {''DNS:localhost'', ''IP:127.0.0.1''} \<subseteq> set es \<and> (cn \<noteq> [] \<longrightarrow> ''DNS:'' @ cn \<in> set es)"
proof (intro exI conjI)
  show "san = join '','' (san_entries cn (to_hostname t s) (to_ifaddrs t s))"
    using assms by (simp add: make_cert_def Let_def build_san_list_def split: if_splits)
  show "distinct (san_entries cn (to_hostname t s) (to_ifaddrs t s))"
    unfolding san_entries_def by (rule foldl_add_entry(2)) simp
  show "{''DNS:localhost'', ''IP:127.0.0.1''} \<subseteq> set (san_entries cn (to_hostname t s) (to_ifaddrs t s))"
    unfolding san_entries_def foldl_add_entry(1) by simp
  show "cn \<noteq> [] \<longrightarrow> ''DNS:'' @ cn \<in> set (san_entries cn (to_hostname t s) (to_ifaddrs t s))"
    unfolding san_entries_def foldl_add_entry(1) by auto
qed

definition names_host :: "'k cert \<Rightarrow> string \<Rightarrow> bool" where
  "names_host x cn \<longleftrightarrow> xt_issuer x = xt_subject x \<and> (''CN'', cn) \<in> set (xt_subject x) \<and>
     (\<forall>san. xt_san x = Some san \<longrightarrow> (\<exists>es. san = join '','' es \<and> distinct es \<and>
        {''DNS:localhost'', ''IP:127.0.0.1'', ''DNS:'' @ cn} \<subseteq> set es))"

lemma made_names_host: "cn \<noteq> [] \<Longrightarrow> names_host (make_cert t cn k s) cn \<and> xt_pubkey (make_cert t cn k s) = k"
  using made_names [of t cn k s] unfolding names_host_def by (fastforce simp: make_cert_def Let_def)

lemma on_disk_keeps: "to_key_pem (on_disk t) = to_key_pem t" "to_cert_pem (on_disk t) = to_cert_pem t" "to_sign (on_disk t) = to_sign t"
  by (simp_all add: on_disk_def)

text \<open>
  C19. The certificate set-up leaves an existing pair alone. Otherwise it either fails and changes no
  file but the two, or it leaves a key only its owner can read and a certificate signed with that
  key, with the requested common name (which is also an alternative name, beside the local ones);
  it succeeds when OpenSSL works and the files can be written, whatever directories are missing.
\<close>

theorem cert_setup_leaves_pair:
  assumes "cp \<noteq> kp" and "cn \<noteq> []" and run: "ensure_self_signed_cert (on_disk t) cp kp cn s = (r, s')"
  shows "if dk_files s cp \<noteq> None \<and> dk_files s kp \<noteq> None then is_ok r \<and> s' = s
    else (if is_ok r
          then \<exists>x m. dk_files s' cp = Some (to_cert_pem t x, m) \<and> names_host x cn \<and> to_sign t x (xt_pubkey x) \<and>
            dk_files s' kp = Some (to_key_pem t (xt_pubkey x), 0x180)
          else \<not> (openssl_works t \<and> dk_broken s = [])) \<and>
      (\<forall>q. q \<notin> {cp, kp} \<longrightarrow> dk_files s' q = dk_files s q)"
proof (cases "dk_files s cp \<noteq> None \<and> dk_files s kp \<noteq> None")
  case True
  then show ?thesis using run by (auto simp: ensure_self_signed_cert_def disk.readable)
next
  case False
  then have g: "generate_pair (on_disk t) cp kp cn s = (r, s')"
    using run assms(2) unfolding ensure_self_signed_cert_def disk.readable by (simp only: if_False)
  then have ready: "openssl_works t \<Longrightarrow> dk_broken s = [] \<Longrightarrow> is_ok r"
    using generates_on_disk [of t s cp kp cn] by simp
  show ?thesis
  proof (cases r)
    case (Inl e)
    then show ?thesis using disk.generated [OF g] ready False by auto
  next
    case (Inr i)
    define y where "y k s0 = make_cert (on_disk t) cn k s0" for k s0
    from Inr obtain k s0 m where "to_sign t (y k s0) k"
      and "dk_files s' = (dk_files s)(kp \<mapsto> (to_key_pem t k, 0x180), cp \<mapsto> (to_cert_pem t (y k s0), m))"
      using disk.generated [OF g] unfolding y_def on_disk_keeps by auto
    then have "\<exists>x m. dk_files s' cp = Some (to_cert_pem t x, m) \<and> names_host x cn \<and> to_sign t x (xt_pubkey x) \<and>
            dk_files s' kp = Some (to_key_pem t (xt_pubkey x), 0x180)"
      using assms(1) by (intro exI [of _ "y k s0"] exI [of _ m]) (simp add: y_def made_names_host [OF assms(2)])
    then show ?thesis using Inr False disk.generated [OF g] by auto
  qed
qed

definition demo_tls :: "(nat, 's) tls_ops" where
  "demo_tls = \<lparr>to_ctx = \<lambda>_. True, to_keygen = \<lambda>n s. (Some 7, s), to_new = \<lambda>_. True, to_pubkey_ok = \<lambda>_. True, to_san_ok = \<lambda>_. True,
     to_sign = \<lambda>_ _. True, to_key_pem = (\<lambda>k. ''KEY '' @ show_nat k), to_cert_pem = (\<lambda>x. ''CERT '' @ show_nat (xt_pubkey x)),
     to_digest = \<lambda>_. Some [0xAB, 1], to_readable = \<lambda>_ _. False, to_mkdir = \<lambda>_ s. s, to_fopen = \<lambda>_ s. (False, s),
     to_write = \<lambda>_ _ s. (False, s), to_chmod = \<lambda>_ _ s. s, to_hostname = \<lambda>_. Some ''sky'', to_ifaddrs = \<lambda>_. None\<rparr>"

definition empty_disk :: disk where "empty_disk = \<lparr>dk_files = (\<lambda>_. None), dk_dirs = [], dk_broken = []\<rparr>"

theorem cert_setup_leaves_pair_witness:
  "\<exists>r s'. ensure_self_signed_cert (on_disk demo_tls) ''tls/c.pem'' ''tls/k.pem'' ''sky'' empty_disk = (r, s') \<and> is_ok r \<and>
     (\<exists>x m. dk_files s' ''tls/c.pem'' = Some (to_cert_pem (demo_tls :: (nat, disk) tls_ops) x, m) \<and> names_host x ''sky'' \<and>
        dk_files s' ''tls/k.pem'' = Some (to_key_pem (demo_tls :: (nat, disk) tls_ops) (xt_pubkey x), 0x180))"
proof -
  obtain r s' where run: "ensure_self_signed_cert (on_disk demo_tls) ''tls/c.pem'' ''tls/k.pem'' ''sky'' empty_disk = (r, s')"
    by (metis surj_pair)
  have "openssl_works (demo_tls :: (nat, disk) tls_ops)" by (simp add: openssl_works_def demo_tls_def)
  then show ?thesis using cert_setup_leaves_pair [OF _ _ run] run by (auto simp: empty_disk_def split: if_splits)
qed

end
