(* ===== verification/NW_Main.thy ===== *)
theory NW_Main imports NW_Sched NW_ApiMore NW_Config NW_Tls NW_Store begin

text \<open>
  The daemon itself (\<^verbatim>\<open>src/daemon/main.cpp\<close>): the command line, the start-up sequence, the API server
  it runs with its retries and its fallback, and the loop that waits for signals. What the workers
  and the API requests do to the world between two signals is part of the input of a run.
\<close>

section \<open>Command line\<close>

datatype cmdline = Leave int | Configured string

datatype main_arg = ShowVersion | ShowHelp | ConfigFlag | UnknownArg

definition main_arg :: "string \<Rightarrow> main_arg" where
  "main_arg a =
     (if a = ''-v'' \<or> a = ''--version'' then ShowVersion
      else if a = ''-h'' \<or> a = ''--help'' then ShowHelp
      else if a = ''-c'' \<or> a = ''--config'' then ConfigFlag
      else UnknownArg)"

fun scan_args :: "string list \<Rightarrow> string \<Rightarrow> cmdline" where
  "scan_args [] path = (if path = [] then Leave 2 else Configured path)"
| "scan_args (a # r) path =
     (case main_arg a of
        ShowVersion \<Rightarrow> Leave 0
      | ShowHelp \<Rightarrow> Leave 0
      | ConfigFlag \<Rightarrow> (case r of [] \<Rightarrow> Leave 2 | p # r' \<Rightarrow> scan_args r' p)
      | UnknownArg \<Rightarrow> Leave 2)"

section \<open>The surroundings of the daemon\<close>

text \<open>The configuration of an \<^verbatim>\<open>HttpServer\<close>; its two callbacks raise SIGUSR1 and SIGHUP.\<close>

record ApiConfig =
  ac_bind :: string
  ac_port :: int
  ac_token :: string
  ac_schema_file :: string
  ac_web_root :: string
  ac_tls_cert :: string
  ac_tls_key :: string
  ac_db :: DbConfig
  ac_require_auth_reads :: bool

text \<open>What the three schedulers were started with.\<close>

record workers =
  wk_sensors :: "SensorRow list"
  wk_stations :: "WeatherStationRow list"
  wk_exports :: "ExportTargetRow list"

text \<open>
  The process environment, files, the database connection of a configuration, OpenSSL, the listening
  socket (\<^verbatim>\<open>SSLServer::is_valid\<close>, \<^verbatim>\<open>bind_to_port\<close>, closing it), sleeping, and what workers that were
  asked to stop still do until they are joined.
\<close>

record ('k, 's) daemon_env =
  dn_version :: string
  dn_getenv :: "string \<Rightarrow> string option"
  dn_file :: "string \<Rightarrow> 's \<Rightarrow> string option"
  dn_open :: "DbConfig \<Rightarrow> ('s, unit) db"
  dn_conn :: "DbConfig \<Rightarrow> 's conn"
  dn_tls :: "('k, 's) tls_ops"
  dn_ssl_valid :: "string \<Rightarrow> string \<Rightarrow> 's \<Rightarrow> bool"
  dn_listen :: "string \<Rightarrow> int \<Rightarrow> 's \<Rightarrow> bool \<times> 's"
  dn_close :: "ApiConfig \<Rightarrow> 's \<Rightarrow> 's"
  dn_sleep :: "int \<Rightarrow> 's \<Rightarrow> 's"
  dn_rand :: "nat \<Rightarrow> 's \<Rightarrow> byte list option \<times> 's"
  dn_kdf :: kdf
  dn_join :: "workers \<Rightarrow> 's \<Rightarrow> 's"

definition make_db_config :: "(string \<Rightarrow> string option) \<Rightarrow> Config \<Rightarrow> DbConfig" where
  "make_db_config env cfg =
     \<lparr>dbc_host = cfg_db_host cfg, dbc_port = to_u16 (cfg_db_port cfg), dbc_user = cfg_db_user cfg,
      dbc_password = (case env ''NW_DB_PASSWORD'' of None \<Rightarrow> [] | Some p \<Rightarrow> p), dbc_database = cfg_db_name cfg\<rparr>"

definition opened :: "('k, 's) daemon_env \<Rightarrow> DbConfig \<Rightarrow> ('s conn \<Rightarrow> ('s, 'a) db) \<Rightarrow> ('s, 'a) db" where
  "opened e dbc m = db_bind (dn_open e dbc) (\<lambda>_. m (dn_conn e dbc))"

text \<open>A \<^verbatim>\<open>try\<close> whose \<^verbatim>\<open>catch\<close> only logs.\<close>

definition best_effort :: "('s, unit) db \<Rightarrow> 's \<Rightarrow> 's" where
  "best_effort m s = snd (m s)"

section \<open>Start-up\<close>

definition ensure_schema :: "('k, 's) daemon_env \<Rightarrow> Config \<Rightarrow> DbConfig \<Rightarrow> 's \<Rightarrow> 's" where
  "ensure_schema e cfg dbc s =
     (if cfg_schema_file cfg = [] then s
      else case dn_file e (cfg_schema_file cfg) s of
          None \<Rightarrow> s
        | Some sql \<Rightarrow> best_effort (opened e dbc (\<lambda>c. run_schema_script c sql)) s)"

definition record_started :: "('k, 's) daemon_env \<Rightarrow> DbConfig \<Rightarrow> ('s, unit) db" where
  "record_started e dbc =
     opened e dbc (\<lambda>c. insert_event c ''daemon'' ''info'' ''started'' (''nightwatcherd '' @ dn_version e) [])"

definition first_hash :: "('k, 's) daemon_env \<Rightarrow> ('s, string) db" where
  "first_hash e s = (case dn_rand e kSaltLen s of (r, s') \<Rightarrow> (hash_password (dn_kdf e) r ''admin'', s'))"

definition seed_admin :: "('k, 's) daemon_env \<Rightarrow> 's conn \<Rightarrow> ('s, unit) db" where
  "seed_admin e c =
     db_bind (count_users c) (\<lambda>n.
       if n = 0 then db_bind (first_hash e) (\<lambda>h. create_user c ''admin'' h ''admin'' True) else db_ret ())"

section \<open>The API server\<close>

record api_settings =
  as_bind :: string
  as_port :: int
  as_tls :: bool

definition set_port :: "string option \<Rightarrow> api_settings \<Rightarrow> api_settings" where
  "set_port v st =
     (case v of
        None \<Rightarrow> st
      | Some x \<Rightarrow> if x \<noteq> [] \<and> 0 < atoi x \<and> atoi x < 65536 then st\<lparr>as_port := atoi x\<rparr> else st)"

text \<open>The three stored settings over those of the file; an exception ends the reading where it is.\<close>

definition effective_settings :: "('k, 's) daemon_env \<Rightarrow> Config \<Rightarrow> DbConfig \<Rightarrow> 's \<Rightarrow> api_settings \<times> 's" where
  "effective_settings e cfg dbc s =
     (let st = \<lparr>as_bind = cfg_api_bind cfg, as_port = cfg_api_port cfg, as_tls = cfg_api_tls cfg\<rparr>; c = dn_conn e dbc
      in case dn_open e dbc s of
        (Inl _, s1) \<Rightarrow> (st, s1)
      | (Inr _, s1) \<Rightarrow>
          (case get_setting c ''api_bind'' s1 of
             (Inl _, s2) \<Rightarrow> (st, s2)
           | (Inr b, s2) \<Rightarrow>
               (let st1 = st\<lparr>as_bind := nonempty_or (as_bind st) (\<lambda>x. x) b\<rparr>
                in case get_setting c ''api_port'' s2 of
                  (Inl _, s3) \<Rightarrow> (st1, s3)
                | (Inr p, s3) \<Rightarrow>
                    (let st2 = set_port p st1
                     in case get_setting c ''api_tls'' s3 of
                       (Inl _, s4) \<Rightarrow> (st2, s4)
                     | (Inr t, s4) \<Rightarrow> (case t of None \<Rightarrow> st2 | Some v \<Rightarrow> st2\<lparr>as_tls := (v = ''on'')\<rparr>, s4)))))"

text \<open>Certificate and key of the listener; plain HTTP when the set-up fails.\<close>

definition tls_material :: "('k, 's) daemon_env \<Rightarrow> Config \<Rightarrow> bool \<Rightarrow> 's \<Rightarrow> (string \<times> string) \<times> 's" where
  "tls_material e cfg tls s =
     (if \<not> tls then (([], []), s)
      else let hn = (case to_hostname (dn_tls e) s of None \<Rightarrow> [] | Some h \<Rightarrow> h)
           in case ensure_self_signed_cert (dn_tls e) (cfg_api_tls_cert cfg) (cfg_api_tls_key cfg)
                     (if hn = [] then ''nightwatcher'' else hn) s of
             (Inl _, s') \<Rightarrow> (([], []), s')
           | (Inr _, s') \<Rightarrow> ((cfg_api_tls_cert cfg, cfg_api_tls_key cfg), s'))"

definition loopback :: "string set" where
  "loopback = {''127.0.0.1'', ''localhost'', ''::1''}"

definition make_api :: "('k, 's) daemon_env \<Rightarrow> Config \<Rightarrow> DbConfig \<Rightarrow> int \<Rightarrow> string \<times> string \<Rightarrow> string \<Rightarrow> ApiConfig" where
  "make_api e cfg dbc port material b =
     \<lparr>ac_bind = b, ac_port = port, ac_token = (case dn_getenv e ''NW_API_TOKEN'' of None \<Rightarrow> [] | Some t \<Rightarrow> t),
      ac_schema_file = cfg_schema_file cfg, ac_web_root = cfg_web_root cfg, ac_tls_cert = fst material,
      ac_tls_key = snd material, ac_db = dbc, ac_require_auth_reads = (b \<notin> loopback)\<rparr>"

definition run_tls :: "ApiConfig \<Rightarrow> bool" where
  "run_tls ac \<longleftrightarrow> ac_tls_cert ac \<noteq> [] \<and> ac_tls_key ac \<noteq> []"

text \<open>\<^verbatim>\<open>HttpServer::start\<close>, apart from the routes.\<close>

definition bind_api :: "('k, 's) daemon_env \<Rightarrow> ApiConfig \<Rightarrow> ('s, unit) db" where
  "bind_api e ac s =
     (case dn_listen e (ac_bind ac) (ac_port ac) s of
        (True, s') \<Rightarrow> (ok (), s')
      | (False, s') \<Rightarrow> (throw (''cannot bind API to '' @ ac_bind ac @ '':'' @ show_int (ac_port ac)), s'))"

definition server_start :: "('k, 's) daemon_env \<Rightarrow> ApiConfig \<Rightarrow> ('s, unit) db" where
  "server_start e ac s =
     (if run_tls ac \<and> \<not> dn_ssl_valid e (ac_tls_cert ac) (ac_tls_key ac) s
      then (throw (''TLS certificate/key invalid or unreadable ('' @ ac_tls_cert ac @ '', '' @ ac_tls_key ac @ '')''), s)
      else bind_api e ac s)"

fun try_start :: "nat \<Rightarrow> ('k, 's) daemon_env \<Rightarrow> ApiConfig \<Rightarrow> 's \<Rightarrow> ApiConfig option \<times> 's" where
  "try_start 0 e ac s = (None, s)"
| "try_start (Suc n) e ac s =
     (case server_start e ac s of
        (Inr _, s') \<Rightarrow> (Some ac, s')
      | (Inl _, s') \<Rightarrow> try_start n e ac (dn_sleep e 300 s'))"

definition start_api_server :: "('k, 's) daemon_env \<Rightarrow> Config \<Rightarrow> DbConfig \<Rightarrow> ApiConfig option \<Rightarrow> 's \<Rightarrow> ApiConfig option \<times> 's" where
  "start_api_server e cfg dbc running s =
     (let s0 = (case running of None \<Rightarrow> s | Some ac \<Rightarrow> dn_close e ac s)
      in if cfg_api_port cfg \<le> 0 then (None, s0)
         else case effective_settings e cfg dbc s0 of (st, s1) \<Rightarrow>
           case tls_material e cfg (as_tls st) s1 of (material, s2) \<Rightarrow>
             case try_start 10 e (make_api e cfg dbc (as_port st) material (as_bind st)) s2 of
               (Some ac, s3) \<Rightarrow> (Some ac, s3)
             | (None, s3) \<Rightarrow>
                 if as_bind st = ''127.0.0.1'' \<or> as_bind st = ''localhost'' then (None, s3)
                 else let ac = make_api e cfg dbc (as_port st) material ''127.0.0.1''
                      in case server_start e ac s3 of (Inr _, s4) \<Rightarrow> (Some ac, s4) | (Inl _, s4) \<Rightarrow> (None, s4))"

section \<open>Polling and signals\<close>

text \<open>\<open>dm_exit\<close> is the exit code once the process has ended.\<close>

record 's daemon =
  dm_api :: "ApiConfig option"
  dm_workers :: "workers option"
  dm_exit :: "int option"
  dm_world :: 's

datatype signal = SigInt | SigTerm | SigHup | SigUsr1 | WaitFailed

definition read_devices :: "('k, 's) daemon_env \<Rightarrow> DbConfig \<Rightarrow> ('s, workers) db" where
  "read_devices e dbc = opened e dbc (\<lambda>c.
     db_bind (active_sensors c) (\<lambda>sns.
     db_bind (active_weather_stations c) (\<lambda>wss.
     db_map (\<lambda>ts. \<lparr>wk_sensors = scheduler_start sns, wk_stations = weather_start wss, wk_exports = export_start ts\<rparr>)
       (active_export_targets c))))"

text \<open>The end of \<^verbatim>\<open>main\<close>: the server is stopped and the stop recorded, best effort.\<close>

definition shut_down :: "('k, 's) daemon_env \<Rightarrow> DbConfig \<Rightarrow> int \<Rightarrow> 's daemon \<Rightarrow> 's daemon" where
  "shut_down e dbc status d =
     (let s = (case dm_api d of None \<Rightarrow> dm_world d | Some ac \<Rightarrow> dn_close e ac (dm_world d))
      in \<lparr>dm_api = None, dm_workers = None, dm_exit = Some status,
          dm_world = best_effort (opened e dbc (\<lambda>c. insert_event c ''daemon'' ''info'' ''stopped'' [] [])) s\<rparr>)"

text \<open>The head of the polling loop.\<close>

definition begin_polling :: "('k, 's) daemon_env \<Rightarrow> DbConfig \<Rightarrow> 's daemon \<Rightarrow> 's daemon" where
  "begin_polling e dbc d =
     (case read_devices e dbc (dm_world d) of
        (Inl _, s) \<Rightarrow> shut_down e dbc 1 (d\<lparr>dm_workers := None, dm_world := s\<rparr>)
      | (Inr w, s) \<Rightarrow> d\<lparr>dm_workers := Some w, dm_world := s\<rparr>)"

definition stop_workers :: "('k, 's) daemon_env \<Rightarrow> 's daemon \<Rightarrow> 's daemon" where
  "stop_workers e d =
     d\<lparr>dm_workers := None, dm_world := (case dm_workers d of None \<Rightarrow> dm_world d | Some w \<Rightarrow> dn_join e w (dm_world d))\<rparr>"

definition on_signal :: "('k, 's) daemon_env \<Rightarrow> Config \<Rightarrow> DbConfig \<Rightarrow> signal \<Rightarrow> 's daemon \<Rightarrow> 's daemon" where
  "on_signal e cfg dbc sig d =
     (case sig of
        SigInt \<Rightarrow> shut_down e dbc 0 (stop_workers e d)
      | SigTerm \<Rightarrow> shut_down e dbc 0 (stop_workers e d)
      | SigHup \<Rightarrow> begin_polling e dbc (stop_workers e d)
      | SigUsr1 \<Rightarrow>
          (case start_api_server e cfg dbc (dm_api d) (dn_sleep e 250 (dm_world d)) of
             (srv, s) \<Rightarrow> d\<lparr>dm_api := srv, dm_world := s\<rparr>)
      | WaitFailed \<Rightarrow> d)"

text \<open>\<^verbatim>\<open>main\<close> up to the first wait for a signal; \<open>Inl\<close> is an exit before that.\<close>

definition daemon_main :: "('k, 's) daemon_env \<Rightarrow> string list \<Rightarrow> 's \<Rightarrow> int + Config \<times> DbConfig \<times> 's daemon" where
  "daemon_main e args s =
     (case scan_args args [] of
        Leave status \<Rightarrow> Inl status
      | Configured path \<Rightarrow>
          (case config_load path (dn_file e path s) of
             Inl _ \<Rightarrow> Inl 1
           | Inr cfg \<Rightarrow>
               (let dbc = make_db_config (dn_getenv e) cfg
                in case record_started e dbc (ensure_schema e cfg dbc s) of
                  (Inl _, _) \<Rightarrow> Inl 1
                | (Inr _, s1) \<Rightarrow>
                    (case start_api_server e cfg dbc None (best_effort (opened e dbc (seed_admin e)) s1) of
                       (srv, s2) \<Rightarrow>
                         Inr (cfg, dbc, begin_polling e dbc \<lparr>dm_api = srv, dm_workers = None, dm_exit = None, dm_world = s2\<rparr>)))))"

text \<open>A run: before each signal the workers and the API requests change the world.\<close>

fun daemon_run :: "('k, 's) daemon_env \<Rightarrow> Config \<Rightarrow> DbConfig \<Rightarrow> (('s \<Rightarrow> 's) \<times> signal) list \<Rightarrow> 's daemon \<Rightarrow> 's daemon" where
  "daemon_run e cfg dbc [] d = d"
| "daemon_run e cfg dbc ((work, sig) # r) d =
     (if dm_exit d \<noteq> None then d
      else daemon_run e cfg dbc r (on_signal e cfg dbc sig (d\<lparr>dm_world := work (dm_world d)\<rparr>)))"

section \<open>Reachable states\<close>

inductive daemon_reach :: "('k, 's) daemon_env \<Rightarrow> Config \<Rightarrow> DbConfig \<Rightarrow> 's daemon \<Rightarrow> 's daemon \<Rightarrow> bool"
  for e cfg dbc d0 where
  start: "daemon_reach e cfg dbc d0 d0"
| working: "daemon_reach e cfg dbc d0 d \<Longrightarrow> dm_exit d = None \<Longrightarrow> daemon_reach e cfg dbc d0 (d\<lparr>dm_world := s\<rparr>)"
| signalled: "daemon_reach e cfg dbc d0 d \<Longrightarrow> dm_exit d = None \<Longrightarrow> daemon_reach e cfg dbc d0 (on_signal e cfg dbc sig d)"

lemma daemon_run_exited: "dm_exit d \<noteq> None \<Longrightarrow> daemon_run e cfg dbc evs d = d"
  by (induction evs) auto

lemma daemon_run_append: "daemon_run e cfg dbc (xs @ ys) d = daemon_run e cfg dbc ys (daemon_run e cfg dbc xs d)"
  by (induction xs arbitrary: d) (auto simp: daemon_run_exited)

lemma daemon_run_reach: "daemon_reach e cfg dbc d0 d \<Longrightarrow> daemon_reach e cfg dbc d0 (daemon_run e cfg dbc evs d)"
proof (induction evs arbitrary: d)
  case (Cons ev evs)
  obtain work sig where ev: "ev = (work, sig)" by (metis surj_pair)
  show ?case
  proof (cases "dm_exit d")
    case None
    have "daemon_reach e cfg dbc d0 (on_signal e cfg dbc sig (d\<lparr>dm_world := work (dm_world d)\<rparr>))"
      using daemon_reach.working [OF Cons.prems None] None by (intro daemon_reach.signalled) simp_all
    then show ?thesis using Cons.IH None by (simp add: ev)
  qed (use Cons.prems in \<open>simp add: ev\<close>)
qed simp

text \<open>The reachable states are the results of the runs.\<close>

lemma daemon_reach_run: "daemon_reach e cfg dbc d0 d \<longleftrightarrow> (\<exists>evs. d = daemon_run e cfg dbc evs d0)"
proof
  assume "daemon_reach e cfg dbc d0 d"
  then show "\<exists>evs. d = daemon_run e cfg dbc evs d0"
  proof induction
    case start
    show ?case by (rule exI [of _ "[]"]) simp
  next
    case (working d s)
    then obtain evs where evs: "d = daemon_run e cfg dbc evs d0" by blast
    have "d\<lparr>dm_world := s\<rparr> = daemon_run e cfg dbc (evs @ [(\<lambda>_. s, WaitFailed)]) d0"
      using working.hyps unfolding daemon_run_append evs [symmetric] by (simp add: on_signal_def)
    then show ?case ..
  next
    case (signalled d sig)
    then obtain evs where evs: "d = daemon_run e cfg dbc evs d0" by blast
    have "on_signal e cfg dbc sig d = daemon_run e cfg dbc (evs @ [(\<lambda>s. s, sig)]) d0"
      using signalled.hyps unfolding daemon_run_append evs [symmetric] by simp
    then show ?case ..
  qed
qed (use daemon_run_reach [OF daemon_reach.start] in blast)

section \<open>The server the daemon runs\<close>

lemma try_start_server: "try_start n e ac s = (Some ac', s') \<Longrightarrow> ac' = ac"
  by (induction n arbitrary: s) (auto split: prod.splits sum.splits)

text \<open>Certificate and key come together, and are those of the configuration.\<close>

definition server_of :: "('k, 's) daemon_env \<Rightarrow> Config \<Rightarrow> DbConfig \<Rightarrow> ApiConfig \<Rightarrow> bool" where
  "server_of e cfg dbc ac \<longleftrightarrow> (\<exists>port material.
     ac = make_api e cfg dbc port material (ac_bind ac) \<and>
     (material = ([], []) \<or> material = (cfg_api_tls_cert cfg, cfg_api_tls_key cfg)))"

lemma start_api_server_of:
  assumes "start_api_server e cfg dbc running s = (Some ac, s')"
  shows "server_of e cfg dbc ac"
proof -
  define s0 where "s0 = (case running of None \<Rightarrow> s | Some ac \<Rightarrow> dn_close e ac s)"
  obtain st s1 where st: "effective_settings e cfg dbc s0 = (st, s1)" by (metis surj_pair)
  obtain material s2 where m: "tls_material e cfg (as_tls st) s1 = (material, s2)" by (metis surj_pair)
  have "material = ([], []) \<or> material = (cfg_api_tls_cert cfg, cfg_api_tls_key cfg)"
    using m by (auto simp: tls_material_def Let_def split: if_splits prod.splits sum.splits)
  moreover have "ac \<in> {make_api e cfg dbc (as_port st) material (as_bind st), make_api e cfg dbc (as_port st) material ''127.0.0.1''}"
    using assms try_start_server
    unfolding start_api_server_def s0_def [symmetric] Let_def st m prod.case
    by (fastforce split: if_splits prod.splits option.splits sum.splits)
  ultimately show ?thesis unfolding server_of_def by (auto simp: make_api_def)
qed

definition daemon_ok :: "('k, 's) daemon_env \<Rightarrow> Config \<Rightarrow> DbConfig \<Rightarrow> 's daemon \<Rightarrow> bool" where
  "daemon_ok e cfg dbc d \<longleftrightarrow>
     (case dm_exit d of
        None \<Rightarrow> dm_workers d \<noteq> None
      | Some status \<Rightarrow> status \<in> {0, 1} \<and> dm_api d = None \<and> dm_workers d = None) \<and>
     (\<forall>ac. dm_api d = Some ac \<longrightarrow> server_of e cfg dbc ac)"

lemma begin_polling_ok:
  "(\<And>ac. dm_api d = Some ac \<Longrightarrow> server_of e cfg dbc ac) \<Longrightarrow> dm_exit d = None \<Longrightarrow> daemon_ok e cfg dbc (begin_polling e dbc d)"
  by (auto simp: begin_polling_def daemon_ok_def shut_down_def Let_def split: prod.splits sum.splits)

lemma on_signal_ok:
  assumes "daemon_ok e cfg dbc d" and "dm_exit d = None"
  shows "daemon_ok e cfg dbc (on_signal e cfg dbc sig d)"
proof (cases sig)
  case SigUsr1
  obtain srv s where srv: "start_api_server e cfg dbc (dm_api d) (dn_sleep e 250 (dm_world d)) = (srv, s)" by (metis surj_pair)
  then show ?thesis using assms start_api_server_of SigUsr1 by (cases srv) (auto simp: on_signal_def daemon_ok_def)
next
  case SigHup
  then show ?thesis using assms begin_polling_ok [of "stop_workers e d" e cfg dbc]
    by (simp add: on_signal_def stop_workers_def daemon_ok_def)
qed (use assms in \<open>auto simp: on_signal_def shut_down_def daemon_ok_def Let_def\<close>)

lemma daemon_main_starts:
  assumes run: "daemon_main e args s = Inr (cfg, dbc, d)"
  obtains s1 srv s2 where "start_api_server e cfg dbc None (best_effort (opened e dbc (seed_admin e)) s1) = (srv, s2)"
    and "d = begin_polling e dbc \<lparr>dm_api = srv, dm_workers = None, dm_exit = None, dm_world = s2\<rparr>"
proof (cases "scan_args args []")
  case (Configured path)
  show thesis
  proof (cases "config_load path (dn_file e path s)")
    case (Inr cfg')
    obtain r s1 where r: "record_started e (make_db_config (dn_getenv e) cfg')
        (ensure_schema e cfg' (make_db_config (dn_getenv e) cfg') s) = (r, s1)" by (metis surj_pair)
    show thesis
    proof (cases r)
      case r': (Inr u)
      obtain srv s2 where srv: "start_api_server e cfg' (make_db_config (dn_getenv e) cfg') None
          (best_effort (opened e (make_db_config (dn_getenv e) cfg') (seed_admin e)) s1) = (srv, s2)" by (metis surj_pair)
      have "cfg = cfg'" "dbc = make_db_config (dn_getenv e) cfg'"
        "d = begin_polling e dbc \<lparr>dm_api = srv, dm_workers = None, dm_exit = None, dm_world = s2\<rparr>"
        using run by (auto simp: daemon_main_def Configured Inr Let_def r r' srv)
      then show thesis using that srv by blast
    qed (use run in \<open>simp add: daemon_main_def Configured Inr Let_def r\<close>)
  qed (use run in \<open>simp add: daemon_main_def Configured\<close>)
qed (use run in \<open>simp add: daemon_main_def\<close>)

lemma daemon_main_ok:
  assumes "daemon_main e args s = Inr (cfg, dbc, d)"
  shows "daemon_ok e cfg dbc d"
proof -
  obtain s1 srv s2 where srv: "start_api_server e cfg dbc None (best_effort (opened e dbc (seed_admin e)) s1) = (srv, s2)"
    and d: "d = begin_polling e dbc \<lparr>dm_api = srv, dm_workers = None, dm_exit = None, dm_world = s2\<rparr>"
    by (rule daemon_main_starts [OF assms])
  show ?thesis unfolding d
  proof (rule begin_polling_ok)
    fix ac
    assume "dm_api \<lparr>dm_api = srv, dm_workers = None, dm_exit = None, dm_world = s2\<rparr> = Some ac"
    then have "srv = Some ac" by simp
    then show "server_of e cfg dbc ac" using start_api_server_of [of e cfg dbc None _ ac s2] srv by metis
  qed simp
qed

lemma daemon_reach_ok:
  assumes "daemon_reach e cfg dbc d0 d" and "daemon_ok e cfg dbc d0"
  shows "daemon_ok e cfg dbc d"
  using assms(1)
proof induction
  case start
  show ?case by (rule assms(2))
next
  case (working d s)
  then show ?case unfolding daemon_ok_def by simp
next
  case (signalled d sig)
  then show ?case by (intro on_signal_ok)
qed

section \<open>What holds of every run\<close>

text \<open>What the handlers of a server capture of its configuration.\<close>

definition server_api :: "('k, 's) daemon_env \<Rightarrow> ApiConfig \<Rightarrow> 's api \<Rightarrow> 's api" where
  "server_api e ac a = a\<lparr>ap_open := dn_open e (ac_db ac), ap_conn := dn_conn e (ac_db ac), ap_version := dn_version e,
     ap_token := ac_token ac, ap_schema_file := ac_schema_file ac, ap_bind := ac_bind ac, ap_port := ac_port ac,
     ap_tls := run_tls ac, ap_gated := ac_require_auth_reads ac, ap_kdf := dn_kdf e, ap_rand := dn_rand e, ap_file := dn_file e\<rparr>"

text \<open>
  C2. However the daemon was started and whatever signals it has handled since, stored settings,
  retries and the fallback address included: a running server that listens on anything but a
  loopback address answers every API request without a valid session or the API token with 401,
  apart from sign-in, sign-out, the caller's own identity, version and health.
\<close>

theorem exposed_daemon_is_gated:
  assumes "daemon_main e args s = Inr (cfg, dbc, d0)" and "daemon_reach e cfg dbc d0 d"
    and "dm_api d = Some ac" and "ac_bind ac \<notin> {''127.0.0.1'', ''localhost'', ''::1''}"
    and "\<not> public_path (rq_path rq)" and "\<not> token_ok (server_api e ac a) rq"
    and "session_info (server_api e ac a) rq w = (Inr None, w')"
  shows "serve (server_api e ac a) rq w = (reply_err 401 ''unauthorized'', w')"
proof -
  have "server_of e cfg dbc ac"
    using daemon_reach_ok [OF assms(2) daemon_main_ok [OF assms(1)]] assms(3) by (simp add: daemon_ok_def)
  then obtain port material where "ac = make_api e cfg dbc port material (ac_bind ac)" by (auto simp: server_of_def)
  then have "ac_require_auth_reads ac = (ac_bind ac \<notin> loopback)" by (metis make_api_def ApiConfig.select_convs(1,9))
  then have "ap_gated (server_api e ac a)" using assms(4) by (simp add: server_api_def loopback_def)
  then show ?thesis using assms(5-7) by (simp add: serve_def handle_def require_auth_def db_bind_def db_ret_def)
qed

lemma quiet_run:
  assumes "dm_exit d = None" and "\<forall>(f, g)\<in>set evs. g = SigUsr1 \<or> g = WaitFailed"
  shows "dm_exit (daemon_run e cfg dbc evs d) = None \<and> dm_workers (daemon_run e cfg dbc evs d) = dm_workers d"
  using assms
proof (induction evs arbitrary: d)
  case (Cons ev evs)
  obtain work sig where ev: "ev = (work, sig)" by (metis surj_pair)
  obtain srv w where "start_api_server e cfg dbc (dm_api d) (dn_sleep e 250 (work (dm_world d))) = (srv, w)" by (metis surj_pair)
  then have "dm_exit (on_signal e cfg dbc sig (d\<lparr>dm_world := work (dm_world d)\<rparr>)) = None \<and>
      dm_workers (on_signal e cfg dbc sig (d\<lparr>dm_world := work (dm_world d)\<rparr>)) = dm_workers d"
    using Cons.prems by (auto simp: ev on_signal_def)
  then show ?case using Cons.IH [of "on_signal e cfg dbc sig (d\<lparr>dm_world := work (dm_world d)\<rparr>)"] Cons.prems by (simp add: ev)
qed simp


section \<open>A daemon on a demonstration disk\<close>

definition demo_reply :: "disk conn" where
  "demo_reply s stmt = (case stmt of Select cols _ _ _ _ \<Rightarrow> (Rows cols [], s) | _ \<Rightarrow> (Done 1 1, s))"

definition demo_env :: "(string \<Rightarrow> bool) \<Rightarrow> (nat, disk) daemon_env" where
  "demo_env can_bind = \<lparr>dn_version = ''0.1.2'', dn_getenv = (\<lambda>_. None), dn_file = (\<lambda>p s. map_option fst (dk_files s p)),
     dn_open = (\<lambda>_ s. (ok (), s)), dn_conn = (\<lambda>_. demo_reply), dn_tls = on_disk demo_tls, dn_ssl_valid = (\<lambda>_ _ _. True),
     dn_listen = (\<lambda>b _ s. (can_bind b, s)), dn_close = (\<lambda>_ s. s), dn_sleep = (\<lambda>_ s. s),
     dn_rand = (\<lambda>n s. (Some (replicate n 5), s)), dn_kdf = (\<lambda>_ _ _ n. Some (replicate n 7)), dn_join = (\<lambda>_ s. s)\<rparr>"

definition demo_disk :: disk where
  "demo_disk = \<lparr>dk_files = [''nw.conf'' \<mapsto> (''[api]'' @ [CHR 0x0A] @ ''bind = 0.0.0.0'', 0x1A4)], dk_dirs = [], dk_broken = []\<rparr>"

definition started :: "(string \<Rightarrow> bool) \<Rightarrow> Config \<times> DbConfig \<times> disk daemon" where
  "started can_bind = projr (daemon_main (demo_env can_bind) [''-c'', ''nw.conf''] demo_disk)"

lemma demo_starts:
  "\<not> isl (daemon_main (demo_env (\<lambda>_. True)) [''-c'', ''nw.conf''] demo_disk)"
  "map_option ac_bind (dm_api (snd (snd (started (\<lambda>_. True))))) = Some ''0.0.0.0''"
  "dm_exit (snd (snd (started (\<lambda>_. True)))) = None"
  by code_simp+

lemma demo_falls_back:
  "map_option ac_bind (dm_api (snd (snd (started (\<lambda>b. b = ''127.0.0.1''))))) = Some ''127.0.0.1''"
  by code_simp

lemma store_count_users:
  "count_users store_conn db = (Inr n, db') \<Longrightarrow> db' = db \<and> (n = 0 \<longleftrightarrow> store_users db = [])"
proof -
  have "atoll (show_nat k) = clamp64 (int k)" for k
    using strtol10_digits [of "show_nat k"] show_nat_digits [of k] by (simp add: atoll_def all_digits_def)
  then have z: "atoll (show_nat k) = 0 \<longleftrightarrow> k = 0" for k by (simp add: clamp64_def i64_min_def i64_max_def min_def)
  assume "count_users store_conn db = (Inr n, db')"
  then have "db' = db \<and> n = atoll (show_nat (length (filter (keyed ''users'') (db_rows db ''users''))))"
    by (auto simp: count_users_def db_map_def select_def fetch_def exec_def store_select db_bind_def db_ret_def select_rows_def
        users_table all_hold_def ll_cell_def cell_def)
  then show ?thesis using z by (auto simp: store_users_def)
qed

lemma store_created_user:
  assumes "create_user store_conn n h role True db = (Inr (), db')" and "db_eval db ''1'' = Some ''1''"
  shows "\<exists>u. store_users db' = store_users db @ [u] \<and> us_username u = n \<and> us_password_hash u = h \<and> us_role u = role \<and>
    us_must_change_password u"
proof -
  let ?full = "[(''id'', Some (show_nat (db_next db))), (''username'', Some n), (''password_hash'', Some h), (''role'', Some role),
     (''must_change_password'', Some ''1'')]"
  have k: "keyed ''users'' ?full" by (simp add: keyed_users row_get_def)
  have "atoi ''1'' \<noteq> 0" by code_simp
  then have u: "us_username (user_of_row ?full) = n" "us_password_hash (user_of_row ?full) = h" "us_role (user_of_row ?full) = role"
    "us_must_change_password (user_of_row ?full)"
    by (simp_all add: user_of_row_def user_from_row_def kUserCols_def str_cell_def cell_def row_get_def int_cell_or_def)
  have "store_conn db (Insert False ''users'' [''username'', ''password_hash'', ''role'', ''must_change_password'']
       [VStr n, VStr h, VStr role, vflag True] []) =
     (if list_ex (same_key ''users'' ?full) (db_rows db ''users'') then (Failed ''Duplicate entry'', db)
      else (Done 1 (int (db_next db)), put_rows ''users'' (db_rows db ''users'' @ [?full]) (db\<lparr>db_next := Suc (db_next db)\<rparr>)))"
    using k assms(2) by (simp add: store_conn_def insert_row_def Let_def val_of_def vflag_def)
  then show ?thesis
    using assms(1) k u
    by (auto simp: create_user_def run_stmt_def exec_def db_map_def db_bind_def db_ret_def store_users_def put_rows_def
        split: if_splits)
qed


text \<open>
  C20. The API server comes up: when the certificate set-up and the settings leave a bind address other
  than the name localhost, and binding 127.0.0.1 works, the daemon ends up with a server on the
  configured port, at the configured address or, after ten attempts there, at 127.0.0.1 with reads
  open, so that the setting can be corrected.
\<close>

theorem api_server_comes_up:
  assumes "0 < cfg_api_port cfg"
    and st: "effective_settings e cfg dbc (case running of None \<Rightarrow> s | Some old \<Rightarrow> dn_close e old s) = (st, s1)"
    and m: "tls_material e cfg (as_tls st) s1 = (material, s2)"
    and "as_bind st \<noteq> ''localhost''"
    and up: "\<And>w. is_ok (fst (server_start e (make_api e cfg dbc (as_port st) material ''127.0.0.1'') w))"
  shows "\<exists>ac s3. start_api_server e cfg dbc running s = (Some ac, s3) \<and> ac_port ac = as_port st \<and>
    (ac_bind ac = as_bind st \<or> ac_bind ac = ''127.0.0.1'' \<and> \<not> ac_require_auth_reads ac \<and>
       fst (try_start 10 e (make_api e cfg dbc (as_port st) material (as_bind st)) s2) = None)"
proof -
  let ?ac = "make_api e cfg dbc (as_port st) material (as_bind st)"
  let ?local = "make_api e cfg dbc (as_port st) material ''127.0.0.1''"
  note run = start_api_server_def [of e cfg dbc running s, unfolded Let_def st m prod.case]
  obtain res s3 where t: "try_start 10 e ?ac s2 = (res, s3)" by (metis surj_pair)
  show ?thesis
  proof (cases res)
    case (Some ac)
    then have "start_api_server e cfg dbc running s = (Some ?ac, s3)"
      using t try_start_server [of 10 e ?ac s2 ac s3] assms(1) by (simp add: run)
    then show ?thesis by (auto simp: make_api_def)
  next
    case None
    have "as_bind st \<noteq> ''127.0.0.1''"
    proof
      assume local: "as_bind st = ''127.0.0.1''"
      obtain r s4 where "server_start e ?local s2 = (r, s4)" by (metis surj_pair)
      moreover from this up [of s2] obtain u where "r = Inr u" by (auto simp: is_ok_iff)
      ultimately have "try_start 10 e ?ac s2 = (Some ?ac, s4)" using local by (simp add: numeral_nat)
      then show False using t None by simp
    qed
    moreover obtain s4 where "server_start e ?local s3 = (Inr (), s4)"
      using up [of s3] by (cases "server_start e ?local s3") (auto simp: is_ok_iff)
    ultimately have "start_api_server e cfg dbc running s = (Some ?local, s4)"
      using t None assms(1,4) by (simp add: run)
    then show ?thesis using t None by (auto simp: make_api_def loopback_def)
  qed
qed

definition plain_get :: "string \<Rightarrow> request" where
  "plain_get path = \<lparr>rq_method = ''GET'', rq_path = path, rq_target = path, rq_header = (\<lambda>_. []), rq_param = (\<lambda>_. None),
     rq_body = [], rq_match = []\<rparr>"

lemma demo_main:
  obtains cfg dbc d ac where "daemon_main (demo_env (\<lambda>_. True)) [''-c'', ''nw.conf''] demo_disk = Inr (cfg, dbc, d)"
    and "dm_api d = Some ac" and "ac_bind ac = ''0.0.0.0''" and "dm_exit d = None" and "ac_token ac = []"
proof -
  let ?m = "daemon_main (demo_env (\<lambda>_. True)) [''-c'', ''nw.conf''] demo_disk"
  obtain cfg dbc d where m: "?m = Inr (cfg, dbc, d)" using demo_starts(1) by (cases ?m) auto
  have "map_option (\<lambda>ac. (ac_bind ac, ac_token ac)) (dm_api (snd (snd (started (\<lambda>_. True))))) = Some (''0.0.0.0'', [])" by code_simp
  then show thesis using that [OF m] demo_starts(3) by (auto simp: started_def m)
qed

theorem exposed_daemon_is_gated_witness:
  "\<exists>cfg dbc d ac. daemon_main (demo_env (\<lambda>_. True)) [''-c'', ''nw.conf''] demo_disk = Inr (cfg, dbc, d) \<and> dm_api d = Some ac \<and>
     (\<forall>a. serve (server_api (demo_env (\<lambda>_. True)) ac a) (plain_get (api ''sensors'')) demo_disk = (reply_err 401 ''unauthorized'', demo_disk))"
proof -
  obtain cfg dbc d ac where m: "daemon_main (demo_env (\<lambda>_. True)) [''-c'', ''nw.conf''] demo_disk = Inr (cfg, dbc, d)"
    and ac: "dm_api d = Some ac" "ac_bind ac = ''0.0.0.0''" "ac_token ac = []"
    by (rule demo_main) blast
  have "serve (server_api (demo_env (\<lambda>_. True)) ac a) (plain_get (api ''sensors'')) demo_disk = (reply_err 401 ''unauthorized'', demo_disk)" for a
    by (rule exposed_daemon_is_gated [OF m daemon_reach.start ac(1)])
      (use ac in \<open>simp_all add: plain_get_def public_path_def api_def starts_with_def token_ok_def server_api_def
        session_info_def session_token_def get_cookie_def db_ret_def\<close>)
  then show ?thesis using m ac(1) by blast
qed


definition seed_env :: "(nat, database) daemon_env" where
  "seed_env = \<lparr>dn_version = ''0.1.2'', dn_getenv = (\<lambda>_. None), dn_file = (\<lambda>_ _. None),
     dn_open = (\<lambda>_ s. (ok (), s)), dn_conn = (\<lambda>_. store_conn), dn_tls = demo_tls, dn_ssl_valid = (\<lambda>_ _ _. True),
     dn_listen = (\<lambda>_ _ s. (True, s)), dn_close = (\<lambda>_ s. s), dn_sleep = (\<lambda>_ s. s),
     dn_rand = (\<lambda>n s. (Some (replicate n 5), s)), dn_kdf = (\<lambda>_ _ _ n. Some (replicate n 7)), dn_join = (\<lambda>_ s. s)\<rparr>"

definition empty_db :: database where
  "empty_db = \<lparr>db_rows = (\<lambda>_. []), db_next = 1, db_eval = (\<lambda>x. Some x)\<rparr>"


theorem api_server_comes_up_witness:
  "\<exists>ac s3. start_api_server (demo_env (\<lambda>b. b = ''127.0.0.1'')) (config_default\<lparr>cfg_api_bind := ''10.0.0.1''\<rparr>) (make_db_config (\<lambda>_. None) config_default)
     None demo_disk = (Some ac, s3) \<and> ac_port ac = 8080"
proof -
  let ?e = "demo_env (\<lambda>b. b = ''127.0.0.1'')" and ?cfg = "config_default\<lparr>cfg_api_bind := ''10.0.0.1''\<rparr>"
  let ?dbc = "make_db_config (\<lambda>_. None) config_default"
  obtain st s1 where st: "effective_settings ?e ?cfg ?dbc demo_disk = (st, s1)" by (metis surj_pair)
  have "fst (effective_settings ?e ?cfg ?dbc demo_disk) = \<lparr>as_bind = ''10.0.0.1'', as_port = 8080, as_tls = False\<rparr>" by code_simp
  then have st': "st = \<lparr>as_bind = ''10.0.0.1'', as_port = 8080, as_tls = False\<rparr>" by (simp add: st)
  have m: "tls_material ?e ?cfg (as_tls st) s1 = (([], []), s1)" by (simp add: tls_material_def st')
  have "is_ok (fst (server_start ?e (make_api ?e ?cfg ?dbc (as_port st) ([], []) ''127.0.0.1'') w))" for w
    by (simp add: server_start_def bind_api_def run_tls_def make_api_def demo_env_def)
  then show ?thesis
    using api_server_comes_up [where e = ?e and cfg = ?cfg and dbc = ?dbc and running = None and s = demo_disk, OF _ _ m] st st'
    by (auto simp: config_default_def)
qed

end
