(* ===== verification/Spec2Isabelle.thy ===== *)
theory Spec2Isabelle imports NW_Sim NW_Serial NW_Config NW_Log NW_Threads NW_ApiTypes NW_Cli NW_Main begin

text \<open>
  NightWatcher2 watches sky quality meters. A daemon polls the meters over TCP or a serial line, keeps
  their readings in MariaDB together with the weather of nearby stations, exports them to a webhook or
  to a folder of Google Drive, and answers an HTTP/JSON API for a web page. Two command line tools work
  on the same database and the same meters, a third obtains the consent for Google Drive, and a
  simulator stands in for a meter.

  The development translates this program, the C++ under \<^verbatim>\<open>src/\<close> and \<^verbatim>\<open>tools/\<close>, into executable
  definitions, and proves what makes its parts correct. A name of the source is kept where Isabelle
  allows it.

  \<^bold>\<open>How the code is represented.\<close>

  \<^item> A C++ string is a list of bytes (\<open>string\<close>). Signed integers are \<open>int\<close>, with the range checks and the
    conversions of the source written out (\<open>stoi\<close>, \<open>to_u16\<close>, \<open>atoi\<close>); addresses and flag words, where
    the code shifts and masks, are words of their width. A \<^verbatim>\<open>double\<close> is an IEEE binary64 value with the
    rounding of the conversions the code uses (\<open>NW_Num\<close>).
  \<^item> A function that may throw returns \<open>Inl\<close> the message or \<open>Inr\<close> the value. A function that also
    changes the world is a state transformer \<open>('s, 'a) db\<close>, for any type \<open>'s\<close> of worlds; \<open>db_bind\<close>
    sequences two of them and \<open>db_catch\<close> is a try block.
  \<^item> A struct is a record, an enum a datatype, an optional member an option.
  \<^item> System calls, servers and libraries are arguments: a list of the outcomes of the calls a loop makes,
    or a field of a record of services (\<open>services\<close>, \<open>api\<close>, \<open>tls_ops\<close>, \<open>daemon_env\<close>). Theorems hold for
    every such argument; what they assume of one is among their hypotheses, and a witness shows that the
    hypotheses can be met.

  \<^bold>\<open>Which theory models what.\<close>

  \<^item> \<open>NW_Prelude\<close>: results, C++ string operations, character classes, decimal numerals, and the lemma
    collections the other theories use.
  \<^item> \<open>NW_Num\<close>: binary64, \<^verbatim>\<open>strtod\<close>, \<^verbatim>\<open>stoi\<close> and their kin, the formats of printf.
  \<^item> \<open>NW_Protocol\<close> (\<^verbatim>\<open>sqm/protocol\<close>), \<open>NW_Transport\<close> (\<^verbatim>\<open>sqm/tcp_transport\<close>, \<^verbatim>\<open>sqm/serial_transport\<close>),
    \<open>NW_Serial\<close> (the port settings of the latter), \<open>NW_Device\<close> (\<^verbatim>\<open>sqm/sqm_device\<close>,
    \<^verbatim>\<open>sqm/device_factory\<close>, connecting over TCP): the way to a meter.
  \<^item> \<open>NW_Sim\<close> (\<^verbatim>\<open>tools/sqm-sim\<close>): the simulator with its serving loop; the device layer is run against it.
  \<^item> \<open>NW_Discovery\<close> (\<^verbatim>\<open>sqm/discovery\<close>): CIDR ranges, the pool of probing workers, serial devices.
  \<^item> \<open>NW_Sql\<close>, \<open>NW_Database\<close> (\<^verbatim>\<open>db/database\<close>): every method as the statements it sends and what it makes
    of the replies. \<open>NW_Store\<close>: a reference database that runs these statements on tables of rows.
  \<^item> \<open>NW_Auth\<close> (\<^verbatim>\<open>auth/password\<close>), \<open>NW_Log\<close> (\<^verbatim>\<open>daemon/logging\<close>), \<open>NW_Config\<close> (\<^verbatim>\<open>daemon/config\<close>), \<open>NW_Time\<close> (\<^verbatim>\<open>export/timeutil\<close>),
    \<open>NW_Json\<close> (the JSON values the sources handle).
  \<^item> \<open>NW_Dsn\<close> (\<^verbatim>\<open>export/dsn_format\<close>), \<open>NW_Drive\<close> (\<^verbatim>\<open>export/gdrive\<close>, \<^verbatim>\<open>cli/gdrive_auth\<close>),
    \<open>NW_Export\<close> (\<^verbatim>\<open>export/exporter\<close>, \<^verbatim>\<open>export/export_runner\<close>): what is exported, and how.
  \<^item> \<open>NW_Weather\<close> (\<^verbatim>\<open>weather/provider\<close>), \<open>NW_Sched\<close> (\<^verbatim>\<open>daemon/scheduler\<close>,
    \<^verbatim>\<open>weather/weather_scheduler\<close>, \<^verbatim>\<open>export/export_scheduler\<close>): the background workers, each on its own.
    \<open>NW_Threads\<close>: the threads of these schedulers, with the mutex, the stop flag and the condition
    variable of \<^verbatim>\<open>stop\<close>, \<^verbatim>\<open>join\<close> and the waits, as a step relation over all interleavings.
  \<^item> \<open>NW_ApiJson\<close>, \<open>NW_Api\<close>, \<open>NW_ApiMore\<close> (\<^verbatim>\<open>api/http_server\<close>): rows as JSON, one definition per handler,
    the table of routes and the gate in front of them. \<open>NW_ApiProps\<close>, \<open>NW_ApiTypes\<close>: what holds of the API
    as a whole.
  \<^item> \<open>NW_Tls\<close> (\<^verbatim>\<open>api/tls_cert\<close>): the self-signed certificate.
  \<^item> \<open>NW_Main\<close> (\<^verbatim>\<open>daemon/main\<close>): start-up, the API server with its retries and fallback, the signal loop.
  \<^item> \<open>NW_Cli\<close> (\<^verbatim>\<open>cli/nwdb\<close>, \<^verbatim>\<open>cli/sqmctl\<close>): the tools.

  \<^bold>\<open>How the parts meet.\<close> A device sends a command over a transport and parses the line that comes back;
  a polling worker opens a device, reads it, and stores the reading through the database methods; a
  weather worker does the same with a provider. An export run selects the readings after a target's
  watermark, hands them to an exporter, and moves the watermark. The API serves handlers that use the
  same database methods, devices, discovery and export run. The daemon loads the configuration,
  prepares schema, first user and certificate, then starts server and workers and waits for signals.
  \<open>NW_Main.daemon_main\<close> is that start-up and \<open>NW_Main.daemon_run\<close> the time after it, in which the work of
  threads and handlers between two signals is an input.
\<close>

text \<open>
  \<^bold>\<open>The contracts.\<close> Where a part relies on another, what it relies on is a locale, interpreted on the
  definitions that keep it:

  \<^item> \<open>line_reader\<close> (\<open>NW_Transport\<close>): \<^verbatim>\<open>read_line\<close> returns the next line of the pending bytes and leaves
    the rest, or times out. Interpreted for the TCP loop, the serial loop and the simulator's client.
  \<^item> \<open>retry_policy\<close> (\<open>NW_Sched\<close>): the bounds of a backoff. Interpreted for sensors (2 to 60 seconds) and
    for weather stations (5 to 300).
  \<^item> \<open>user_store\<close> (\<open>NW_Store\<close>): what finding, listing, adding and removing users do to the stored users.
    Interpreted for the reference database; the user handlers are verified against it, by triples of
    precondition, computation and postcondition on both the returning and the throwing exit.
  \<^item> \<open>pair_files\<close> (\<open>NW_Tls\<close>): which files the operations of the certificate set-up touch. Interpreted for
    a disk as a map from paths to contents and modes.

  \<^bold>\<open>What is shown.\<close> The properties carry the ids C1 to C40, in the order of importance.

  \<^item> Access: without admin rights nothing is changed over HTTP, apart from signing in, signing out and
    changing one's own password; a daemon that listens beyond loopback gates reads as well; signing in needs the password of a
    stored user; the user handlers keep names unique and an admin in place, and refine an abstract map of
    accounts; secrets of a configuration are masked on the way out and kept on the way in; every answer is
    well-typed, an error object whenever it is not a success.
  \<^item> Database: every statement reads back as it was built, with every value as one literal, so no input
    changes its structure; restoring a backup executes the statements that were dumped, in order.
  \<^item> Export: the watermark moves only after success, to the newest reading of the query; rebuilt months
    cover all new readings; a webhook gets each reading once and in order; each line of the data file
    has its place; the next scheduled moment is the first one after now.
  \<^item> Workers and daemon: backoff doubles within its bounds, waits stay within the interval, events
    alternate; stopping a scheduler ends in every interleaving of its threads; a scan gives the same result for every interleaving of its workers, and fair schedules end;
    the daemon keeps running through restarts and ends on the first stopping signal; the API server comes
    up after failed binds; first start seeds one admin; certificate set-up leaves a usable pair.
  \<^item> Devices: both transports give the same lines however the bytes arrive; parsing inverts the documented
    formats; a value set through the device layer reads back from the simulator.
  \<^item> Tools: registering a sensor with nwdb and over the API leaves the same database.

  \<^bold>\<open>Loops, bounds and fuel.\<close> Loops over data or over the outcomes of system calls end with their input and
  need no fuel; where the recursion is not on the structure a measure is given (received bytes,
  remaining hosts of a range, remaining text). A blocking loop of a worker takes a list that says, for
  each bounded wait, whether stop was requested; the daemon's loop takes the list of its signals; the
  scan takes a schedule, and its theorem shows that every fair schedule of the length the pool needs
  ends. Stopping needs no fairness: \<open>crew_left\<close> counts the actions that remain, and each action lowers it. The limits that occur (256 bytes per read, 200000 readings per export, /16 as the widest range,
  ten attempts of a bind, the batch sizes) are those of the code.

  \<^bold>\<open>Not modelled.\<close> What the components write to the log and to the error output is left out of
  their models, since nothing reads it (\<open>NW_Log\<close> has the line a message becomes), and so are the help texts. The
  libraries outside the source (cpp-httplib, the parser and printer of nlohmann::json, OpenSSL, the
  MariaDB client and server, the zone database) are arguments, printing JSON being total as it is for text in UTF-8; the web page (JavaScript), the
  tests, the packaging and the bundled third-party headers have no counterpart. Workers share only the
  stop flag and the database: the flag, with the threads, is in \<open>NW_Threads\<close>, and a worker's run there
  gives the list of waits its loop in \<open>NW_Sched\<close> takes (\<open>wait_outcomes_shape\<close>). What others do to the
  database shows as an arbitrary change of the world between the steps of the daemon (\<open>daemon_run\<close>) or as
  an arbitrary connection. Closing descriptors, and C++ destructors in general, have no counterpart.
\<close>

end
